(* ===== verification/Prelude.thy ===== *)
theory Prelude
  imports Main
begin

text \<open>
  The shared vocabulary of the development: Python text and bytes, exceptions as values,
  and the effect type of a Python call (an exception or a value, with the state after the
  call in both cases), together with the Hoare-style rules the component proofs use.
\<close>

section \<open>Text and exceptions\<close>

text \<open>
  A Python \<^verbatim>\<open>str\<close> is a sequence of Unicode code points (lone surrogates included), and
  \<^verbatim>\<open>bytes\<close> a sequence of numbers below 256. \<open>lit\<close> turns an ASCII literal into a
  \<^verbatim>\<open>str\<close>.
\<close>

type_synonym pystr = "nat list"
type_synonym pybytes = "nat list"

definition lit :: "string \<Rightarrow> pystr" where
  "lit s = map of_char s"

lemma lit_Nil [simp]: "lit [] = []"
  by (simp add: lit_def)

lemma lit_Cons [simp]: "lit (c # cs) = of_char c # lit cs"
  by (simp add: lit_def)

lemma lit_append: "lit (s @ t) = lit s @ lit t"
  by (simp add: lit_def)

lemma length_lit [simp]: "length (lit s) = length s"
  by (simp add: lit_def)

lemma lit_eq_iff: "lit s = lit t \<longleftrightarrow> s = t"
  by (simp add: lit_def inj_map_eq_map inj_def)

lemma lit_bound: "c \<in> set (lit s) \<Longrightarrow> c < 256"
  by (auto simp: lit_def)

text \<open>
  Exceptions that the modelled code raises or catches by class. \<open>OtherError\<close> carries the
  class name of an exception raised by code that is not modelled.
\<close>

datatype exc_class =
    RuntimeError | IndexError | KeyError | ValueError | TypeError | NotImplementedError
  | UnicodeEncodeError | UnicodeDecodeError
  | FileNotFoundError | FileExistsError | IsADirectoryError | NotADirectoryError | OSError
  | TimeoutExpired | ValidationError | OtherError pystr

datatype pyexc = PyExc (exc_type: exc_class) (exc_str: pystr)

text \<open>\<^verbatim>\<open>type(exc).__name__\<close>\<close>

fun class_name :: "exc_class \<Rightarrow> pystr" where
  "class_name RuntimeError = lit ''RuntimeError''"
| "class_name IndexError = lit ''IndexError''"
| "class_name KeyError = lit ''KeyError''"
| "class_name ValueError = lit ''ValueError''"
| "class_name TypeError = lit ''TypeError''"
| "class_name NotImplementedError = lit ''NotImplementedError''"
| "class_name UnicodeEncodeError = lit ''UnicodeEncodeError''"
| "class_name UnicodeDecodeError = lit ''UnicodeDecodeError''"
| "class_name FileNotFoundError = lit ''FileNotFoundError''"
| "class_name FileExistsError = lit ''FileExistsError''"
| "class_name IsADirectoryError = lit ''IsADirectoryError''"
| "class_name NotADirectoryError = lit ''NotADirectoryError''"
| "class_name OSError = lit ''OSError''"
| "class_name TimeoutExpired = lit ''TimeoutExpired''"
| "class_name ValidationError = lit ''ValidationError''"
| "class_name (OtherError n) = n"

section \<open>Effects: state passing with exceptions\<close>

text \<open>
  A call maps the state before it to an exception (\<open>Inl\<close>) or a value (\<open>Inr\<close>) and the state after it. What a
  call did before it raised stays done, as in Python. The exceptions of the Python model are \<open>pyexc\<close>; the
  Go model uses the same combinators with its own error type.
\<close>

type_synonym ('x, 's, 'a) effect = "'s \<Rightarrow> ('x + 'a) \<times> 's"

type_synonym ('s, 'a) eff = "(pyexc, 's, 'a) effect"

definition ret :: "'a \<Rightarrow> ('x, 's, 'a) effect" where
  "ret x = (\<lambda>s. (Inr x, s))"

definition throw :: "'x \<Rightarrow> ('x, 's, 'a) effect" where
  "throw e = (\<lambda>s. (Inl e, s))"

definition gets :: "('s \<Rightarrow> 'a) \<Rightarrow> ('x, 's, 'a) effect" where
  "gets f = (\<lambda>s. (Inr (f s), s))"

definition modify :: "('s \<Rightarrow> 's) \<Rightarrow> ('x, 's, unit) effect" where
  "modify f = (\<lambda>s. (Inr (), f s))"

definition of_sum :: "'x + 'a \<Rightarrow> ('x, 's, 'a) effect" where
  "of_sum r = (\<lambda>s. (r, s))"

definition bindE :: "('x, 's, 'a) effect \<Rightarrow> ('a \<Rightarrow> ('x, 's, 'b) effect) \<Rightarrow> ('x, 's, 'b) effect" where
  "bindE m f = (\<lambda>s. case m s of (Inl e, t) \<Rightarrow> (Inl e, t) | (Inr x, t) \<Rightarrow> f x t)"

definition thenE :: "('x, 's, 'a) effect \<Rightarrow> ('x, 's, 'b) effect \<Rightarrow> ('x, 's, 'b) effect" where
  "thenE m n = bindE m (\<lambda>_. n)"

text \<open>\<^verbatim>\<open>try: m except Exception as exc: h(exc)\<close>\<close>

definition catchE :: "('x, 's, 'a) effect \<Rightarrow> ('x \<Rightarrow> ('x, 's, 'a) effect) \<Rightarrow> ('x, 's, 'a) effect" where
  "catchE m h = (\<lambda>s. case m s of (Inl e, t) \<Rightarrow> h e t | (Inr x, t) \<Rightarrow> (Inr x, t))"

text \<open>\<^verbatim>\<open>try: v = m except <class> as e: ...\<close>: the exceptions \<open>c\<close> selects become a value.\<close>

definition attempt :: "('x \<Rightarrow> bool) \<Rightarrow> ('x, 's, 'a) effect \<Rightarrow> ('x, 's, 'x + 'a) effect" where
  "attempt c m = catchE (bindE m (\<lambda>v. ret (Inr v))) (\<lambda>x. if c x then ret (Inl x) else throw x)"

text \<open>A \<^verbatim>\<open>for\<close> loop that appends one result per element.\<close>

primrec mapE :: "('a \<Rightarrow> ('x, 's, 'b) effect) \<Rightarrow> 'a list \<Rightarrow> ('x, 's, 'b list) effect" where
  "mapE f [] = ret []"
| "mapE f (x # xs) = bindE (f x) (\<lambda>y. bindE (mapE f xs) (\<lambda>ys. ret (y # ys)))"

lemmas eff_defs = ret_def throw_def gets_def modify_def of_sum_def bindE_def thenE_def catchE_def

lemma bindE_ret [simp]: "bindE (ret x) f = f x"
  by (simp add: eff_defs)

lemma bindE_throw [simp]: "bindE (throw e) f = throw e"
  by (simp add: eff_defs)

lemma bindE_assoc: "bindE (bindE m f) g = bindE m (\<lambda>x. bindE (f x) g)"
  by (rule ext) (simp add: eff_defs split: prod.splits sum.splits)

lemma bindE_Inr_iff:
  "bindE m f s = (Inr y, t) \<longleftrightarrow> (\<exists>x u. m s = (Inr x, u) \<and> f x u = (Inr y, t))"
  by (auto simp: bindE_def split: prod.splits sum.splits)

lemma catchE_ret [simp]: "catchE (ret x) h = ret x"
  by (simp add: eff_defs)

lemma catchE_throw [simp]: "catchE (throw e) h = h e"
  by (rule ext) (simp add: eff_defs)

section \<open>Hoare triples for effects\<close>

text \<open>
  \<open>hoare P m Q E\<close>: from a state satisfying \<open>P\<close>, a normal return satisfies \<open>Q\<close> and an
  exception satisfies \<open>E\<close>. Every effect of the model is a total function, so this is total
  correctness.
\<close>

definition hoare ::
  "('s \<Rightarrow> bool) \<Rightarrow> ('x, 's, 'a) effect \<Rightarrow> ('a \<Rightarrow> 's \<Rightarrow> bool) \<Rightarrow> ('x \<Rightarrow> 's \<Rightarrow> bool) \<Rightarrow> bool" where
  "hoare P m Q E \<longleftrightarrow>
     (\<forall>s. P s \<longrightarrow> (case m s of (Inl e, t) \<Rightarrow> E e t | (Inr x, t) \<Rightarrow> Q x t))"

named_theorems wp \<open>Hoare rules of the effect combinators and of the modelled operations\<close>

lemma hoareI:
  assumes "\<And>s x t. P s \<Longrightarrow> m s = (Inr x, t) \<Longrightarrow> Q x t"
    and "\<And>s e t. P s \<Longrightarrow> m s = (Inl e, t) \<Longrightarrow> E e t"
  shows "hoare P m Q E"
  using assms by (auto simp: hoare_def split: prod.splits sum.splits)

lemma hoare_InrD: "hoare P m Q E \<Longrightarrow> P s \<Longrightarrow> m s = (Inr x, t) \<Longrightarrow> Q x t"
  by (force simp: hoare_def)

lemma hoare_InlD: "hoare P m Q E \<Longrightarrow> P s \<Longrightarrow> m s = (Inl e, t) \<Longrightarrow> E e t"
  by (force simp: hoare_def)

lemma hoare_ret [wp]: "hoare (Q x) (ret x) Q E"
  by (simp add: hoare_def ret_def)

lemma hoare_throw [wp]: "hoare (E e) (throw e) Q E"
  by (simp add: hoare_def throw_def)

lemma hoare_gets [wp]: "hoare (\<lambda>s. Q (f s) s) (gets f) Q E"
  by (simp add: hoare_def gets_def)

lemma hoare_modify [wp]: "hoare (\<lambda>s. Q () (f s)) (modify f) Q E"
  by (simp add: hoare_def modify_def)

lemma hoare_bind:
  assumes "hoare P m R E" and "\<And>x. hoare (R x) (f x) Q E"
  shows "hoare P (bindE m f) Q E"
  using assms by (fastforce simp: hoare_def bindE_def split: prod.splits sum.splits)

lemma hoare_then:
  assumes "hoare P m (\<lambda>_. R) E" and "hoare R n Q E"
  shows "hoare P (thenE m n) Q E"
  unfolding thenE_def using assms by (rule hoare_bind)

lemma hoare_catch:
  assumes "hoare P m Q R" and "\<And>e. hoare (R e) (h e) Q E"
  shows "hoare P (catchE m h) Q E"
  using assms by (fastforce simp: hoare_def catchE_def split: prod.splits sum.splits)

lemma hoare_pre: "hoare P' m Q E \<Longrightarrow> (\<And>s. P s \<Longrightarrow> P' s) \<Longrightarrow> hoare P m Q E"
  by (auto simp: hoare_def)

lemma hoare_post:
  assumes "hoare P m Q' E'" and "\<And>x s. Q' x s \<Longrightarrow> Q x s" and "\<And>e s. E' e s \<Longrightarrow> E e s"
  shows "hoare P m Q E"
  using assms by (fastforce simp: hoare_def split: prod.splits sum.splits)

lemma hoare_if:
  "(b \<Longrightarrow> hoare P m Q E) \<Longrightarrow> (\<not> b \<Longrightarrow> hoare P n Q E) \<Longrightarrow> hoare P (if b then m else n) Q E"
  by simp

lemma hoare_mapE:
  assumes "\<And>x. hoare P (f x) (\<lambda>_. P) E"
  shows "hoare P (mapE f xs) (\<lambda>_. P) E"
  by (induction xs)
    (auto intro!: hoare_bind [OF assms] hoare_bind hoare_pre [OF hoare_ret])

text \<open>\<open>preserves P m\<close>: \<open>P\<close> survives \<open>m\<close>, whether it returns or raises.\<close>

definition preserves :: "('s \<Rightarrow> bool) \<Rightarrow> ('x, 's, 'a) effect \<Rightarrow> bool" where
  "preserves P m \<longleftrightarrow> hoare P m (\<lambda>_. P) (\<lambda>_. P)"

lemma preservesI: "(\<And>s y t. P s \<Longrightarrow> m s = (y, t) \<Longrightarrow> P t) \<Longrightarrow> preserves P m"
  by (auto simp: preserves_def intro: hoareI)

lemma preservesD: "preserves P m \<Longrightarrow> P s \<Longrightarrow> m s = (y, t) \<Longrightarrow> P t"
  by (cases y) (auto simp: preserves_def dest: hoare_InrD hoare_InlD)

lemma preserves_snd: "preserves P m \<Longrightarrow> P s \<Longrightarrow> P (snd (m s))"
  by (metis preservesD prod.collapse)

lemma preserves_stateless [intro, simp]:
  "preserves P (ret x)" "preserves P (throw e)" "preserves P (gets f)" "preserves P (of_sum z)"
  by (auto simp: eff_defs intro: preservesI)

lemma preserves_modify: "(\<And>s. P s \<Longrightarrow> P (f s)) \<Longrightarrow> preserves P (modify f)"
  by (auto simp: eff_defs intro: preservesI)

lemma preserves_bind: "preserves P m \<Longrightarrow> (\<And>x. preserves P (f x)) \<Longrightarrow> preserves P (bindE m f)"
  by (auto simp: preserves_def intro: hoare_bind)

lemma preserves_then: "preserves P m \<Longrightarrow> preserves P n \<Longrightarrow> preserves P (thenE m n)"
  by (auto simp: preserves_def intro: hoare_then)

lemma preserves_catch: "preserves P m \<Longrightarrow> (\<And>e. preserves P (h e)) \<Longrightarrow> preserves P (catchE m h)"
  by (auto simp: preserves_def intro: hoare_catch)

lemma preserves_if: "preserves P m \<Longrightarrow> preserves P n \<Longrightarrow> preserves P (if b then m else n)"
  by simp

lemma preserves_mapE: "(\<And>x. preserves P (f x)) \<Longrightarrow> preserves P (mapE f xs)"
  by (auto simp: preserves_def intro: hoare_mapE)

lemma preserves_attempt: "preserves P m \<Longrightarrow> preserves P (attempt c m)"
  unfolding attempt_def by (auto intro!: preserves_catch preserves_bind)

lemma preserves_conj:
  "preserves P m \<Longrightarrow> preserves Q m \<Longrightarrow> preserves (\<lambda>s. P s \<and> Q s) m"
  by (auto intro!: preservesI dest: preservesD)

lemma attempt_Inr_iff:
  "attempt c m s = (Inr y, t) \<longleftrightarrow>
     (\<exists>v. m s = (Inr v, t) \<and> y = Inr v) \<or> (\<exists>x. m s = (Inl x, t) \<and> c x \<and> y = Inl x)"
  by (auto simp: attempt_def eff_defs split: prod.splits sum.splits if_splits)

lemmas preserves_intros =
  preserves_stateless preserves_attempt preserves_bind preserves_then preserves_catch preserves_if preserves_mapE

section \<open>Frame conditions\<close>

text \<open>\<open>keeps r m\<close>: whether \<open>m\<close> returns or raises, the states before and after are related.\<close>

definition keeps :: "('s \<Rightarrow> 's \<Rightarrow> bool) \<Rightarrow> ('x, 's, 'a) effect \<Rightarrow> bool" where
  "keeps r m \<longleftrightarrow> (\<forall>s. r s (snd (m s)))"

lemma keepsD: "keeps r m \<Longrightarrow> m s = (y, t) \<Longrightarrow> r s t"
  unfolding keeps_def by (metis snd_conv)

lemma keepsI: "(\<And>s y t. m s = (y, t) \<Longrightarrow> r s t) \<Longrightarrow> keeps r m"
  unfolding keeps_def by (metis prod.collapse)

lemma keeps_mono: "keeps q m \<Longrightarrow> (\<And>s t. q s t \<Longrightarrow> r s t) \<Longrightarrow> keeps r m"
  by (auto simp: keeps_def)

lemma keeps_stateless:
  assumes "reflp r"
  shows "keeps r (ret x)" "keeps r (throw e)" "keeps r (gets f)" "keeps r (of_sum z)"
  using assms by (auto simp: keeps_def eff_defs dest: reflpD)

lemma keeps_modify: "(\<And>s. r s (f s)) \<Longrightarrow> keeps r (modify f)"
  by (simp add: keeps_def modify_def)

lemma keeps_bind:
  assumes "transp r" "keeps r m" "\<And>x. keeps r (f x)"
  shows "keeps r (bindE m f)"
proof (rule keepsI)
  fix s y t
  assume eq: "bindE m f s = (y, t)"
  obtain z u where m: "m s = (z, u)" by fastforce
  then have su: "r s u" using assms(2) by (rule keepsD [rotated])
  show "r s t"
  proof (cases z)
    case (Inl e)
    with eq m su show ?thesis by (simp add: bindE_def)
  next
    case (Inr x)
    with eq m have "f x u = (y, t)" by (simp add: bindE_def)
    with assms(3) have "r u t" by (rule keepsD)
    with su show ?thesis using \<open>transp r\<close> by (blast dest: transpD)
  qed
qed

lemma keeps_then: "transp r \<Longrightarrow> keeps r m \<Longrightarrow> keeps r n \<Longrightarrow> keeps r (thenE m n)"
  unfolding thenE_def by (rule keeps_bind)

lemma keeps_catch:
  assumes "transp r" "keeps r m" "\<And>e. keeps r (h e)"
  shows "keeps r (catchE m h)"
proof (rule keepsI)
  fix s y t
  assume eq: "catchE m h s = (y, t)"
  obtain z u where m: "m s = (z, u)" by fastforce
  then have su: "r s u" using assms(2) by (rule keepsD [rotated])
  show "r s t"
  proof (cases z)
    case (Inr x)
    with eq m su show ?thesis by (simp add: catchE_def)
  next
    case (Inl e)
    with eq m have "h e u = (y, t)" by (simp add: catchE_def)
    with assms(3) have "r u t" by (rule keepsD)
    with su show ?thesis using \<open>transp r\<close> by (blast dest: transpD)
  qed
qed

lemma keeps_attempt: "reflp r \<Longrightarrow> transp r \<Longrightarrow> keeps r m \<Longrightarrow> keeps r (attempt c m)"
  unfolding attempt_def by (auto intro!: keeps_catch keeps_bind keeps_stateless)

lemma keeps_if: "keeps r m \<Longrightarrow> keeps r n \<Longrightarrow> keeps r (if b then m else n)"
  by simp

lemma keeps_mapE:
  assumes "reflp r" "transp r" "\<And>x. keeps r (f x)"
  shows "keeps r (mapE f xs)"
  by (induction xs) (auto intro!: keeps_bind keeps_stateless assms)

lemmas keeps_intros = keeps_attempt keeps_bind keeps_then keeps_catch keeps_if keeps_stateless keeps_mapE

text \<open>Leaving a projection of the state unchanged is a reflexive, transitive frame condition.\<close>

lemma reflp_same [simp, intro]: "reflp (\<lambda>s t. f t = f s)"
  by (simp add: reflp_def)

lemma transp_same [simp, intro]: "transp (\<lambda>s t. f t = f s)"
  by (simp add: transp_def)

end
