(* ===== verification/PyText.thy ===== *)
theory PyText
  imports Prelude
begin

text \<open>
  The string operations of the Python standard library that the SDK uses: \<^verbatim>\<open>split\<close>,
  \<^verbatim>\<open>join\<close>, \<^verbatim>\<open>splitlines\<close>, \<^verbatim>\<open>strip\<close>, \<^verbatim>\<open>endswith\<close>, the universal-newline translation of
  text-mode reads and the decimal rendering of integers, with the laws the file tools rely on.
\<close>

section \<open>Separators\<close>

abbreviation (input) nl :: nat where "nl \<equiv> 10"
abbreviation (input) cr :: nat where "cr \<equiv> 13"
abbreviation (input) slash :: nat where "slash \<equiv> 47"

text \<open>\<open>cons_first c ls\<close> puts a character in front of the first line of \<open>ls\<close>.\<close>

definition cons_first :: "nat \<Rightarrow> pystr list \<Rightarrow> pystr list" where
  "cons_first c ls = (case ls of [] \<Rightarrow> [[c]] | l # ls' \<Rightarrow> (c # l) # ls')"

lemma cons_first_simps [simp]:
  "cons_first c [] = [[c]]"
  "cons_first c (l # ls) = (c # l) # ls"
  by (simp_all add: cons_first_def)

lemma cons_first_not_Nil [simp]: "cons_first c ls \<noteq> []" "[] \<noteq> cons_first c ls"
  by (cases ls; simp)+

lemma length_cons_first: "ls \<noteq> [] \<Longrightarrow> length (cons_first c ls) = length ls"
  by (cases ls) simp_all

text \<open>\<^verbatim>\<open>s.split(sep)\<close> for a one-character separator.\<close>

fun split_on :: "nat \<Rightarrow> pystr \<Rightarrow> pystr list" where
  "split_on c [] = [[]]"
| "split_on c (x # xs) = (if x = c then [] # split_on c xs else cons_first x (split_on c xs))"

text \<open>\<^verbatim>\<open>sep.join(parts)\<close>\<close>

fun join_with :: "pystr \<Rightarrow> pystr list \<Rightarrow> pystr" where
  "join_with sep [] = []"
| "join_with sep [l] = l"
| "join_with sep (l # ls) = l @ sep @ join_with sep ls"

lemma split_on_not_Nil [simp]: "split_on c s \<noteq> []" "[] \<noteq> split_on c s"
  by (induction s) simp_all

lemma join_with_Cons: "ls \<noteq> [] \<Longrightarrow> join_with sep (l # ls) = l @ sep @ join_with sep ls"
  by (cases ls) simp_all

lemma join_with_append:
  "ls \<noteq> [] \<Longrightarrow> ms \<noteq> [] \<Longrightarrow> join_with sep (ls @ ms) = join_with sep ls @ sep @ join_with sep ms"
proof (induction ls)
  case (Cons l ls)
  then show ?case by (cases "ls = []") (simp_all add: join_with_Cons)
qed simp

lemma join_cons_first: "ls \<noteq> [] \<Longrightarrow> join_with sep (cons_first c ls) = c # join_with sep ls"
  by (cases ls rule: list.exhaust, simp) (rename_tac l ms, case_tac ms, simp_all)

lemma join_split [simp]: "join_with [c] (split_on c s) = s"
  by (induction s) (simp_all add: join_with_Cons join_cons_first)

lemma split_on_append_sep: "split_on c (s @ c # t) = split_on c s @ split_on c t"
  by (induction s) (auto simp: cons_first_def split: list.splits)

lemma split_on_id: "c \<notin> set l \<Longrightarrow> split_on c l = [l]"
  by (induction l) auto

lemma split_join:
  assumes "ls \<noteq> []" and "\<forall>l \<in> set ls. c \<notin> set l"
  shows "split_on c (join_with [c] ls) = ls"
  using assms
proof (induction ls)
  case (Cons l ls)
  then show ?case
    by (cases "ls = []") (simp_all add: join_with_Cons split_on_append_sep split_on_id)
qed simp

lemma split_on_no_sep: "l \<in> set (split_on c s) \<Longrightarrow> c \<notin> set l"
  by (induction s arbitrary: l) (auto simp: cons_first_def split: list.splits if_splits)

lemma length_split_on: "length (split_on c s) = Suc (count_list s c)"
  by (induction s) (simp_all add: length_cons_first)

lemma set_split_on: "l \<in> set (split_on c s) \<Longrightarrow> set l \<subseteq> set s"
  by (induction s arbitrary: l) (fastforce simp: cons_first_def split: list.splits if_splits)+

text \<open>\<^verbatim>\<open>s.endswith(c)\<close> for one character.\<close>

definition ends_with :: "nat \<Rightarrow> pystr \<Rightarrow> bool" where
  "ends_with c s \<longleftrightarrow> s \<noteq> [] \<and> last s = c"

lemma ends_with_append: "t \<noteq> [] \<Longrightarrow> ends_with c (s @ t) = ends_with c t"
  by (simp add: ends_with_def)

lemma ends_with_simps [simp]:
  "\<not> ends_with c []"
  "ends_with c (s @ [x]) \<longleftrightarrow> x = c"
  by (simp_all add: ends_with_def)

lemma last_split_on: "last (split_on c s) = [] \<longleftrightarrow> s = [] \<or> ends_with c s"
proof (induction s rule: rev_induct)
  case (snoc x s)
  show ?case
  proof (cases "x = c")
    case True
    then show ?thesis using split_on_append_sep [of c s "[]"] by simp
  next
    case False
    have "join_with [c] (split_on c (s @ [x])) = s @ [x]" by simp
    moreover have "last (split_on c (s @ [x])) = [] \<Longrightarrow>
        join_with [c] (split_on c (s @ [x])) = [] \<or> ends_with c (join_with [c] (split_on c (s @ [x])))"
    proof -
      assume l: "last (split_on c (s @ [x])) = []"
      obtain us where us: "split_on c (s @ [x]) = us @ [[]]"
        using l by (metis append_butlast_last_id split_on_not_Nil(1))
      show ?thesis
        by (cases "us = []") (auto simp: us join_with_append ends_with_def)
    qed
    ultimately show ?thesis using False by auto
  qed
qed simp

lemma ends_with_join:
  assumes "ls \<noteq> []" and "c \<notin> set (last ls)"
  shows "ends_with c (join_with [c] ls) \<longleftrightarrow> length ls > 1 \<and> last ls = []"
proof (cases "butlast ls = []")
  case True
  with assms(1) obtain l where ls: "ls = [l]"
    by (metis append_butlast_last_id append_Nil)
  with assms(2) show ?thesis by (auto simp: ends_with_def)
next
  case False
  from assms(1) obtain ms l where ls: "ls = ms @ [l]" by (metis append_butlast_last_id)
  with False have ms: "ms \<noteq> []" by simp
  from ls assms(2) have l: "c \<notin> set l" by simp
  have "ends_with c (join_with [c] ms @ [c] @ l) \<longleftrightarrow> l = []"
    using l by (cases l rule: rev_cases) (auto simp: ends_with_def)
  with ms ls show ?thesis by (simp add: join_with_append)
qed

section \<open>Lines\<close>

text \<open>The characters at which \<^verbatim>\<open>str.splitlines\<close> breaks.\<close>

definition line_break :: "nat \<Rightarrow> bool" where
  "line_break c \<longleftrightarrow> c \<in> {10, 11, 12, 13, 28, 29, 30, 133, 8232, 8233}"

text \<open>\<^verbatim>\<open>s.splitlines()\<close>: no empty line after a final break; CR LF counts once.\<close>

fun splitlines :: "pystr \<Rightarrow> pystr list" where
  "splitlines [] = []"
| "splitlines (c # cs) =
     (if line_break c
      then [] # (if c = cr \<and> cs \<noteq> [] \<and> hd cs = nl then splitlines (tl cs) else splitlines cs)
      else cons_first c (splitlines cs))"

text \<open>Reading a text file translates CR LF and CR to LF (universal newlines).\<close>

fun universal_newlines :: "pystr \<Rightarrow> pystr" where
  "universal_newlines [] = []"
| "universal_newlines (c # cs) =
     (if c = cr
      then nl # (if cs \<noteq> [] \<and> hd cs = nl then universal_newlines (tl cs) else universal_newlines cs)
      else c # universal_newlines cs)"

lemma universal_newlines_id: "cr \<notin> set s \<Longrightarrow> universal_newlines s = s"
  by (induction s rule: universal_newlines.induct) auto

lemma universal_newlines_no_cr: "cr \<notin> set (universal_newlines s)"
  by (induction s rule: universal_newlines.induct) auto

lemma splitlines_no_break: "l \<in> set (splitlines s) \<Longrightarrow> c \<in> set l \<Longrightarrow> \<not> line_break c"
  by (induction s arbitrary: l rule: splitlines.induct)
    (fastforce simp: cons_first_def split: list.splits if_splits)+

lemma splitlines_eq_Nil [simp]: "splitlines s = [] \<longleftrightarrow> s = []"
  by (cases s) auto

text \<open>
  On text whose only line break is LF, \<^verbatim>\<open>splitlines\<close> is \<^verbatim>\<open>split("\n")\<close> without the empty last
  element of newline-terminated text.
\<close>

definition nl_lines :: "pystr \<Rightarrow> pystr list" where
  "nl_lines s = (if ends_with nl s then butlast (split_on nl s) else split_on nl s)"

lemma butlast_cons_first: "length ls > 1 \<Longrightarrow> butlast (cons_first c ls) = cons_first c (butlast ls)"
  by (cases ls) auto

lemma splitlines_nl_lines:
  assumes "\<forall>c \<in> set s. line_break c \<longrightarrow> c = nl" and "s \<noteq> []"
  shows "splitlines s = nl_lines s"
  using assms
proof (induction s)
  case (Cons c cs)
  have lb: "line_break nl" by (simp add: line_break_def)
  show ?case
  proof (cases "cs = []")
    case True
    moreover have "\<not> line_break c" if "c \<noteq> nl" using Cons.prems(1) that by auto
    ultimately show ?thesis
      by (cases "c = nl") (simp_all add: nl_lines_def ends_with_def lb)
  next
    case False
    then have IH: "splitlines cs = nl_lines cs" using Cons by simp
    have e: "ends_with nl (c # cs) = ends_with nl cs" using False by (simp add: ends_with_def)
    show ?thesis
    proof (cases "c = nl")
      case True
      then show ?thesis using IH False e by (simp add: lb nl_lines_def)
    next
      case c: False
      then have nlb: "\<not> line_break c" using Cons.prems by auto
      show ?thesis
      proof (cases "ends_with nl cs")
        case True
        then have "nl \<in> set cs" using last_in_set [OF False] by (simp add: ends_with_def)
        then have "length (split_on nl cs) > 1"
          by (metis length_split_on count_list_0_iff gr0I Suc_less_eq One_nat_def)
        then show ?thesis using IH c nlb e True by (simp add: nl_lines_def butlast_cons_first)
      next
        case False
        then show ?thesis using IH c nlb e by (simp add: nl_lines_def)
      qed
    qed
  qed
qed simp

section \<open>Whitespace\<close>

text \<open>The characters with \<^verbatim>\<open>str.isspace\<close>.\<close>

definition is_space :: "nat \<Rightarrow> bool" where
  "is_space c \<longleftrightarrow> (9 \<le> c \<and> c \<le> 13) \<or> (28 \<le> c \<and> c \<le> 32) \<or> c = 133 \<or> c = 160 \<or> c = 5760
     \<or> (8192 \<le> c \<and> c \<le> 8202) \<or> c \<in> {8232, 8233, 8239, 8287, 12288}"

text \<open>\<^verbatim>\<open>s.strip()\<close> and \<^verbatim>\<open>s.split()\<close>\<close>

definition strip :: "pystr \<Rightarrow> pystr" where
  "strip s = rev (dropWhile is_space (rev (dropWhile is_space s)))"

fun words_aux :: "pystr \<Rightarrow> pystr \<Rightarrow> pystr list" where
  "words_aux w [] = (if w = [] then [] else [rev w])"
| "words_aux w (c # cs) =
     (if is_space c then (if w = [] then words_aux [] cs else rev w # words_aux [] cs)
      else words_aux (c # w) cs)"

definition py_words :: "pystr \<Rightarrow> pystr list" where
  "py_words s = words_aux [] s"

lemma dropWhile_rev_Nil: "dropWhile p (rev s) = [] \<longleftrightarrow> (\<forall>c \<in> set s. p c)"
  by (simp add: dropWhile_eq_Nil_conv)

lemma strip_eq_Nil: "strip s = [] \<longleftrightarrow> (\<forall>c \<in> set s. is_space c)"
  unfolding strip_def rev_is_Nil_conv dropWhile_rev_Nil
  by (metis dropWhile_eq_Nil_conv hd_dropWhile list.set_sel(1) takeWhile_dropWhile_id Un_iff set_append
      set_takeWhileD empty_iff list.set(1))

lemma strip_id:
  assumes "s \<noteq> []" "\<not> is_space (hd s)" "\<not> is_space (last s)"
  shows "strip s = s"
proof -
  have "dropWhile is_space s = s" using assms by (cases s) auto
  moreover have "dropWhile is_space (rev s) = rev s"
    using assms by (cases s rule: rev_cases) auto
  ultimately show ?thesis by (simp add: strip_def)
qed

section \<open>Decimal integers\<close>

fun show_nat :: "nat \<Rightarrow> pystr" where
  "show_nat n = (if n < 10 then [48 + n] else show_nat (n div 10) @ [48 + n mod 10])"

declare show_nat.simps [simp del]

definition show_int :: "int \<Rightarrow> pystr" where
  "show_int i = (if i < 0 then 45 # show_nat (nat (- i)) else show_nat (nat i))"

definition read_nat :: "pystr \<Rightarrow> nat" where
  "read_nat s = foldl (\<lambda>n c. n * 10 + (c - 48)) 0 s"

lemma read_nat_snoc [simp]: "read_nat (s @ [c]) = read_nat s * 10 + (c - 48)"
  by (simp add: read_nat_def)

lemma read_nat_Nil [simp]: "read_nat [] = 0"
  by (simp add: read_nat_def)

lemma read_show_nat [simp]: "read_nat (show_nat n) = n"
proof (induction n rule: show_nat.induct)
  case (1 n)
  show ?case
  proof (cases "n < 10")
    case True
    then show ?thesis using read_nat_snoc [of "[]"] by (simp add: show_nat.simps)
  next
    case False
    then show ?thesis using 1 by (subst show_nat.simps) simp
  qed
qed

lemma show_nat_inject [simp]: "show_nat m = show_nat n \<longleftrightarrow> m = n"
  by (metis read_show_nat)

lemma show_nat_digits: "c \<in> set (show_nat n) \<Longrightarrow> 48 \<le> c \<and> c \<le> 57"
proof (induction n arbitrary: c rule: show_nat.induct)
  case (1 n)
  show ?case
  proof (cases "n < 10")
    case True
    then show ?thesis using 1 by (simp add: show_nat.simps)
  next
    case False
    then have "c \<in> set (show_nat (n div 10)) \<or> c = 48 + n mod 10"
      using "1.prems" by (subst (asm) show_nat.simps) auto
    then show ?thesis using "1.IH" [OF False] by auto
  qed
qed

lemma show_nat_not_Nil [simp]: "show_nat n \<noteq> []"
  by (subst show_nat.simps) simp

text \<open>Fixed-width, zero-padded decimals (\<^verbatim>\<open>{n:03d}\<close>).\<close>

definition pad_nat :: "nat \<Rightarrow> nat \<Rightarrow> pystr" where
  "pad_nat w n = (let d = show_nat n in replicate (w - length d) 48 @ d)"

lemma show_nat_length: "n < 10 ^ k \<Longrightarrow> 0 < k \<Longrightarrow> length (show_nat n) \<le> k"
proof (induction k arbitrary: n)
  case (Suc k)
  show ?case
  proof (cases "n < 10")
    case True
    then show ?thesis by (simp add: show_nat.simps)
  next
    case False
    then have "n div 10 < 10 ^ k" "0 < k" using Suc.prems by (auto intro: ccontr)
    then have "length (show_nat (n div 10)) \<le> k" using Suc.IH by blast
    then show ?thesis using False by (subst show_nat.simps) simp
  qed
qed simp

lemma length_pad_nat: "n < 10 ^ w \<Longrightarrow> 0 < w \<Longrightarrow> length (pad_nat w n) = w"
  using show_nat_length [of n w] by (simp add: pad_nat_def Let_def)

end
