(* ===== verification/PyFloat.thy ===== *)
theory PyFloat
  imports Prelude Complex_Main
begin

text \<open>
  Python floats are IEEE 754 doubles. A finite double is represented by its exact rational
  value; \<open>fl\<close> rounds a rational to the nearest double (ties to even, gradual underflow), and
  each arithmetic operation is the exact operation followed by \<open>fl\<close>. Overflow to infinity
  is outside the model: the quantities computed by the SDK stay far below \<open>2 ^ 1024\<close>.
\<close>

type_synonym pyfloat = rat

definition round_half_even :: "rat \<Rightarrow> int" where
  "round_half_even x =
     (let f = \<lfloor>x\<rfloor>; d = x - of_int f
      in if d < 1 / 2 then f else if 1 / 2 < d then f + 1 else if even f then f else f + 1)"

definition pow2 :: "int \<Rightarrow> rat" where
  "pow2 s = (if 0 \<le> s then 2 ^ nat s else 1 / 2 ^ nat (- s))"

fun bit_len :: "nat \<Rightarrow> nat" where
  "bit_len n = (if n = 0 then 0 else Suc (bit_len (n div 2)))"

declare bit_len.simps [simp del]

text \<open>The exponent of the last place of the double nearest to a positive rational.\<close>

definition ulp_exp :: "rat \<Rightarrow> int" where
  "ulp_exp x =
     (let (n, d) = quotient_of x;
          s = int (bit_len (nat n)) - int (bit_len (nat d)) - 53;
          s' = (if x / pow2 s < 2 ^ 53 then s else s + 1)
      in max s' (- 1074))"

definition fl :: "rat \<Rightarrow> pyfloat" where
  "fl x =
     (if x = 0 then 0
      else if 0 < x then of_int (round_half_even (x / pow2 (ulp_exp x))) * pow2 (ulp_exp x)
      else - (of_int (round_half_even (- x / pow2 (ulp_exp (- x)))) * pow2 (ulp_exp (- x))))"

definition fl_of_int :: "int \<Rightarrow> pyfloat" where
  "fl_of_int i = fl (of_int i)"

definition fl_add :: "pyfloat \<Rightarrow> pyfloat \<Rightarrow> pyfloat" where
  "fl_add x y = fl (x + y)"

definition fl_sub :: "pyfloat \<Rightarrow> pyfloat \<Rightarrow> pyfloat" where
  "fl_sub x y = fl (x - y)"

definition fl_mul :: "pyfloat \<Rightarrow> pyfloat \<Rightarrow> pyfloat" where
  "fl_mul x y = fl (x * y)"

definition fl_div :: "pyfloat \<Rightarrow> pyfloat \<Rightarrow> pyfloat" where
  "fl_div x y = fl (x / y)"

text \<open>\<^verbatim>\<open>round(x, n)\<close>: the double nearest to the exact value rounded to \<open>n\<close> decimals.\<close>

definition fl_round :: "pyfloat \<Rightarrow> nat \<Rightarrow> pyfloat" where
  "fl_round x n = fl (of_int (round_half_even (x * 10 ^ n)) / 10 ^ n)"

section \<open>Sign\<close>

lemma round_half_even_nonneg: "0 \<le> x \<Longrightarrow> 0 \<le> round_half_even x"
  by (simp add: round_half_even_def Let_def add_nonneg_pos less_imp_le)

lemma pow2_pos [simp]: "0 < pow2 s"
  by (simp add: pow2_def)

lemma fl_0 [simp]: "fl 0 = 0"
  by (simp add: fl_def)

lemma fl_nonneg: "0 \<le> x \<Longrightarrow> 0 \<le> fl x"
  using round_half_even_nonneg [of "x / pow2 (ulp_exp x)"]
  by (simp add: fl_def less_imp_le zero_le_mult_iff)

lemma fl_ops_nonneg:
  "0 \<le> i \<Longrightarrow> 0 \<le> fl_of_int i"
  "0 \<le> x \<Longrightarrow> 0 \<le> y \<Longrightarrow> 0 \<le> fl_add x y"
  "0 \<le> x \<Longrightarrow> 0 \<le> y \<Longrightarrow> 0 \<le> fl_mul x y"
  "0 \<le> x \<Longrightarrow> 0 \<le> y \<Longrightarrow> 0 \<le> fl_div x y"
  "0 \<le> x \<Longrightarrow> 0 \<le> fl_round x n"
  by (simp_all add: fl_of_int_def fl_add_def fl_mul_def fl_div_def fl_round_def fl_nonneg
      round_half_even_nonneg)

section \<open>Rounding error\<close>

lemma round_half_even_error: "\<bar>of_int (round_half_even x) - x\<bar> \<le> 1 / 2"
proof -
  have "of_int \<lfloor>x\<rfloor> \<le> x" "x < of_int \<lfloor>x\<rfloor> + 1" by linarith+
  then show ?thesis by (auto simp: round_half_even_def Let_def)
qed

lemma fl_error_ulp:
  assumes "0 < x"
  shows "\<bar>fl x - x\<bar> \<le> pow2 (ulp_exp x) / 2"
proof -
  let ?u = "pow2 (ulp_exp x)"
  have "fl x - x = (of_int (round_half_even (x / ?u)) - x / ?u) * ?u"
    using assms by (simp add: fl_def left_diff_distrib less_imp_neq [OF pow2_pos, symmetric])
  then have "\<bar>fl x - x\<bar> = \<bar>of_int (round_half_even (x / ?u)) - x / ?u\<bar> * ?u"
    by (simp add: abs_mult less_imp_le)
  also have "\<dots> \<le> 1 / 2 * ?u"
    by (intro mult_right_mono round_half_even_error less_imp_le pow2_pos)
  finally show ?thesis by simp
qed

lemma bit_len_bounds: "n < 2 ^ bit_len n" "0 < n \<Longrightarrow> 2 ^ bit_len n \<le> 2 * n"
proof -
  have "n < 2 ^ bit_len n \<and> (0 < n \<longrightarrow> 2 ^ bit_len n \<le> 2 * n)"
  proof (induction n rule: bit_len.induct)
    case (1 n)
    show ?case
    proof (cases "n = 0")
      case False
      have b: "2 ^ bit_len n = 2 * 2 ^ bit_len (n div 2)"
        using False by (subst bit_len.simps) simp
      have "n div 2 < 2 ^ bit_len (n div 2)" using 1 False by blast
      then have "n < 2 ^ bit_len n" unfolding b by linarith
      moreover have "2 ^ bit_len n \<le> 2 * n"
      proof (cases "n = 1")
        case True
        then show ?thesis by (simp add: bit_len.simps)
      next
        case n1: False
        then have "0 < n div 2" using False by linarith
        then have "2 ^ bit_len (n div 2) \<le> 2 * (n div 2)" using 1 False by blast
        then show ?thesis unfolding b by linarith
      qed
      ultimately show ?thesis by blast
    qed (simp add: bit_len.simps)
  qed
  then show "n < 2 ^ bit_len n" "0 < n \<Longrightarrow> 2 ^ bit_len n \<le> 2 * n" by auto
qed

lemma pow2_add: "pow2 (a + b) = pow2 a * pow2 b"
proof -
  have *: "pow2 s = 2 powi s" for s
    by (simp add: pow2_def power_int_def divide_simps)
  show ?thesis by (simp add: * power_int_add)
qed

lemma pow2_nat: "pow2 (int n) = 2 ^ n"
  by (simp add: pow2_def)

lemma pow2_minus: "pow2 (- a) = 1 / pow2 a"
  using pow2_add [of a "- a"] by (simp add: pow2_def field_simps split: if_splits)

text \<open>
  Above the underflow threshold the last place is at most \<open>2 ^ -52\<close> of the value, so
  rounding to a double changes it by at most the factor \<open>2 ^ -53\<close>.
\<close>

lemma ulp_exp_le:
  assumes "0 < x" and "- 1074 < ulp_exp x"
  shows "pow2 (ulp_exp x) * 2 ^ 52 \<le> x"
proof -
  obtain n d where q: "quotient_of x = (n, d)" by fastforce
  have d: "0 < d" using quotient_of_denom_pos [OF q] .
  have xq: "x = of_int n / of_int d" by (rule quotient_of_div [OF q])
  then have n: "0 < n" using assms(1) d by (simp add: zero_less_divide_iff)
  define bn bd where "bn = bit_len (nat n)" and "bd = bit_len (nat d)"
  define s where "s = int bn - int bd - 53"
  have "(of_nat (nat d) :: rat) < 2 ^ bd"
    using bit_len_bounds(1) [of "nat d"] by (metis bd_def of_nat_less_iff of_nat_numeral of_nat_power)
  then have dd: "(of_int d :: rat) < 2 ^ bd" using d by simp
  have "(of_nat (2 ^ bn) :: rat) \<le> of_nat (2 * nat n)"
    using bit_len_bounds(2) [of "nat n"] n unfolding bn_def by (subst of_nat_le_iff) simp
  then have nn: "(2 ^ bn :: rat) \<le> 2 * of_int n" using n by simp
  have "2 ^ bn * of_int d \<le> (2 * of_int n) * (2 ^ bd :: rat)"
    using dd nn n d by (intro mult_mono) auto
  then have "2 ^ bn / 2 ^ bd / 2 \<le> x"
    using d by (simp add: xq divide_simps ac_simps)
  moreover have "pow2 (int bn - int bd - 1) = 2 ^ bn / 2 ^ bd / 2"
    using pow2_add [of "int bn - int bd" "- 1"] pow2_add [of "int bn" "- int bd"]
      pow2_minus [of "int bd"] pow2_minus [of 1] pow2_nat [of 1] by (simp add: pow2_nat)
  ultimately have low: "pow2 (int bn - int bd - 1) \<le> x" by simp
  have p53: "pow2 s * 2 ^ 52 = pow2 (int bn - int bd - 1)"
    using pow2_add [of s 52] by (simp add: s_def pow2_def [of 52])
  have ux: "ulp_exp x = max (if x / pow2 s < 2 ^ 53 then s else s + 1) (- 1074)"
    by (simp add: ulp_exp_def q s_def bn_def bd_def Let_def)
  show ?thesis
  proof (cases "x / pow2 s < 2 ^ 53")
    case True
    with ux assms(2) have "ulp_exp x = s" by auto
    then show ?thesis using low p53 by simp
  next
    case False
    with ux assms(2) have "ulp_exp x = s + 1" by auto
    moreover have "2 ^ 53 * pow2 s \<le> x" using False by (simp add: field_simps)
    ultimately show ?thesis by (simp add: pow2_add) (simp add: pow2_def)
  qed
qed

lemma fl_relative_error:
  assumes "0 < x" and "- 1074 < ulp_exp x"
  shows "\<bar>fl x - x\<bar> \<le> x / 2 ^ 53"
  using fl_error_ulp [OF assms(1)] ulp_exp_le [OF assms] by (simp add: field_simps)

lemma pow2_mono: "a \<le> b \<Longrightarrow> pow2 a \<le> pow2 b"
proof -
  assume "a \<le> b"
  then have "pow2 b = pow2 a * 2 ^ nat (b - a)" using pow2_add [of a "b - a"] by (simp add: pow2_def [of "b - a"])
  then show ?thesis by (simp add: less_imp_le)
qed

lemma ulp_exp_upper:
  assumes "0 < x"
  shows "x < pow2 (ulp_exp x + 54)"
proof -
  obtain n d where q: "quotient_of x = (n, d)" by fastforce
  have d: "0 < d" using quotient_of_denom_pos [OF q] .
  have xq: "x = of_int n / of_int d" by (rule quotient_of_div [OF q])
  then have n: "0 < n" using assms(1) d by (simp add: zero_less_divide_iff)
  define bn bd where "bn = bit_len (nat n)" and "bd = bit_len (nat d)"
  have "(of_nat (nat n) :: rat) < 2 ^ bn"
    using bit_len_bounds(1) [of "nat n"] by (metis bn_def of_nat_less_iff of_nat_numeral of_nat_power)
  then have nn: "(of_int n :: rat) < 2 ^ bn" using n by simp
  have "(of_nat (2 ^ bd) :: rat) \<le> of_nat (2 * nat d)"
    using bit_len_bounds(2) [of "nat d"] d unfolding bd_def by (subst of_nat_le_iff) simp
  then have dd: "(2 ^ bd :: rat) \<le> 2 * of_int d" using d by simp
  have "of_int n * (2 ^ bd :: rat) < 2 ^ bn * (2 * of_int d)"
    using dd nn n by (intro mult_less_le_imp_less) auto
  then have "x < 2 ^ bn / 2 ^ bd * 2"
    using d by (simp add: xq divide_simps ac_simps)
  also have "2 ^ bn / 2 ^ bd * 2 = pow2 (int bn - int bd + 1)"
    using pow2_add [of "int bn - int bd" 1] pow2_add [of "int bn" "- int bd"]
      pow2_minus [of "int bd"] pow2_nat [of 1] by (simp add: pow2_nat)
  also have "\<dots> \<le> pow2 (ulp_exp x + 54)"
    by (rule pow2_mono) (auto simp: ulp_exp_def q bn_def bd_def Let_def)
  finally show ?thesis .
qed

text \<open>
  \<open>near k x y\<close>: \<open>y\<close> is within \<open>k\<close> roundings of the exact value \<open>x\<close>.
\<close>

definition near :: "nat \<Rightarrow> rat \<Rightarrow> rat \<Rightarrow> bool" where
  "near k x y \<longleftrightarrow> x * (1 - 1 / 2 ^ 53) ^ k \<le> y \<and> y \<le> x * (1 + 1 / 2 ^ 53) ^ k"

lemma near_fl:
  assumes "near k x y" "x = 0 \<or> 1 / 2 ^ 29 \<le> x" "k \<le> 4"
  shows "near (Suc k) x (fl y)"
proof (cases "x = 0")
  case True
  with assms(1) have "y = 0" by (simp add: near_def)
  with True show ?thesis by (simp add: near_def)
next
  case False
  let ?u = "1 / 2 ^ 53 :: rat"
  have "(1 / 2 :: rat) \<le> (1 - ?u) ^ 4" by (simp add: power_numeral_even field_simps)
  also have "\<dots> \<le> (1 - ?u) ^ k" by (rule power_decreasing [OF assms(3)]) simp_all
  finally have "x * (1 / 2) \<le> x * (1 - ?u) ^ k" using False assms(2) by (intro mult_left_mono) auto
  then have "x * (1 / 2) \<le> y" using assms(1) unfolding near_def by (meson order_trans)
  moreover have "1 / 2 ^ 30 \<le> x * (1 / 2)" using assms(2) False by simp
  ultimately have y: "1 / 2 ^ 30 \<le> y" by (meson order_trans)
  then have pos: "0 < y" by (rule less_le_trans [rotated]) simp
  have "- 1074 < ulp_exp y"
  proof (rule ccontr)
    assume "\<not> - 1074 < ulp_exp y"
    then have "pow2 (ulp_exp y + 54) \<le> pow2 (- 1020)" by (intro pow2_mono) simp
    also have "\<dots> \<le> pow2 (- 30)" by (rule pow2_mono) simp
    also have "\<dots> = 1 / 2 ^ 30" by (simp add: pow2_def)
    finally show False using ulp_exp_upper [OF pos] y by simp
  qed
  from fl_relative_error [OF pos this] have b: "y * (1 - ?u) \<le> fl y" "fl y \<le> y * (1 + ?u)"
    unfolding abs_le_iff by (simp_all add: algebra_simps)
  have "x * (1 - ?u) ^ Suc k \<le> y * (1 - ?u)"
    using mult_right_mono [of "x * (1 - ?u) ^ k" y "1 - ?u"] assms(1) by (simp add: near_def ac_simps)
  moreover have "y * (1 + ?u) \<le> x * (1 + ?u) ^ Suc k"
    using mult_right_mono [of y "x * (1 + ?u) ^ k" "1 + ?u"] assms(1) by (simp add: near_def ac_simps)
  ultimately show ?thesis using b unfolding near_def by linarith
qed

lemma near_scale: "near k x y \<Longrightarrow> 0 \<le> c \<Longrightarrow> near k (x * c) (y * c)"
  unfolding near_def by (auto dest: mult_right_mono [where c = c] simp: ac_simps)

lemma near_add: "near k x y \<Longrightarrow> near k z w \<Longrightarrow> near k (x + z) (y + w)"
  unfolding near_def by (auto simp: distrib_right)

end
