(* ===== verification/Clock.thy ===== *)
theory Clock
  imports PyText PyFloat
begin

text \<open>
  The injectable clocks (\<^verbatim>\<open>deterministic.py\<close>). In record mode a clock reads the
  operating system, whose readings are a parameter: the \<open>n\<close>-th read of the run returns
  \<open>os_now n\<close>, \<open>os_mono n\<close> or \<open>os_time n\<close>. In replay mode it reads recorded values by
  position.
\<close>

section \<open>State and environment\<close>

text \<open>An aware \<^verbatim>\<open>datetime\<close> in UTC.\<close>

record datetime =
  dt_year :: nat
  dt_month :: nat
  dt_day :: nat
  dt_hour :: nat
  dt_minute :: nat
  dt_second :: nat
  dt_microsecond :: nat

text \<open>
  \<open>fromisoformat\<close> is \<^verbatim>\<open>datetime.fromisoformat\<close> on the strings that are not of the shape the SDK itself
  writes; that shape is parsed by \<open>parse_iso\<close> below.
\<close>

record os_env =
  os_now :: "nat \<Rightarrow> datetime"
  os_mono :: "nat \<Rightarrow> int"
  os_time :: "nat \<Rightarrow> pyfloat"
  fromisoformat :: "pystr \<Rightarrow> pyexc + datetime"

datatype clock =
    SystemClock
  | ReplayClock "(pystr \<times> int) list" nat

record clock_st =
  clk :: clock
  os_reads :: nat

definition os_read :: "(nat \<Rightarrow> 'a) \<Rightarrow> ('z clock_st_scheme, 'a) eff" where
  "os_read f = (\<lambda>s. (Inr (f (os_reads s)), s\<lparr>os_reads := Suc (os_reads s)\<rparr>))"

section \<open>Clocks\<close>

text \<open>\<^verbatim>\<open>n.strftime("%Y-%m-%dT%H:%M:%S.") + f"{n.microsecond // 1000:03d}Z"\<close>; the year is padded to
  four digits, which \<^verbatim>\<open>strftime\<close> of some C libraries does not do for the years before 1000.\<close>

definition iso_format :: "datetime \<Rightarrow> pystr" where
  "iso_format n =
     pad_nat 4 (dt_year n) @ lit ''-'' @ pad_nat 2 (dt_month n) @ lit ''-'' @ pad_nat 2 (dt_day n)
     @ lit ''T'' @ pad_nat 2 (dt_hour n) @ lit '':'' @ pad_nat 2 (dt_minute n) @ lit '':''
     @ pad_nat 2 (dt_second n) @ lit ''.'' @ pad_nat 3 (dt_microsecond n div 1000) @ lit ''Z''"

definition index_error :: pyexc where
  "index_error = PyExc IndexError (lit ''list index out of range'')"

text \<open>\<^verbatim>\<open>self._pairs[self._idx]\<close>; the index is never negative.\<close>

definition replay_pair :: "(pystr \<times> int) list \<Rightarrow> nat \<Rightarrow> pyexc + (pystr \<times> int)" where
  "replay_pair pairs i = (if i < length pairs then Inr (pairs ! i) else Inl index_error)"

definition replay_clock :: "(pystr \<times> int) list \<Rightarrow> clock" where
  "replay_clock pairs = ReplayClock pairs 0"

definition now_iso :: "'e os_env_scheme \<Rightarrow> ('z clock_st_scheme, pystr) eff" where
  "now_iso env = (\<lambda>s. case clk s of
       SystemClock \<Rightarrow> bindE (os_read (os_now env)) (\<lambda>n. ret (iso_format n)) s
     | ReplayClock pairs i \<Rightarrow> (map_sum id fst (replay_pair pairs i), s))"

definition monotonic_ns :: "'e os_env_scheme \<Rightarrow> ('z clock_st_scheme, int) eff" where
  "monotonic_ns env = (\<lambda>s. case clk s of
       SystemClock \<Rightarrow> os_read (os_mono env) s
     | ReplayClock pairs i \<Rightarrow> (map_sum id snd (replay_pair pairs i), s))"

text \<open>\<^verbatim>\<open>iso.replace("Z", "+00:00")\<close>\<close>

definition z_to_offset :: "pystr \<Rightarrow> pystr" where
  "z_to_offset ts = concat (map (\<lambda>c. if c = 90 then lit ''+00:00'' else [c]) ts)"

text \<open>
  \<^verbatim>\<open>datetime.fromisoformat\<close> on \<^verbatim>\<open>YYYY-MM-DDTHH:MM:SS.mmm+00:00\<close>: three digits of fraction are
  milliseconds, and each number has to be in its range.
\<close>

definition days_in_month :: "nat \<Rightarrow> nat \<Rightarrow> nat" where
  "days_in_month y m =
     (if m \<in> {4, 6, 9, 11} then 30
      else if m = 2 then (if 4 dvd y \<and> (\<not> 100 dvd y \<or> 400 dvd y) then 29 else 28)
      else 31)"

definition valid_datetime :: "datetime \<Rightarrow> bool" where
  "valid_datetime n \<longleftrightarrow> 1 \<le> dt_year n \<and> dt_year n \<le> 9999 \<and> 1 \<le> dt_month n \<and> dt_month n \<le> 12
     \<and> 1 \<le> dt_day n \<and> dt_day n \<le> days_in_month (dt_year n) (dt_month n)
     \<and> dt_hour n < 24 \<and> dt_minute n < 60 \<and> dt_second n < 60 \<and> dt_microsecond n < 1000000"

definition digits_at :: "pystr \<Rightarrow> nat \<Rightarrow> nat \<Rightarrow> nat option" where
  "digits_at s i w =
     (let d = take w (drop i s)
      in if length d = w \<and> list_all (\<lambda>c. 48 \<le> c \<and> c \<le> 57) d then Some (read_nat d) else None)"

definition parse_iso :: "pystr \<Rightarrow> datetime option" where
  "parse_iso s =
     (if length s = 29 \<and> s ! 4 = 45 \<and> s ! 7 = 45 \<and> s ! 10 = 84 \<and> s ! 13 = 58 \<and> s ! 16 = 58 \<and> s ! 19 = 46
        \<and> drop 23 s = lit ''+00:00''
      then (case (digits_at s 0 4, digits_at s 5 2, digits_at s 8 2, digits_at s 11 2, digits_at s 14 2,
                  digits_at s 17 2, digits_at s 20 3) of
          (Some y, Some mo, Some d, Some h, Some mi, Some sec, Some ms) \<Rightarrow>
            (let n = \<lparr>dt_year = y, dt_month = mo, dt_day = d, dt_hour = h, dt_minute = mi, dt_second = sec,
                      dt_microsecond = ms * 1000\<rparr>
             in if valid_datetime n then Some n else None)
        | _ \<Rightarrow> None)
      else None)"

definition from_iso :: "'e os_env_scheme \<Rightarrow> pystr \<Rightarrow> pyexc + datetime" where
  "from_iso env s = (case parse_iso s of Some n \<Rightarrow> Inr n | None \<Rightarrow> fromisoformat env s)"

definition now :: "'e os_env_scheme \<Rightarrow> ('z clock_st_scheme, datetime) eff" where
  "now env = (\<lambda>s. case clk s of
       SystemClock \<Rightarrow> os_read (os_now env) s
     | ReplayClock pairs i \<Rightarrow>
         (case replay_pair pairs i of
            Inl e \<Rightarrow> (Inl e, s)
          | Inr (ts, _) \<Rightarrow> (from_iso env (z_to_offset ts), s)))"

text \<open>
  \<^verbatim>\<open>ReplayClock._next\<close>, which \<^verbatim>\<open>tick\<close> calls. A clock without a \<^verbatim>\<open>tick\<close> attribute is left
  alone by the caller, so \<open>tick\<close> does nothing on a \<open>SystemClock\<close>.
\<close>

definition replay_next ::
  "(pystr \<times> int) list \<Rightarrow> nat \<Rightarrow> pyexc + ((pystr \<times> int) \<times> nat)" where
  "replay_next pairs i =
     (if length pairs \<le> i
      then Inl (PyExc RuntimeError (lit ''ReplayClock exhausted: more events than recorded''))
      else Inr (pairs ! i, Suc i))"

definition tick :: "('z clock_st_scheme, unit) eff" where
  "tick = (\<lambda>s. case clk s of
       SystemClock \<Rightarrow> (Inr (), s)
     | ReplayClock pairs i \<Rightarrow>
         (case replay_next pairs i of
            Inl e \<Rightarrow> (Inl e, s)
          | Inr (_, i') \<Rightarrow> (Inr (), s\<lparr>clk := ReplayClock pairs i'\<rparr>)))"

section \<open>Frame of the clock\<close>

text \<open>A clock operation changes the clock's own two fields and nothing of the state around it.\<close>

lemma os_read_frame: "os_read f s = (y, t) \<Longrightarrow> \<exists>n \<ge> os_reads s. t = s\<lparr>os_reads := n\<rparr>"
  by (auto simp: os_read_def intro: exI [of _ "Suc (os_reads s)"])

lemma no_read_frame: "\<exists>n \<ge> os_reads s. s = s\<lparr>os_reads := n\<rparr>"
  by (intro exI [of _ "os_reads s"]) simp

lemma now_iso_frame: "now_iso env s = (y, t) \<Longrightarrow> \<exists>n \<ge> os_reads s. t = s\<lparr>os_reads := n\<rparr>"
  using no_read_frame [of s]
  by (cases "clk s") (auto simp: now_iso_def os_read_def bindE_def ret_def intro: exI [of _ "Suc (os_reads s)"])

lemma monotonic_ns_frame: "monotonic_ns env s = (y, t) \<Longrightarrow> \<exists>n \<ge> os_reads s. t = s\<lparr>os_reads := n\<rparr>"
  using no_read_frame [of s]
  by (cases "clk s") (auto simp: monotonic_ns_def os_read_def intro: exI [of _ "Suc (os_reads s)"])

lemma tick_frame: "tick s = (y, t) \<Longrightarrow> \<exists>c. t = s\<lparr>clk := c\<rparr>"
  by (auto simp: tick_def split: clock.splits sum.splits)
    (metis clock_st.surjective clock_st.update_convs(1))+

text \<open>An invariant that survives a later OS read counter survives every clock reading.\<close>

lemma preserves_clock_reads:
  assumes "\<And>s n. P s \<Longrightarrow> os_reads s \<le> n \<Longrightarrow> P (s\<lparr>os_reads := n\<rparr>)"
  shows "preserves P (now_iso env)" "preserves P (monotonic_ns env)" "preserves P (os_read f)"
  using assms by (auto intro!: preservesI dest!: now_iso_frame monotonic_ns_frame os_read_frame)

section \<open>Replay\<close>

lemma replay_read:
  assumes "clk s = ReplayClock pairs i" and "i < length pairs"
  shows "now_iso env s = (Inr (fst (pairs ! i)), s)"
    and "monotonic_ns env s = (Inr (snd (pairs ! i)), s)"
    and "tick s = (Inr (), s\<lparr>clk := ReplayClock pairs (Suc i)\<rparr>)"
  using assms by (simp_all add: now_iso_def monotonic_ns_def tick_def replay_pair_def replay_next_def)

lemma replay_exhausted:
  assumes "clk s = ReplayClock pairs i" and "length pairs \<le> i"
  shows "now_iso env s = (Inl index_error, s)"
    and "monotonic_ns env s = (Inl index_error, s)"
    and "\<exists>m. tick s = (Inl (PyExc RuntimeError m), s)"
  using assms by (simp_all add: now_iso_def monotonic_ns_def tick_def replay_pair_def replay_next_def)

section \<open>Time stamps\<close>

definition is_digits :: "pystr \<Rightarrow> bool" where
  "is_digits d \<longleftrightarrow> list_all (\<lambda>c. 48 \<le> c \<and> c \<le> 57) d"

lemma pad_nat_digits: "is_digits (pad_nat w n)"
  using show_nat_digits [of _ n] by (auto simp: is_digits_def pad_nat_def Let_def list_all_iff)

lemma foldl_zeros: "foldl (\<lambda>n c. n * 10 + (c - 48)) 0 (replicate k (48 :: nat)) = (0 :: nat)"
  by (induction k) simp_all

lemma read_pad_nat: "read_nat (pad_nat w n) = n"
  using read_show_nat [of n] by (simp add: read_nat_def pad_nat_def Let_def foldl_zeros)

lemma z_to_offset_append: "z_to_offset (s @ t) = z_to_offset s @ z_to_offset t"
  by (simp add: z_to_offset_def)

lemma z_to_offset_id: "90 \<notin> set s \<Longrightarrow> z_to_offset s = s"
  by (induction s) (auto simp: z_to_offset_def)

text \<open>The text a system clock writes, in its seven numbers.\<close>

lemma iso_fields:
  assumes "valid_datetime n"
  obtains y mo d h mi sec ms where
    "iso_format n = y @ [45] @ mo @ [45] @ d @ [84] @ h @ [58] @ mi @ [58] @ sec @ [46] @ ms @ [90]"
    "length y = 4" "length mo = 2" "length d = 2" "length h = 2" "length mi = 2" "length sec = 2" "length ms = 3"
    "is_digits y" "is_digits mo" "is_digits d" "is_digits h" "is_digits mi" "is_digits sec" "is_digits ms"
    "read_nat y = dt_year n" "read_nat mo = dt_month n" "read_nat d = dt_day n" "read_nat h = dt_hour n"
    "read_nat mi = dt_minute n" "read_nat sec = dt_second n" "read_nat ms = dt_microsecond n div 1000"
proof -
  have "dt_day n \<le> 31" using assms by (auto simp: valid_datetime_def days_in_month_def split: if_splits)
  then have "length (pad_nat 4 (dt_year n)) = 4" "length (pad_nat 2 (dt_month n)) = 2"
    "length (pad_nat 2 (dt_day n)) = 2" "length (pad_nat 2 (dt_hour n)) = 2"
    "length (pad_nat 2 (dt_minute n)) = 2" "length (pad_nat 2 (dt_second n)) = 2"
    "length (pad_nat 3 (dt_microsecond n div 1000)) = 3"
    using assms by (auto simp: valid_datetime_def intro!: length_pad_nat)
  then show thesis
    by (intro that [of "pad_nat 4 (dt_year n)" "pad_nat 2 (dt_month n)" "pad_nat 2 (dt_day n)"
          "pad_nat 2 (dt_hour n)" "pad_nat 2 (dt_minute n)" "pad_nat 2 (dt_second n)"
          "pad_nat 3 (dt_microsecond n div 1000)"])
      (simp_all add: iso_format_def pad_nat_digits read_pad_nat)
qed

definition to_millis :: "datetime \<Rightarrow> datetime" where
  "to_millis n = n\<lparr>dt_microsecond := dt_microsecond n div 1000 * 1000\<rparr>"

lemma parse_iso_format:
  assumes v: "valid_datetime n"
  shows "parse_iso (z_to_offset (iso_format n)) = Some (to_millis n)"
  using assms
proof (rule iso_fields)
  fix y mo d h mi sec ms
  assume f: "iso_format n = y @ [45] @ mo @ [45] @ d @ [84] @ h @ [58] @ mi @ [58] @ sec @ [46] @ ms @ [90]"
    and l: "length y = 4" "length mo = 2" "length d = 2" "length h = 2" "length mi = 2" "length sec = 2"
      "length ms = 3"
    and g: "is_digits y" "is_digits mo" "is_digits d" "is_digits h" "is_digits mi" "is_digits sec" "is_digits ms"
    and r: "read_nat y = dt_year n" "read_nat mo = dt_month n" "read_nat d = dt_day n" "read_nat h = dt_hour n"
      "read_nat mi = dt_minute n" "read_nat sec = dt_second n" "read_nat ms = dt_microsecond n div 1000"
  have z: "z_to_offset d = d" if "is_digits d" for d
    using that by (intro z_to_offset_id) (auto simp: is_digits_def list_all_iff)
  let ?s = "y @ [45] @ mo @ [45] @ d @ [84] @ h @ [58] @ mi @ [58] @ sec @ [46] @ ms @ lit ''+00:00''"
  have s: "z_to_offset (iso_format n) = ?s"
    using z [OF g(1)] z [OF g(2)] z [OF g(3)] z [OF g(4)] z [OF g(5)] z [OF g(6)] z [OF g(7)]
    unfolding f z_to_offset_append by (simp add: z_to_offset_def)
  have "digits_at ?s 0 4 = Some (dt_year n)" "digits_at ?s 5 2 = Some (dt_month n)"
    "digits_at ?s 8 2 = Some (dt_day n)" "digits_at ?s 11 2 = Some (dt_hour n)"
    "digits_at ?s 14 2 = Some (dt_minute n)" "digits_at ?s 17 2 = Some (dt_second n)"
    "digits_at ?s 20 3 = Some (dt_microsecond n div 1000)"
    using l g r by (simp_all add: digits_at_def is_digits_def)
  moreover have m: "\<lparr>dt_year = dt_year n, dt_month = dt_month n, dt_day = dt_day n, dt_hour = dt_hour n,
      dt_minute = dt_minute n, dt_second = dt_second n, dt_microsecond = dt_microsecond n div 1000 * 1000\<rparr> = to_millis n"
    by (simp add: to_millis_def)
  moreover have "valid_datetime (to_millis n)"
    using v by (auto simp: valid_datetime_def to_millis_def)
  ultimately show ?thesis
    unfolding s using l by (simp add: parse_iso_def nth_append m)
qed

text \<open>
  C39: a time stamp round-trips through the trace. A stamp that \<^verbatim>\<open>SystemClock.now_iso\<close> wrote has the 24
  characters of INTERFACES.md with a final \<^verbatim>\<open>Z\<close>, and a \<^verbatim>\<open>ReplayClock\<close> positioned at it reads back, as
  \<^verbatim>\<open>now()\<close>, the recorded time to the millisecond.
\<close>

theorem replayed_now:
  assumes "valid_datetime n" and "clk s = ReplayClock pairs i" and "i < length pairs"
    and "fst (pairs ! i) = iso_format n"
  shows "length (iso_format n) = 24 \<and> last (iso_format n) = 90
    \<and> now env s = (Inr (to_millis n), s)"
proof -
  have "length (iso_format n) = 24 \<and> last (iso_format n) = 90"
    using assms(1) by (rule iso_fields) simp
  moreover obtain m where "pairs ! i = (iso_format n, m)" using assms(4) by (cases "pairs ! i") simp
  ultimately show ?thesis
    using assms by (simp add: now_def replay_pair_def from_iso_def parse_iso_format)
qed

theorem replayed_now_witness:
  "let n = \<lparr>dt_year = 2024, dt_month = 2, dt_day = 29, dt_hour = 10, dt_minute = 30,
     dt_second = 0, dt_microsecond = 123456\<rparr>;
     s = \<lparr>clk = replay_clock [(iso_format n, 7)], os_reads = 0\<rparr>;
     env = \<lparr>os_now = (\<lambda>_. n), os_mono = int, os_time = (\<lambda>_. 0), fromisoformat = (\<lambda>_. Inl index_error)\<rparr>
   in now env s = (Inr (n\<lparr>dt_microsecond := 123000\<rparr>), s)"
proof -
  define n where "n = \<lparr>dt_year = 2024, dt_month = 2, dt_day = 29, dt_hour = 10, dt_minute = 30,
     dt_second = 0, dt_microsecond = 123456\<rparr>"
  define s where "s = \<lparr>clk = replay_clock [(iso_format n, 7)], os_reads = 0\<rparr>"
  have v: "valid_datetime n" by (simp add: n_def valid_datetime_def days_in_month_def)
  have "now env s = (Inr (to_millis n), s)" for env :: os_env
    using replayed_now [OF v, of s "[(iso_format n, 7)]" 0 env] by (simp add: s_def replay_clock_def)
  then show ?thesis unfolding Let_def n_def [symmetric] s_def [symmetric] by (simp add: to_millis_def n_def)
qed

end
