(* ===== verification/Utf8.thy ===== *)
theory Utf8
  imports PyText
begin

text \<open>
  The UTF-8 codec of the Python standard library: strict encoding (lone surrogates raise),
  strict decoding with the error positions and reasons CPython reports, and decoding with
  \<^verbatim>\<open>errors="replace"\<close>, in which each maximal ill-formed part becomes U+FFFD.
\<close>

section \<open>Encoding\<close>

definition surrogate :: "nat \<Rightarrow> bool" where
  "surrogate c \<longleftrightarrow> 55296 \<le> c \<and> c \<le> 57343"

definition scalar :: "nat \<Rightarrow> bool" where
  "scalar c \<longleftrightarrow> c \<le> 1114111 \<and> \<not> surrogate c"

definition enc_char :: "nat \<Rightarrow> pybytes" where
  "enc_char c =
     (if c < 128 then [c]
      else if c < 2048 then [192 + c div 64, 128 + c mod 64]
      else if c < 65536 then [224 + c div 4096, 128 + c div 64 mod 64, 128 + c mod 64]
      else [240 + c div 262144, 128 + c div 4096 mod 64, 128 + c div 64 mod 64, 128 + c mod 64])"

definition enc_all :: "pystr \<Rightarrow> pybytes" where
  "enc_all s = concat (map enc_char s)"

fun hex_digit :: "nat \<Rightarrow> nat" where
  "hex_digit d = (if d < 10 then 48 + d else 87 + d)"

fun show_hex :: "nat \<Rightarrow> nat \<Rightarrow> pystr" where
  "show_hex 0 n = []"
| "show_hex (Suc w) n = show_hex w (n div 16) @ [hex_digit (n mod 16)]"

text \<open>The message of a \<^verbatim>\<open>UnicodeEncodeError\<close> names the first run of surrogates from the
  first character that cannot be encoded.\<close>

definition encode_error :: "(nat \<Rightarrow> bool) \<Rightarrow> pystr \<Rightarrow> pyexc" where
  "encode_error encodable s =
     (let p = length (takeWhile encodable s);
          k = length (takeWhile (\<lambda>c. \<not> scalar c) (drop p s))
      in PyExc UnicodeEncodeError
        (if k = 1
         then [39] @ lit ''utf-8'' @ [39] @ lit '' codec can't encode character ''
              @ [39, 92, 117] @ show_hex 4 (s ! p) @ [39]
              @ lit '' in position '' @ show_nat p @ lit '': surrogates not allowed''
         else [39] @ lit ''utf-8'' @ [39] @ lit '' codec can't encode characters in position ''
              @ show_nat p @ [45] @ show_nat (p + k - 1) @ lit '': surrogates not allowed''))"

text \<open>\<^verbatim>\<open>s.encode("utf-8")\<close>\<close>

definition utf8_encode :: "pystr \<Rightarrow> pyexc + pybytes" where
  "utf8_encode s = (if list_all scalar s then Inr (enc_all s) else Inl (encode_error scalar s))"

section \<open>Decoding\<close>

datatype dec_reason = InvalidStartByte | InvalidContinuation | UnexpectedEnd

fun reason_text :: "dec_reason \<Rightarrow> pystr" where
  "reason_text InvalidStartByte = lit ''invalid start byte''"
| "reason_text InvalidContinuation = lit ''invalid continuation byte''"
| "reason_text UnexpectedEnd = lit ''unexpected end of data''"

text \<open>
  One decoding step at a first byte \<open>b\<close> followed by \<open>bs\<close>: a code point or an ill-formed
  part, each with the number of bytes of \<open>bs\<close> it takes beside \<open>b\<close>.
\<close>

datatype dec_step = Good nat nat | Bad dec_reason nat

definition cont :: "nat \<Rightarrow> bool" where
  "cont b \<longleftrightarrow> 128 \<le> b \<and> b < 192"

definition second3 :: "nat \<Rightarrow> nat \<Rightarrow> bool" where
  "second3 b b2 \<longleftrightarrow> cont b2 \<and> (b = 224 \<longrightarrow> 160 \<le> b2) \<and> (b = 237 \<longrightarrow> b2 < 160)"

definition second4 :: "nat \<Rightarrow> nat \<Rightarrow> bool" where
  "second4 b b2 \<longleftrightarrow> cont b2 \<and> (b = 240 \<longrightarrow> 144 \<le> b2) \<and> (b = 244 \<longrightarrow> b2 < 144)"

definition dec2 :: "nat \<Rightarrow> pybytes \<Rightarrow> dec_step" where
  "dec2 b bs = (case bs of
       [] \<Rightarrow> Bad UnexpectedEnd 0
     | b2 # _ \<Rightarrow> if cont b2 then Good ((b - 192) * 64 + (b2 - 128)) 1
                else Bad InvalidContinuation 0)"

definition dec3 :: "nat \<Rightarrow> pybytes \<Rightarrow> dec_step" where
  "dec3 b bs = (case bs of
       [] \<Rightarrow> Bad UnexpectedEnd 0
     | b2 # bs2 \<Rightarrow>
         if \<not> second3 b b2 then Bad InvalidContinuation 0
         else (case bs2 of
             [] \<Rightarrow> Bad UnexpectedEnd 1
           | b3 # _ \<Rightarrow>
               if \<not> cont b3 then Bad InvalidContinuation 1
               else Good ((b - 224) * 4096 + (b2 - 128) * 64 + (b3 - 128)) 2))"

definition dec4 :: "nat \<Rightarrow> pybytes \<Rightarrow> dec_step" where
  "dec4 b bs = (case bs of
       [] \<Rightarrow> Bad UnexpectedEnd 0
     | b2 # bs2 \<Rightarrow>
         if \<not> second4 b b2 then Bad InvalidContinuation 0
         else (case bs2 of
             [] \<Rightarrow> Bad UnexpectedEnd 1
           | b3 # bs3 \<Rightarrow>
               if \<not> cont b3 then Bad InvalidContinuation 1
               else (case bs3 of
                   [] \<Rightarrow> Bad UnexpectedEnd 2
                 | b4 # _ \<Rightarrow>
                     if \<not> cont b4 then Bad InvalidContinuation 2
                     else Good ((b - 240) * 262144 + (b2 - 128) * 4096 + (b3 - 128) * 64
                                + (b4 - 128)) 3)))"

definition dec_first :: "nat \<Rightarrow> pybytes \<Rightarrow> dec_step" where
  "dec_first b bs =
     (if b < 128 then Good b 0
      else if b < 194 then Bad InvalidStartByte 0
      else if b < 224 then dec2 b bs
      else if b < 240 then dec3 b bs
      else if b < 245 then dec4 b bs
      else Bad InvalidStartByte 0)"

text \<open>\<^verbatim>\<open>data.decode("utf-8", errors="replace")\<close>\<close>

fun utf8_decode_replace :: "pybytes \<Rightarrow> pystr" where
  "utf8_decode_replace [] = []"
| "utf8_decode_replace (b # bs) =
     (case dec_first b bs of
        Good c k \<Rightarrow> c # utf8_decode_replace (drop k bs)
      | Bad r k \<Rightarrow> 65533 # utf8_decode_replace (drop k bs))"

definition decode_error :: "nat \<Rightarrow> nat \<Rightarrow> dec_reason \<Rightarrow> nat \<Rightarrow> pyexc" where
  "decode_error pos b r k =
     PyExc UnicodeDecodeError
       ([39] @ lit ''utf-8'' @ [39] @
        (if k = 0
         then lit '' codec can't decode byte 0x'' @ show_hex 2 b @ lit '' in position '' @ show_nat pos
         else lit '' codec can't decode bytes in position '' @ show_nat pos @ [45] @ show_nat (pos + k))
        @ lit '': '' @ reason_text r)"

fun utf8_decode_from :: "nat \<Rightarrow> pybytes \<Rightarrow> pyexc + pystr" where
  "utf8_decode_from pos [] = Inr []"
| "utf8_decode_from pos (b # bs) =
     (case dec_first b bs of
        Bad r k \<Rightarrow> Inl (decode_error pos b r k)
      | Good c k \<Rightarrow>
          (case utf8_decode_from (pos + k + 1) (drop k bs) of
             Inl e \<Rightarrow> Inl e
           | Inr s \<Rightarrow> Inr (c # s)))"

text \<open>\<^verbatim>\<open>data.decode("utf-8")\<close>\<close>

definition utf8_decode :: "pybytes \<Rightarrow> pyexc + pystr" where
  "utf8_decode bs = utf8_decode_from 0 bs"

section \<open>Round trip\<close>

lemma enc_all_simps [simp]:
  "enc_all [] = []"
  "enc_all (c # s) = enc_char c @ enc_all s"
  "enc_all (s @ t) = enc_all s @ enc_all t"
  by (simp_all add: enc_all_def)

lemma enc_char_not_Nil [simp]: "enc_char c \<noteq> []"
  by (simp add: enc_char_def)

lemma enc_char_length: "0 < length (enc_char c)" "length (enc_char c) \<le> 4"
  by (simp_all add: enc_char_def)

lemma recombine3: "c div 4096 * 4096 + c div 64 mod 64 * 64 + c mod 64 = (c::nat)"
proof -
  define x where "x = c div 64"
  have "c div 4096 = x div 64" using div_mult2_eq [of c 64 64] by (simp add: x_def)
  moreover have "x div 64 * 64 + x mod 64 = x" "x * 64 + c mod 64 = c" by (simp_all add: x_def)
  ultimately show ?thesis unfolding x_def [symmetric] by linarith
qed

lemma recombine4:
  "c div 262144 * 262144 + c div 4096 mod 64 * 4096 + c div 64 mod 64 * 64 + c mod 64 = (c::nat)"
proof -
  define x where "x = c div 64"
  have e: "c div 262144 = x div 4096" "c div 4096 = x div 64"
    using div_mult2_eq [of c 64 4096] div_mult2_eq [of c 64 64] by (simp_all add: x_def)
  have "x * 64 + c mod 64 = c" by (simp add: x_def)
  with recombine3 [of x] show ?thesis unfolding e x_def [symmetric] by linarith
qed

lemma mod_below: "64 * m \<le> q \<Longrightarrow> q < 64 * m + d \<Longrightarrow> q mod 64 < (d::nat)"
  by (drule le_Suc_ex) (auto intro: le_less_trans [OF mod_less_eq_dividend])

lemma cont_mod [simp]: "cont (128 + c mod 64)"
  by (simp add: cont_def)

lemma dec_enc2:
  assumes "128 \<le> c" "c < 2048"
  shows "dec_first (192 + c div 64) ((128 + c mod 64) # rest) = Good c 1"
    and "dec_first (192 + c div 64) [] = Bad UnexpectedEnd 0"
proof -
  have "194 \<le> 192 + c div 64" "192 + c div 64 < 224" using assms by auto
  then show "dec_first (192 + c div 64) ((128 + c mod 64) # rest) = Good c 1"
    and "dec_first (192 + c div 64) [] = Bad UnexpectedEnd 0"
    by (simp_all add: dec_first_def dec2_def)
qed

lemma dec_enc3:
  assumes "2048 \<le> c" "c < 65536" "\<not> surrogate c"
  defines "b \<equiv> 224 + c div 4096" and "b2 \<equiv> 128 + c div 64 mod 64" and "b3 \<equiv> 128 + c mod 64"
  shows "dec_first b (b2 # b3 # rest) = Good c 2"
    and "dec_first b [] = Bad UnexpectedEnd 0"
    and "dec_first b [b2] = Bad UnexpectedEnd 1"
proof -
  have b: "224 \<le> b" "b < 240" using assms(2) by (simp_all add: b_def)
  have "b = 224 \<Longrightarrow> 160 \<le> b2"
  proof -
    assume "b = 224"
    then have "c < 4096" by (simp add: b_def)
    then have "c div 64 mod 64 = c div 64" by (intro mod_less) auto
    moreover have "32 \<le> c div 64" using assms(1) by auto
    ultimately show ?thesis by (simp add: b2_def)
  qed
  moreover have "b = 237 \<Longrightarrow> b2 < 160"
  proof -
    assume "b = 237"
    then have "c div 4096 = 13" by (simp add: b_def)
    then have "53248 \<le> c" "c < 55296" using assms(3) by (auto simp: surrogate_def)
    then have "64 * 13 \<le> c div 64" "c div 64 < 64 * 13 + 32" by auto
    then have "c div 64 mod 64 < 32" by (rule mod_below)
    then show ?thesis by (simp add: b2_def)
  qed
  ultimately have s: "second3 b b2" by (simp add: second3_def b2_def)
  have "b - 224 = c div 4096" by (simp add: b_def)
  then show "dec_first b (b2 # b3 # rest) = Good c 2"
    using b s recombine3 [of c] by (simp add: dec_first_def dec3_def b2_def b3_def)
  show "dec_first b [] = Bad UnexpectedEnd 0" "dec_first b [b2] = Bad UnexpectedEnd 1"
    using b s by (simp_all add: dec_first_def dec3_def)
qed

lemma dec_enc4:
  assumes "65536 \<le> c" "c \<le> 1114111"
  defines "b \<equiv> 240 + c div 262144" and "b2 \<equiv> 128 + c div 4096 mod 64"
    and "b3 \<equiv> 128 + c div 64 mod 64" and "b4 \<equiv> 128 + c mod 64"
  shows "dec_first b (b2 # b3 # b4 # rest) = Good c 3"
    and "dec_first b [] = Bad UnexpectedEnd 0"
    and "dec_first b [b2] = Bad UnexpectedEnd 1"
    and "dec_first b [b2, b3] = Bad UnexpectedEnd 2"
proof -
  have b: "240 \<le> b" "b < 245" using assms(2) by (simp_all add: b_def)
  have "b = 240 \<Longrightarrow> 144 \<le> b2"
  proof -
    assume "b = 240"
    then have "c < 262144" by (simp add: b_def)
    then have "c div 4096 mod 64 = c div 4096" by (intro mod_less) auto
    moreover have "16 \<le> c div 4096" using assms(1) by auto
    ultimately show ?thesis by (simp add: b2_def)
  qed
  moreover have "b = 244 \<Longrightarrow> b2 < 144"
  proof -
    assume "b = 244"
    then have "c div 262144 = 4" by (simp add: b_def)
    then have "1048576 \<le> c" by simp
    then have "64 * 4 \<le> c div 4096" "c div 4096 < 64 * 4 + 16" using assms(2) by auto
    then have "c div 4096 mod 64 < 16" by (rule mod_below)
    then show ?thesis by (simp add: b2_def)
  qed
  ultimately have s: "second4 b b2" by (simp add: second4_def b2_def)
  have "b - 240 = c div 262144" by (simp add: b_def)
  then show "dec_first b (b2 # b3 # b4 # rest) = Good c 3"
    using b s recombine4 [of c] by (simp add: dec_first_def dec4_def b2_def b3_def b4_def)
  show "dec_first b [] = Bad UnexpectedEnd 0" "dec_first b [b2] = Bad UnexpectedEnd 1"
    "dec_first b [b2, b3] = Bad UnexpectedEnd 2"
    using b s by (simp_all add: dec_first_def dec4_def b3_def)
qed

text \<open>Every encoded scalar is a first byte and a tail that decode to it.\<close>

lemma dec_enc_char:
  assumes "scalar c"
  obtains b bs where "enc_char c = b # bs" "\<And>rest. dec_first b (bs @ rest) = Good c (length bs)"
    "\<And>k. k < length bs \<Longrightarrow> dec_first b (take k bs) = Bad UnexpectedEnd k"
proof -
  consider "c < 128" | "128 \<le> c" "c < 2048" | "2048 \<le> c" "c < 65536" "\<not> surrogate c"
    | "65536 \<le> c" "c \<le> 1114111"
    using assms by (force simp: scalar_def)
  then show thesis
  proof cases
    case 1
    then show thesis by (intro that [of c "[]"]) (simp_all add: enc_char_def dec_first_def)
  next
    case 2
    show thesis
      using 2 dec_enc2 [OF 2]
      by (intro that [of "192 + c div 64" "[128 + c mod 64]"]) (simp_all add: enc_char_def)
  next
    case 3
    show thesis
      using 3 dec_enc3 [OF 3]
      by (intro that [of "224 + c div 4096" "[128 + c div 64 mod 64, 128 + c mod 64]"])
        (auto simp: enc_char_def less_Suc_eq numeral_2_eq_2)
  next
    case 4
    show thesis
      using 4 dec_enc4 [OF 4]
      by (intro that [of "240 + c div 262144"
            "[128 + c div 4096 mod 64, 128 + c div 64 mod 64, 128 + c mod 64]"])
        (auto simp: enc_char_def less_Suc_eq numeral_2_eq_2 numeral_3_eq_3)
  qed
qed

lemma utf8_decode_from_enc_all:
  "list_all scalar s \<Longrightarrow> utf8_decode_from pos (enc_all s) = Inr s"
proof (induction s arbitrary: pos)
  case (Cons c s)
  then have "scalar c" by simp
  then obtain b bs where e: "enc_char c = b # bs"
    "\<And>rest. dec_first b (bs @ rest) = Good c (length bs)"
    by (rule dec_enc_char) blast
  then show ?case using Cons by simp
qed simp

lemma utf8_decode_encode: "utf8_encode s = Inr bs \<Longrightarrow> utf8_decode bs = Inr s"
  by (auto simp: utf8_encode_def utf8_decode_def utf8_decode_from_enc_all split: if_splits)

lemma utf8_decode_replace_enc_all:
  "list_all scalar s \<Longrightarrow> utf8_decode_replace (enc_all s @ rest) = s @ utf8_decode_replace rest"
proof (induction s)
  case (Cons c s)
  then have "scalar c" by simp
  then obtain b bs where e: "enc_char c = b # bs"
    "\<And>rest. dec_first b (bs @ rest) = Good c (length bs)"
    by (rule dec_enc_char) blast
  then show ?case using Cons by simp
qed simp

text \<open>
  Clipping encoded text at a byte count keeps a prefix of the characters; a character cut
  in the middle becomes one replacement character.
\<close>

lemma utf8_clip:
  assumes "list_all scalar s" and "k < length (enc_all s)"
  shows "\<exists>j < length s. length (enc_all (take j s)) \<le> k \<and>
    k < length (enc_all (take (Suc j) s)) \<and>
    utf8_decode_replace (take k (enc_all s)) =
      take j s @ (if k = length (enc_all (take j s)) then [] else [65533])"
  using assms
proof (induction s arbitrary: k)
  case (Cons c s)
  then have "scalar c" by simp
  then obtain b bs where e: "enc_char c = b # bs"
    and full: "\<And>rest. dec_first b (bs @ rest) = Good c (length bs)"
    and part: "\<And>k. k < length bs \<Longrightarrow> dec_first b (take k bs) = Bad UnexpectedEnd k"
    by (rule dec_enc_char) blast
  show ?case
  proof (cases "k < length (enc_char c)")
    case True
    have "utf8_decode_replace (take k (enc_char c)) = (if k = 0 then [] else [65533])"
    proof (cases k)
      case (Suc m)
      then have "m < length bs" using True e by simp
      then show ?thesis using part [of m] e Suc by simp
    qed simp
    then show ?thesis using True by (intro exI [of _ 0]) auto
  next
    case False
    define m where "m = k - length (enc_char c)"
    have k: "k = length (enc_char c) + m" using False by (simp add: m_def)
    have "m < length (enc_all s)" using Cons.prems k by simp
    then obtain j where j: "j < length s" "length (enc_all (take j s)) \<le> m"
      "m < length (enc_all (take (Suc j) s))"
      "utf8_decode_replace (take m (enc_all s)) =
         take j s @ (if m = length (enc_all (take j s)) then [] else [65533])"
      using Cons.IH [of m] Cons.prems by auto
    have "utf8_decode_replace (enc_char c @ take m (enc_all s)) =
        c # utf8_decode_replace (take m (enc_all s))"
      using utf8_decode_replace_enc_all [of "[c]"] \<open>scalar c\<close> by simp
    then have "utf8_decode_replace (take k (enc_all (c # s))) =
        take (Suc j) (c # s) @ (if k = length (enc_all (take (Suc j) (c # s))) then [] else [65533])"
      using j(4) k by simp
    then show ?thesis using j k by (intro exI [of _ "Suc j"]) simp
  qed
qed simp

lemma enc_all_ascii: "\<forall>c \<in> set s. c < 128 \<Longrightarrow> enc_all s = s"
  by (induction s) (auto simp: enc_char_def)

lemma scalar_ascii: "c < 128 \<Longrightarrow> scalar c"
  by (simp add: scalar_def surrogate_def)

lemma length_enc_all_ge: "length s \<le> length (enc_all s)"
proof (induction s)
  case (Cons c s)
  then show ?case using enc_char_length(1) [of c] by (simp only: enc_all_simps length_append length_Cons)
qed simp

end
