(* ===== verification/PyJson.thy ===== *)
theory PyJson
  imports Utf8 PyFloat "HOL-Library.List_Lexorder"
begin

text \<open>
  JSON-shaped Python values (what a request, a tool input or an event's data is made of) and
  the canonical serialisation \<^verbatim>\<open>json.dumps(obj, sort_keys=True, separators=(",", ":"))\<close>.
\<close>

datatype json =
    JNull
  | JBool bool
  | JInt int
  | JFloat pyfloat
  | JStr pystr
  | JList "json list"
  | JObj "(pystr \<times> json) list"

type_synonym pydict = "(pystr \<times> json) list"

text \<open>\<^verbatim>\<open>d.get(key)\<close>; \<open>None\<close> of the model is an absent key.\<close>

definition dget :: "pydict \<Rightarrow> string \<Rightarrow> json option" where
  "dget d k = map_of d (lit k)"

text \<open>\<^verbatim>\<open>isinstance(v, str)\<close> and \<^verbatim>\<open>isinstance(v, int)\<close>: a Python bool is an int.\<close>

fun as_str :: "json option \<Rightarrow> pystr option" where
  "as_str (Some (JStr s)) = Some s"
| "as_str _ = None"

fun as_int :: "json \<Rightarrow> int option" where
  "as_int (JInt i) = Some i"
| "as_int (JBool b) = Some (if b then 1 else 0)"
| "as_int _ = None"

text \<open>An f-string renders a bool as \<^verbatim>\<open>True\<close>/\<^verbatim>\<open>False\<close> and an int in decimal.\<close>

fun show_intlike :: "json \<Rightarrow> pystr" where
  "show_intlike (JInt i) = show_int i"
| "show_intlike (JBool b) = (if b then lit ''True'' else lit ''False'')"
| "show_intlike _ = []"

section \<open>Canonical text\<close>

definition esc_u :: "nat \<Rightarrow> pystr" where
  "esc_u c = [92, 117] @ show_hex 4 c"

definition esc_char :: "nat \<Rightarrow> pystr" where
  "esc_char c =
     (if c = 34 then [92, 34]
      else if c = 92 then [92, 92]
      else if c = 10 then [92, 110]
      else if c = 13 then [92, 114]
      else if c = 9 then [92, 116]
      else if c = 12 then [92, 102]
      else if c = 8 then [92, 98]
      else if 32 \<le> c \<and> c \<le> 126 then [c]
      else if c < 65536 then esc_u c
      else (let d = c - 65536 in esc_u (55296 + d div 1024) @ esc_u (56320 + d mod 1024)))"

definition dumps_str :: "pystr \<Rightarrow> pystr" where
  "dumps_str s = [34] @ concat (map esc_char s) @ [34]"

text \<open>\<open>frepr\<close> is \<^verbatim>\<open>float.__repr__\<close>, supplied by the C runtime.\<close>

fun json_dumps :: "(pyfloat \<Rightarrow> pystr) \<Rightarrow> json \<Rightarrow> pystr" where
  "json_dumps frepr JNull = lit ''null''"
| "json_dumps frepr (JBool b) = (if b then lit ''true'' else lit ''false'')"
| "json_dumps frepr (JInt i) = show_int i"
| "json_dumps frepr (JFloat x) = frepr x"
| "json_dumps frepr (JStr s) = dumps_str s"
| "json_dumps frepr (JList vs) = [91] @ join_with [44] (map (json_dumps frepr) vs) @ [93]"
| "json_dumps frepr (JObj kvs) =
     [123] @ join_with [44]
       (map (\<lambda>(k, t). dumps_str k @ [58] @ t)
         (sort_key fst (map (\<lambda>(k, v). (k, json_dumps frepr v)) kvs))) @ [125]"

section \<open>The canonical text is printable ASCII\<close>

definition printable :: "pystr \<Rightarrow> bool" where
  "printable s \<longleftrightarrow> (\<forall>c \<in> set s. 32 \<le> c \<and> c \<le> 126)"

lemma printable_append [simp]: "printable (s @ t) \<longleftrightarrow> printable s \<and> printable t"
  by (auto simp: printable_def)

lemma printable_Cons [simp]: "printable (c # s) \<longleftrightarrow> 32 \<le> c \<and> c \<le> 126 \<and> printable s"
  by (auto simp: printable_def)

lemma printable_Nil [simp]: "printable []"
  by (simp add: printable_def)

lemma printable_concat [simp]: "printable (concat ss) \<longleftrightarrow> (\<forall>s \<in> set ss. printable s)"
  by (auto simp: printable_def)

lemma printable_join:
  "printable sep \<Longrightarrow> (\<forall>s \<in> set ss. printable s) \<Longrightarrow> printable (join_with sep ss)"
  by (induction sep ss rule: join_with.induct) auto

lemma show_hex_printable [simp]: "printable (show_hex w n)"
proof (induction w arbitrary: n)
  case (Suc w)
  have "n mod 16 < 16" by simp
  then have "32 \<le> hex_digit (n mod 16) \<and> hex_digit (n mod 16) \<le> 126" by (simp del: mod_less_divisor)
  then show ?case using Suc by (simp del: hex_digit.simps)
qed simp

lemma esc_char_printable [simp]: "printable (esc_char c)"
  by (simp add: esc_char_def esc_u_def Let_def)

lemma dumps_str_printable [simp]: "printable (dumps_str s)"
  by (simp add: dumps_str_def)

lemma show_nat_printable [simp]: "printable (show_nat n)"
  using show_nat_digits by (fastforce simp: printable_def)

lemma show_int_printable [simp]: "printable (show_int i)"
  by (simp add: show_int_def)

lemma json_dumps_printable:
  assumes "\<And>x. printable (frepr x)"
  shows "printable (json_dumps frepr v)"
  using assms
proof (induction frepr v rule: json_dumps.induct)
  case (7 frepr kvs)
  have "printable (json_dumps frepr v)" if "(k, v) \<in> set kvs" for k v
    using 7 that by auto
  then have "\<forall>l \<in> set (map (\<lambda>(k, t). dumps_str k @ [58] @ t)
      (sort_key fst (map (\<lambda>(k, v). (k, json_dumps frepr v)) kvs))). printable l"
    by auto
  then have "printable (join_with [44] (map (\<lambda>(k, t). dumps_str k @ [58] @ t)
      (sort_key fst (map (\<lambda>(k, v). (k, json_dumps frepr v)) kvs))))"
    by (rule printable_join [rotated]) simp
  then show ?case by simp
qed (auto intro!: printable_join)

lemma printable_encode: "printable s \<Longrightarrow> utf8_encode s = Inr s"
proof -
  assume "printable s"
  then have a: "\<forall>c \<in> set s. c < 128" by (auto simp: printable_def)
  then have "list_all scalar s" by (auto simp: list_all_iff intro: scalar_ascii)
  with enc_all_ascii [OF a] show ?thesis by (simp add: utf8_encode_def)
qed

end
