(* ===== verification/Events.thy ===== *)
theory Events
  imports Clock PyJson
begin

text \<open>
  The event schema and the JSONL writer (\<^verbatim>\<open>events.py\<close>). The writer's state is the clock's
  state extended by the step counter, the bytes that have reached the trace file, the bytes that are still
  buffered, and the echo stream. Two history variables: \<open>ew_log\<close> lists the envelopes whose line was
  written and flushed without an error, and \<open>ew_torn\<close> is the length of that list when a write that failed
  first left bytes behind. The JSON text of an envelope is produced by pydantic, a parameter. The file is the one the
  writer holds open; what else may happen to it is a matter of the program around the writer.
\<close>

section \<open>Schema\<close>

datatype event_type =
    agent_start | agent_step_start | llm_call_start | llm_call_end | tool_call_start | tool_call_end
  | file_mutation | network_request | network_response | checkpoint_start | checkpoint_end
  | agent_step_end | agent_done | agent_error

definition SCHEMA :: pystr where
  "SCHEMA = lit ''agent-anvil/v1''"

record envelope =
  e_schema :: pystr
  e_task_id :: pystr
  e_step :: int
  e_ts :: pystr
  e_mono :: int
  e_type :: event_type
  e_data :: pydict

section \<open>The writer\<close>

record writer_st = clock_st +
  ew_task_id :: pystr
  ew_step :: int
  ew_file :: pybytes
  ew_buf :: pybytes
  ew_torn :: "nat option"
  ew_closed :: bool
  ew_echo :: "pystr option"
  ew_log :: "envelope list"

text \<open>
  \<open>model_dump_json\<close> is pydantic's serialiser; \<open>fp_fault\<close> and \<open>echo_fault\<close> decide which
  writes the operating system refuses (disk full, broken pipe), given what was written before and what is to be
  written. A refused write need not be void: of the bytes that were due, \<open>fp_fault\<close> says how many reached the
  file and how many of the next ones the buffered stream keeps for a later flush (those it had not yet
  taken over are lost); \<open>echo_fault\<close> says how much of the line was taken.
\<close>

record writer_env = os_env +
  model_dump_json :: "envelope \<Rightarrow> pyexc + pystr"
  fp_fault :: "pybytes \<Rightarrow> pybytes \<Rightarrow> (pyexc \<times> nat \<times> nat) option"
  echo_fault :: "pystr \<Rightarrow> pystr \<Rightarrow> (pyexc \<times> nat) option"

text \<open>
  \<^verbatim>\<open>EventWriter.__init__\<close>: the file is opened for appending, so it starts with whatever
  bytes it already had.
\<close>

definition new_writer :: "pybytes \<Rightarrow> pystr \<Rightarrow> clock \<Rightarrow> nat \<Rightarrow> bool \<Rightarrow> writer_st" where
  "new_writer existing task_id c reads echo =
     \<lparr>clk = c, os_reads = reads, ew_task_id = task_id, ew_step = 0, ew_file = existing,
      ew_buf = [], ew_torn = None, ew_closed = False, ew_echo = (if echo then Some [] else None), ew_log = []\<rparr>"

definition set_step :: "int \<Rightarrow> ('z writer_st_scheme, unit) eff" where
  "set_step n = modify (ew_step_update (\<lambda>_. n))"

definition mk_envelope ::
  "pystr \<Rightarrow> int \<Rightarrow> event_type \<Rightarrow> pydict \<Rightarrow> 'z writer_st_scheme \<Rightarrow> envelope" where
  "mk_envelope ts mns ty data s =
     \<lparr>e_schema = SCHEMA, e_task_id = ew_task_id s, e_step = ew_step s, e_ts = ts, e_mono = mns,
      e_type = ty, e_data = data\<rparr>"

definition closed_error :: pyexc where
  "closed_error = PyExc ValueError (lit ''I/O operation on closed file.'')"

text \<open>
  Bytes on their way from the buffer to the file. A write that fails may have put some of them into the file, and
  the stream may keep some in its buffer; \<open>ew_torn\<close> is the number of events written when a failed write
  first left bytes behind.
\<close>

definition torn_now :: "'z writer_st_scheme \<Rightarrow> nat option" where
  "torn_now s = (case ew_torn s of None \<Rightarrow> Some (length (ew_log s)) | Some n \<Rightarrow> Some n)"

definition flush_out :: "'e writer_env_scheme \<Rightarrow> pybytes \<Rightarrow> ('z writer_st_scheme, unit) eff" where
  "flush_out env out = (\<lambda>s. case fp_fault env (ew_file s) out of
       None \<Rightarrow> (Inr (), s\<lparr>ew_file := ew_file s @ out, ew_buf := []\<rparr>)
     | Some (x, n, m) \<Rightarrow>
         (Inl x, s\<lparr>ew_file := ew_file s @ take n out, ew_buf := take m (drop n out),
                   ew_torn := (if n = 0 \<and> m = 0 \<and> ew_buf s = [] then ew_torn s else torn_now s)\<rparr>))"

text \<open>
  \<^verbatim>\<open>self._fp.write(line); self._fp.flush()\<close>. The stream is line-buffered, so the first call already flushes; a line
  that cannot be encoded is refused before any of it is taken.
\<close>

definition fp_write ::
  "'e writer_env_scheme \<Rightarrow> envelope \<Rightarrow> pystr \<Rightarrow> ('z writer_st_scheme, unit) eff" where
  "fp_write env e line = (\<lambda>s.
     if ew_closed s then (Inl closed_error, s)
     else (case utf8_encode line of
        Inl x \<Rightarrow> (Inl x, s)
      | Inr b \<Rightarrow> thenE (flush_out env (ew_buf s @ b)) (modify (ew_log_update (\<lambda>l. l @ [e]))) s))"

text \<open>\<^verbatim>\<open>if self._echo is not None: self._echo.write(line); self._echo.flush()\<close>\<close>

definition echo_write ::
  "'e writer_env_scheme \<Rightarrow> pystr \<Rightarrow> ('z writer_st_scheme, unit) eff" where
  "echo_write env line = (\<lambda>s. case ew_echo s of
       None \<Rightarrow> (Inr (), s)
     | Some out \<Rightarrow>
         (case echo_fault env out line of
            Some (x, n) \<Rightarrow> (Inl x, s\<lparr>ew_echo := Some (out @ take n line)\<rparr>)
          | None \<Rightarrow> (Inr (), s\<lparr>ew_echo := Some (out @ line)\<rparr>)))"

definition emit ::
  "'e writer_env_scheme \<Rightarrow> event_type \<Rightarrow> pydict \<Rightarrow> ('z writer_st_scheme, envelope) eff" where
  "emit env ty data =
     bindE (now_iso env) (\<lambda>ts.
     bindE (monotonic_ns env) (\<lambda>mns.
     bindE (gets (mk_envelope ts mns ty data)) (\<lambda>e.
     bindE (of_sum (model_dump_json env e)) (\<lambda>js.
     thenE (fp_write env e (js @ [nl]))
    (thenE (echo_write env (js @ [nl]))
    (thenE tick
    (ret e)))))))"

text \<open>Closing flushes what a failed write has left in the buffer; the file is closed even if that fails too.\<close>

definition close :: "'e writer_env_scheme \<Rightarrow> ('z writer_st_scheme, unit) eff" where
  "close env = (\<lambda>s.
     if ew_closed s then (Inr (), s)
     else (case (if ew_buf s = [] then (Inr (), s) else flush_out env (ew_buf s) s) of
             (y, t) \<Rightarrow> (y, t\<lparr>ew_closed := True\<rparr>)))"

section \<open>Reading a trace file\<close>

text \<open>
  \<open>load\<close> is \<^verbatim>\<open>EventEnvelope.model_validate(json.loads(line))\<close>. Iterating over a text file
  yields the pieces between newlines; blank ones are skipped.
\<close>

fun read_lines :: "(pystr \<Rightarrow> pyexc + envelope) \<Rightarrow> pystr list \<Rightarrow> pyexc + envelope list" where
  "read_lines load [] = Inr []"
| "read_lines load (l # ls) =
     (if strip l = [] then read_lines load ls
      else (case load (strip l) of
         Inl x \<Rightarrow> Inl x
       | Inr e \<Rightarrow>
           (case read_lines load ls of Inl x \<Rightarrow> Inl x | Inr es \<Rightarrow> Inr (e # es))))"

definition read_events :: "(pystr \<Rightarrow> pyexc + envelope) \<Rightarrow> pystr \<Rightarrow> pyexc + envelope list" where
  "read_events load text = read_lines load (split_on nl (universal_newlines text))"

section \<open>What one emit does\<close>

text \<open>The part of the state below the tool layer that an emit never touches.\<close>

lemma fp_write_cases:
  assumes "fp_write env e line s = (y, t)"
  obtains (ok) b where "y = Inr ()" "utf8_encode line = Inr b" "\<not> ew_closed s"
      "t = s\<lparr>ew_file := ew_file s @ ew_buf s @ b, ew_buf := [], ew_log := ew_log s @ [e]\<rparr>"
    | (fail) x where "y = Inl x" "t = s"
    | (cut) x c b where "y = Inl x"
      "t = s\<lparr>ew_file := ew_file s @ c, ew_buf := b, ew_torn := torn_now s\<rparr>"
proof (cases "ew_closed s \<or> isl (utf8_encode line)")
  case True
  then have "fp_write env e line s = (Inl (if ew_closed s then closed_error else projl (utf8_encode line)), s)"
    by (auto simp: fp_write_def split: sum.splits)
  with assms show thesis by (intro fail) auto
next
  case False
  then obtain b where b: "utf8_encode line = Inr b" "\<not> ew_closed s" by (cases "utf8_encode line") auto
  show thesis
  proof (cases "fp_fault env (ew_file s) (ew_buf s @ b)")
    case None
    with assms b show thesis by (intro ok [of b]) (auto simp: fp_write_def flush_out_def thenE_def bindE_def modify_def)
  next
    case (Some z)
    obtain x n m where z: "z = (x, n, m)" by (cases z) auto
    show thesis
    proof (cases "n = 0 \<and> m = 0 \<and> ew_buf s = []")
      case True
      with z Some assms b show thesis by (intro fail [of x]) (auto simp: fp_write_def flush_out_def thenE_def bindE_def)
    next
      case False
      with z Some assms b show thesis
        by (intro cut [where x = x and c = "take n (ew_buf s @ b)" and b = "take m (drop n (ew_buf s @ b))"])
          (simp_all add: fp_write_def flush_out_def thenE_def bindE_def)
    qed
  qed
qed

lemma echo_write_cases:
  assumes "echo_write env line s = (y, t)"
  obtains (none) "y = Inr ()" "ew_echo s = None" "t = s"
    | (ok) out where "y = Inr ()" "ew_echo s = Some out" "t = s\<lparr>ew_echo := Some (out @ line)\<rparr>"
    | (fail) x out where "y = Inl x" "t = s\<lparr>ew_echo := Some out\<rparr>" "ew_echo s \<noteq> None"
  using assms by (auto simp: echo_write_def split: option.splits)

text \<open>
  The contract every client of the writer relies on. On return the log is longer by exactly
  the emitted envelope; if emit raises, the log is unchanged or that envelope is its last
  line. Nothing but the clock, the file, the echo stream and the log changes.
\<close>

definition emit_frame :: "'z writer_st_scheme \<Rightarrow> 'z writer_st_scheme \<Rightarrow> bool" where
  "emit_frame s t \<longleftrightarrow> ew_task_id t = ew_task_id s \<and> ew_step t = ew_step s \<and>
     ew_closed t = ew_closed s \<and> writer_st.more t = writer_st.more s"

definition stamped :: "'z writer_st_scheme \<Rightarrow> event_type \<Rightarrow> pydict \<Rightarrow> envelope \<Rightarrow> bool" where
  "stamped s ty data e \<longleftrightarrow> (\<exists>ts mns. e = mk_envelope ts mns ty data s)"

lemma torn_now_reads [simp]: "torn_now (s\<lparr>os_reads := n\<rparr>) = torn_now s"
  by (simp add: torn_now_def split: option.split)

lemma mk_envelope_reads [simp]:
  "mk_envelope ts mns ty data (s\<lparr>os_reads := n\<rparr>) = mk_envelope ts mns ty data s"
  by (simp add: mk_envelope_def)

lemma emit_cases:
  assumes "emit env ty data s = (y, t)"
  obtains (early) n x where "y = Inl x" "t = s\<lparr>os_reads := n\<rparr>" "os_reads s \<le> n"
    | (torn) n x c b where "y = Inl x" "os_reads s \<le> n" "t = s\<lparr>os_reads := n, ew_file := ew_file s @ c, ew_buf := b,
        ew_torn := torn_now s\<rparr>"
    | (written) n e js z u b where "stamped s ty data e" "model_dump_json env e = Inr js"
      "utf8_encode (js @ [nl]) = Inr b"
      "now_iso env s = (Inr (e_ts e), z)" "monotonic_ns env z = (Inr (e_mono e), s\<lparr>os_reads := n\<rparr>)"
      "u = s\<lparr>os_reads := n, ew_file := ew_file s @ ew_buf s @ b, ew_buf := [], ew_log := ew_log s @ [e]\<rparr>"
      "\<not> ew_closed s" "(thenE (echo_write env (js @ [nl])) (thenE tick (ret e))) u = (y, t)"
      "os_reads s \<le> os_reads z" "os_reads z \<le> n"
proof -
  obtain r z where ni: "now_iso env s = (r, z)" by fastforce
  then obtain n0 where z: "z = s\<lparr>os_reads := n0\<rparr>" and n0: "os_reads s \<le> n0" by (auto dest: now_iso_frame)
  show thesis
  proof (cases r)
    case (Inl x)
    with ni assms have "y = Inl x" "t = z" by (auto simp: emit_def bindE_def)
    with z n0 show thesis by (intro early) auto
  next
    case (Inr ts)
    obtain r' u' where mn: "monotonic_ns env z = (r', u')" by fastforce
    then obtain n where "u' = z\<lparr>os_reads := n\<rparr>" and zn: "os_reads z \<le> n"
      by (auto dest: monotonic_ns_frame)
    with z have u': "u' = s\<lparr>os_reads := n\<rparr>" and n: "os_reads s \<le> n" using n0 by simp_all
    show thesis
    proof (cases r')
      case (Inl x)
      with ni mn assms Inr have "y = Inl x" "t = u'" by (auto simp: emit_def bindE_def)
      with u' n show thesis by (intro early) auto
    next
      case mns: (Inr mns)
      define e where "e = mk_envelope ts mns ty data u'"
      have rest: "bindE (of_sum (model_dump_json env e)) (\<lambda>js.
          thenE (fp_write env e (js @ [nl])) (thenE (echo_write env (js @ [nl])) (thenE tick (ret e)))) u'
          = (y, t)"
        using assms ni Inr mn mns by (simp add: emit_def bindE_def gets_def e_def)
      show thesis
      proof (cases "model_dump_json env e")
        case (Inl x)
        with rest u' n show thesis by (intro early) (auto simp: bindE_def of_sum_def)
      next
        case js: (Inr js)
        obtain w v where fw: "fp_write env e (js @ [nl]) u' = (w, v)" by fastforce
        then show thesis
        proof (cases rule: fp_write_cases)
          case (ok b)
          have "(thenE (echo_write env (js @ [nl])) (thenE tick (ret e))) v = (y, t)"
            using rest js fw ok by (simp add: bindE_def of_sum_def thenE_def)
          moreover have "v = s\<lparr>os_reads := n, ew_file := ew_file s @ ew_buf s @ b, ew_buf := [], ew_log := ew_log s @ [e]\<rparr>"
            using ok u' by simp
          moreover have "stamped s ty data e" "e_ts e = ts" "e_mono e = mns"
            by (auto simp: stamped_def e_def u' mk_envelope_def)
          ultimately show thesis
            using js ok u' ni mn Inr mns z n0 zn by (intro written [of e js b z n v]) auto
        next
          case (fail x)
          with rest js fw u' n show thesis by (intro early [of x n]) (auto simp: bindE_def of_sum_def thenE_def)
        next
          case (cut x c b)
          with rest js fw u' n show thesis by (intro torn [where c = c and b = b]) (auto simp: bindE_def of_sum_def thenE_def)
        qed
      qed
    qed
  qed
qed

text \<open>The steps after the file write: they touch the echo stream and the clock only.\<close>

lemma after_write_cases:
  assumes "(thenE (echo_write env line) (thenE tick (ret e))) u = (y, t)"
  shows "ew_log t = ew_log u \<and> (ew_file t, ew_buf t, ew_torn t) = (ew_file u, ew_buf u, ew_torn u) \<and>
      os_reads t = os_reads u \<and> emit_frame u t"
    and "\<And>e'. y = Inr e' \<Longrightarrow> e' = e"
proof -
  obtain r v where ew: "echo_write env line u = (r, v)" by fastforce
  then have v: "ew_log v = ew_log u \<and> (ew_file v, ew_buf v, ew_torn v) = (ew_file u, ew_buf u, ew_torn u) \<and>
      os_reads v = os_reads u \<and> emit_frame u v"
    by (cases rule: echo_write_cases) (auto simp: emit_frame_def)
  obtain r' w where tk: "tick v = (r', w)" by fastforce
  then obtain c where w: "w = v\<lparr>clk := c\<rparr>" by (auto dest: tick_frame)
  show "ew_log t = ew_log u \<and> (ew_file t, ew_buf t, ew_torn t) = (ew_file u, ew_buf u, ew_torn u) \<and>
      os_reads t = os_reads u \<and> emit_frame u t"
    using assms ew tk v w by (cases r; cases r') (auto simp: thenE_def bindE_def ret_def emit_frame_def)
  show "\<And>e'. y = Inr e' \<Longrightarrow> e' = e"
    using assms ew tk by (cases r; cases r') (auto simp: thenE_def bindE_def ret_def)
qed

lemma emit_spec:
  assumes "emit env ty data s = (y, t)"
  shows "emit_frame s t"
    and "y = Inr e \<Longrightarrow> stamped s ty data e \<and> ew_log t = ew_log s @ [e]"
    and "y = Inl x \<Longrightarrow> ew_log t = ew_log s \<or> (\<exists>e. stamped s ty data e \<and> ew_log t = ew_log s @ [e])"
proof -
  have "emit_frame s t \<and> (\<forall>e. y = Inr e \<longrightarrow> stamped s ty data e \<and> ew_log t = ew_log s @ [e]) \<and>
    (\<forall>x. y = Inl x \<longrightarrow> ew_log t = ew_log s \<or> (\<exists>e. stamped s ty data e \<and> ew_log t = ew_log s @ [e]))"
    using assms
  proof (cases rule: emit_cases)
    case (early n x)
    then show ?thesis by (simp add: emit_frame_def)
  next
    case (torn n x c b)
    then show ?thesis by (simp add: emit_frame_def)
  next
    case (written n e js z u b)
    from after_write_cases [OF written(8)] written(1,6) show ?thesis
      by (auto simp: emit_frame_def)
  qed
  then show "emit_frame s t"
    and "y = Inr e \<Longrightarrow> stamped s ty data e \<and> ew_log t = ew_log s @ [e]"
    and "y = Inl x \<Longrightarrow> ew_log t = ew_log s \<or> (\<exists>e. stamped s ty data e \<and> ew_log t = ew_log s @ [e])"
    by blast+
qed

text \<open>A writer that nothing refuses: on the system clock, with an open file, no emit raises.\<close>

definition writer_ok :: "'e writer_env_scheme \<Rightarrow> 'z writer_st_scheme \<Rightarrow> bool" where
  "writer_ok env s \<longleftrightarrow> clk s = SystemClock \<and> \<not> ew_closed s \<and>
     (\<forall>e. \<exists>js. model_dump_json env e = Inr js \<and> list_all scalar js) \<and>
     (\<forall>f l. fp_fault env f l = None) \<and> (\<forall>f l. echo_fault env f l = None)"

lemma emit_total:
  assumes "writer_ok env s"
  shows "\<exists>e t. emit env ty data s = (Inr e, t) \<and> writer_ok env t"
proof -
  obtain y t where e: "emit env ty data s = (y, t)" by fastforce
  have c: "clk s = SystemClock" using assms by (simp add: writer_ok_def)
  define ts mns where "ts = iso_format (os_now env (os_reads s))" and "mns = os_mono env (Suc (os_reads s))"
  define u where "u = s\<lparr>os_reads := Suc (Suc (os_reads s))\<rparr>"
  obtain js where js: "model_dump_json env (mk_envelope ts mns ty data u) = Inr js" "list_all scalar js"
    using assms unfolding writer_ok_def by blast
  then have "\<exists>bs. utf8_encode (js @ [nl]) = Inr bs" by (simp add: utf8_encode_def scalar_ascii)
  with js c assms show ?thesis
    by (cases "ew_echo s")
      (auto simp: emit_def now_iso_def monotonic_ns_def os_read_def eff_defs fp_write_def flush_out_def echo_write_def
        tick_def writer_ok_def ts_def mns_def u_def)
qed

text \<open>The outcome of an emit on the system clock, without an echo stream.\<close>

lemma emit_system:
  assumes "clk s = SystemClock" "\<not> ew_closed s" "ew_echo s = None" "fp_fault env = (\<lambda>_ _. None)"
    "e = mk_envelope (iso_format (os_now env (os_reads s))) (os_mono env (Suc (os_reads s))) ty data s"
    "model_dump_json env e = Inr js" "list_all scalar js"
  shows "emit env ty data s = (Inr e, s\<lparr>os_reads := Suc (Suc (os_reads s)),
    ew_file := ew_file s @ ew_buf s @ enc_all (js @ [nl]), ew_buf := [], ew_log := ew_log s @ [e]\<rparr>)"
proof -
  have "utf8_encode (js @ [nl]) = Inr (enc_all (js @ [nl]))" using assms(7) by (simp add: utf8_encode_def scalar_ascii)
  with assms(1-4) assms(6) [unfolded assms(5)] show ?thesis
    unfolding assms(5)
    by (auto simp: emit_def now_iso_def monotonic_ns_def os_read_def eff_defs fp_write_def flush_out_def echo_write_def tick_def)
qed

section \<open>The interface of the event sink\<close>

text \<open>What the loop and the tools rely on when they emit an event.\<close>

locale event_sink =
  fixes sink :: "event_type \<Rightarrow> pydict \<Rightarrow> ('z writer_st_scheme, envelope) eff"
  assumes sink_frame: "sink ty data s = (y, t) \<Longrightarrow> emit_frame s t"
    and sink_returns: "sink ty data s = (Inr e, t) \<Longrightarrow> stamped s ty data e \<and> ew_log t = ew_log s @ [e]"
    and sink_raises: "sink ty data s = (Inl x, t) \<Longrightarrow>
      ew_log t = ew_log s \<or> (\<exists>e. stamped s ty data e \<and> ew_log t = ew_log s @ [e])"
begin

text \<open>An invariant over the log is checked by looking at the one envelope that is added.\<close>

lemma sink_hoare:
  assumes "\<And>s t e. P s \<Longrightarrow> stamped s ty data e \<Longrightarrow> emit_frame s t \<Longrightarrow> ew_log t = ew_log s @ [e] \<Longrightarrow> Q e t"
    and "\<And>s t e x. P s \<Longrightarrow> stamped s ty data e \<Longrightarrow> emit_frame s t \<Longrightarrow> ew_log t = ew_log s @ [e] \<Longrightarrow> E x t"
    and "\<And>s t x. P s \<Longrightarrow> emit_frame s t \<Longrightarrow> ew_log t = ew_log s \<Longrightarrow> E x t"
  shows "hoare P (sink ty data) Q E"
proof (rule hoareI)
  fix s e t assume "P s" "sink ty data s = (Inr e, t)"
  then show "Q e t" using sink_frame sink_returns assms(1) by blast
next
  fix s x t assume "P s" "sink ty data s = (Inl x, t)"
  then show "E x t" using sink_frame sink_raises assms(2,3) by blast
qed

lemma sink_step: "keeps (\<lambda>s t. ew_step t = ew_step s) (sink ty data)"
  by (rule keepsI) (auto dest: sink_frame simp: emit_frame_def)

end

interpretation emitter: event_sink "emit env" for env
  by unfold_locales (auto dest: emit_spec)

section \<open>Invariants of the trace\<close>

text \<open>The fields of the writer that determine a trace property, the clock included.\<close>

definition writer_view ::
  "'z writer_st_scheme \<Rightarrow> clock \<times> pystr \<times> (pybytes \<times> pybytes \<times> nat option) \<times> bool \<times> pystr option \<times> envelope list" where
  "writer_view s = (clk s, ew_task_id s, (ew_file s, ew_buf s, ew_torn s), ew_closed s, ew_echo s, ew_log s)"

text \<open>
  A trace invariant is kept by every emit and depends on the writer's fields only, so it is
  kept by everything the tools and the loop do to the rest of the state.
\<close>

locale trace_invariant =
  fixes env :: "'e writer_env_scheme"
    and P :: "'z writer_st_scheme \<Rightarrow> bool"
  assumes emit_keeps: "preserves P (emit env ty data)"
    and view_only: "P s \<Longrightarrow> writer_view t = writer_view s \<Longrightarrow> os_reads s \<le> os_reads t \<Longrightarrow> P t"
begin

lemma keeps_view: "keeps (\<lambda>s t. writer_view t = writer_view s \<and> os_reads s \<le> os_reads t) m \<Longrightarrow> preserves P m"
  by (rule preservesI) (auto dest: keepsD intro: view_only)

lemma clock_reads_keep:
  "preserves P (now_iso env)" "preserves P (monotonic_ns env)" "preserves P (os_read f)"
  by (rule preserves_clock_reads, erule view_only, simp_all add: writer_view_def)+

lemma set_step_keeps: "preserves P (set_step n)"
  unfolding set_step_def
  by (rule preserves_modify) (erule view_only, simp_all add: writer_view_def)

end

end
