(* ===== verification/FileSys.thy ===== *)
theory FileSys
  imports Events "HOL-Library.Finite_Map" "HOL-Library.Sublist"
begin

text \<open>
  The file system under the tools: a finite tree of files, directories and symbolic links,
  the kernel's path walk (links followed, at most 40 of them), and the \<^verbatim>\<open>pathlib\<close> operations
  of the Python standard library on top of it. \<^verbatim>\<open>Path.resolve\<close> follows CPython 3.12, the
  version of the container image.
\<close>

section \<open>Paths and nodes\<close>

type_synonym path = "pystr list"

datatype node = FileN pybytes | DirN | LinkN pystr

type_synonym fsys = "(path, node) fmap"

definition dot :: pystr where "dot = [46]"
definition dotdot :: pystr where "dotdot = [46, 46]"

text \<open>
  A \<^verbatim>\<open>PurePosixPath\<close>: the number of leading slashes of its root (0, 1 or 2) and its parts,
  with empty and \<^verbatim>\<open>.\<close> components dropped and \<^verbatim>\<open>..\<close> kept.
\<close>

record purepath =
  pp_root :: nat
  pp_parts :: "pystr list"

definition pure_path :: "pystr \<Rightarrow> purepath" where
  "pure_path s =
     (let slashes = length (takeWhile (\<lambda>c. c = slash) s)
      in \<lparr>pp_root = (if slashes = 0 then 0 else if slashes = 2 then 2 else 1),
          pp_parts = filter (\<lambda>p. p \<noteq> [] \<and> p \<noteq> dot) (split_on slash s)\<rparr>)"

text \<open>\<^verbatim>\<open>base / arg\<close>: an absolute right operand replaces the left one.\<close>

definition pure_join :: "purepath \<Rightarrow> purepath \<Rightarrow> purepath" where
  "pure_join a b = (if pp_root b \<noteq> 0 then b else a\<lparr>pp_parts := pp_parts a @ pp_parts b\<rparr>)"

definition path_str :: "path \<Rightarrow> pystr" where
  "path_str p = slash # join_with [slash] p"

section \<open>The kernel's path walk\<close>

datatype errno = ENOENT | ENOTDIR | ELOOP | EEXIST

datatype walk_result = Found path | Missing path | Failed errno

definition MAXSYMLINKS :: nat where "MAXSYMLINKS = 40"

definition is_abs :: "pystr \<Rightarrow> bool" where
  "is_abs t \<longleftrightarrow> t \<noteq> [] \<and> hd t = slash"

function walk :: "fsys \<Rightarrow> nat \<Rightarrow> path \<Rightarrow> pystr list \<Rightarrow> walk_result" where
  "walk fs k cur [] = Found cur"
| "walk fs k cur (n # w) =
     (if n = [] \<or> n = dot then walk fs k cur w
      else if n = dotdot then walk fs k (butlast cur) w
      else (case fmlookup fs (cur @ [n]) of
         None \<Rightarrow> if w = [] then Missing (cur @ [n]) else Failed ENOENT
       | Some DirN \<Rightarrow> walk fs k (cur @ [n]) w
       | Some (FileN _) \<Rightarrow> if w = [] then Found (cur @ [n]) else Failed ENOTDIR
       | Some (LinkN t) \<Rightarrow>
           if k = 0 then Failed ELOOP
           else walk fs (k - 1) (if is_abs t then [] else cur) (split_on slash t @ w)))"
  by pat_completeness auto
termination
  by (relation "measures [\<lambda>(fs, k, cur, w). k, \<lambda>(fs, k, cur, w). length w]") auto

definition kstat :: "fsys \<Rightarrow> path \<Rightarrow> walk_result" where
  "kstat fs p = walk fs MAXSYMLINKS [] p"

text \<open>\<^verbatim>\<open>os.mkdir\<close>: the last component is not followed, and \<^verbatim>\<open>..\<close> always exists.\<close>

definition kmkdir :: "fsys \<Rightarrow> path \<Rightarrow> errno + fsys" where
  "kmkdir fs p =
     (if p = [] then Inl EEXIST
      else (case kstat fs (butlast p) of
         Found d \<Rightarrow>
           if fmlookup fs d = Some DirN
           then (if last p \<noteq> dotdot \<and> fmlookup fs (d @ [last p]) = None
                 then Inr (fmupd (d @ [last p]) DirN fs) else Inl EEXIST)
           else Inl ENOTDIR
       | Missing _ \<Rightarrow> Inl ENOENT
       | Failed e \<Rightarrow> Inl e))"

section \<open>Path.resolve\<close>

text \<open>
  Names reach the kernel through \<^verbatim>\<open>os.fsencode\<close>: a NUL or a surrogate that does not escape a
  byte raises before the call.
\<close>

definition fs_encodable :: "nat \<Rightarrow> bool" where
  "fs_encodable c \<longleftrightarrow> scalar c \<or> (56448 \<le> c \<and> c \<le> 56575)"

definition name_error :: "path \<Rightarrow> pyexc option" where
  "name_error p =
     (if \<not> list_all fs_encodable (path_str p) then Some (encode_error fs_encodable (path_str p))
      else if 0 \<in> set (path_str p) then Some (PyExc ValueError (lit ''embedded null byte''))
      else None)"

text \<open>
  \<^verbatim>\<open>posixpath._joinrealpath\<close> with its recursion unrolled into a work list: \<open>LinkDone l\<close> marks
  the point where the target of link \<open>l\<close> has been resolved. \<open>seen\<close> maps a link to its
  resolved path, or to \<open>None\<close> while it is being resolved. The flag is false when a link
  loop was met; the rest of the path is then appended unresolved.
\<close>

datatype work = Part pystr | LinkDone path

fun part_names :: "work list \<Rightarrow> pystr list" where
  "part_names [] = []"
| "part_names (Part n # w) = n # part_names w"
| "part_names (LinkDone _ # w) = part_names w"

definition pending_links :: "fsys \<Rightarrow> (path \<rightharpoonup> path option) \<Rightarrow> path set" where
  "pending_links fs seen = {l. (\<exists>t. fmlookup fs l = Some (LinkN t)) \<and> seen l = None}"

lemma finite_pending_links [simp]: "finite (pending_links fs seen)"
  by (rule finite_subset [OF _ finite_fmdom' [of fs]])
    (auto simp: pending_links_def intro: fmdom'I)

lemma pending_links_mark:
  "card (pending_links fs (seen(l \<mapsto> v))) < Suc (card (pending_links fs seen))"
  by (auto simp: less_Suc_eq_le pending_links_def [abs_def] intro!: card_mono
      finite_subset [OF _ finite_pending_links [of fs seen, unfolded pending_links_def]] split: if_splits)

lemma pending_links_open:
  assumes "fmlookup fs l = Some (LinkN t)" "seen l = None"
  shows "card (pending_links fs (seen(l \<mapsto> v))) < card (pending_links fs seen)"
  by (rule psubset_card_mono [OF finite_pending_links])
    (use assms in \<open>auto simp: pending_links_def split: if_splits\<close>)

function realpath_loop ::
  "fsys \<Rightarrow> path \<Rightarrow> work list \<Rightarrow> (path \<rightharpoonup> path option) \<Rightarrow> pyexc + (path \<times> bool)" where
  "realpath_loop fs path [] seen = Inr (path, True)"
| "realpath_loop fs path (LinkDone l # w) seen = realpath_loop fs path w (seen(l \<mapsto> Some path))"
| "realpath_loop fs path (Part n # w) seen =
     (if n = [] \<or> n = dot then realpath_loop fs path w seen
      else if n = dotdot then realpath_loop fs (butlast path) w seen
      else (case name_error (path @ [n]) of
         Some e \<Rightarrow> Inl e
       | None \<Rightarrow>
           (case fmlookup fs (path @ [n]) of
              Some (LinkN t) \<Rightarrow>
                (case seen (path @ [n]) of
                   Some (Some p) \<Rightarrow> realpath_loop fs p w seen
                 | Some None \<Rightarrow> Inr (path @ [n] @ part_names w, False)
                 | None \<Rightarrow>
                     realpath_loop fs (if is_abs t then [] else path)
                       (map Part (split_on slash t) @ LinkDone (path @ [n]) # w)
                       (seen(path @ [n] \<mapsto> None)))
            | _ \<Rightarrow> realpath_loop fs (path @ [n]) w seen)))"
  by pat_completeness auto
termination
proof (relation "measures [\<lambda>(fs, path, w, seen). card (pending_links fs seen),
    \<lambda>(fs, path, w, seen). length w]", goal_cases)
  case (2 fs path l w seen)
  then show ?case using pending_links_mark [of fs seen l "Some path"] by (auto simp: less_Suc_eq)
qed (auto intro: pending_links_open)

text \<open>\<^verbatim>\<open>posixpath.normpath\<close> on an absolute path.\<close>

fun normpath :: "path \<Rightarrow> pystr list \<Rightarrow> path" where
  "normpath acc [] = acc"
| "normpath acc (n # ns) =
     (if n = [] \<or> n = dot then normpath acc ns
      else if n = dotdot then normpath (butlast acc) ns
      else normpath (acc @ [n]) ns)"

definition realpath :: "fsys \<Rightarrow> path \<Rightarrow> purepath \<Rightarrow> pyexc + (path \<times> bool)" where
  "realpath fs cwd pp =
     realpath_loop fs (if pp_root pp = 0 then cwd else []) (map Part (pp_parts pp)) Map.empty"

text \<open>
  \<^verbatim>\<open>Path.resolve()\<close>: after a link loop the unresolved rest is normalised lexically, and a
  final \<^verbatim>\<open>stat\<close> turns an \<^verbatim>\<open>ELOOP\<close> into a \<^verbatim>\<open>RuntimeError\<close>; its other errors are ignored.
\<close>

definition resolve :: "(pystr \<Rightarrow> pystr) \<Rightarrow> fsys \<Rightarrow> path \<Rightarrow> purepath \<Rightarrow> pyexc + path" where
  "resolve srepr fs cwd pp =
     (case realpath fs cwd pp of
        Inl e \<Rightarrow> Inl e
      | Inr (p, True) \<Rightarrow> Inr p
      | Inr (p, False) \<Rightarrow>
          (let q = normpath [] p
           in case name_error q of
                Some e \<Rightarrow> Inl e
              | None \<Rightarrow>
                  if kstat fs q = Failed ELOOP
                  then Inl (PyExc RuntimeError (lit ''Symlink loop from '' @ srepr (path_str q)))
                  else Inr q))"

text \<open>\<^verbatim>\<open>target.relative_to(other)\<close> for absolute \<open>target\<close>; \<open>None\<close> is the \<^verbatim>\<open>ValueError\<close>.\<close>

definition relative_to :: "path \<Rightarrow> purepath \<Rightarrow> path option" where
  "relative_to p base =
     (if pp_root base = 1 \<and> prefix (pp_parts base) p
      then Some (drop (length (pp_parts base)) p) else None)"

definition rel_str :: "path \<Rightarrow> pystr" where
  "rel_str p = (if p = [] then dot else join_with [slash] p)"

section \<open>State, environment and file operations\<close>

record tool_st = writer_st +
  tfs :: fsys

datatype fsop = OpStat | OpRead | OpWrite | OpMkdir | OpUnlink

text \<open>
  What a shell command does is decided by the shell: \<open>sh_run i command workspace timeout fs\<close> is
  the outcome of \<^verbatim>\<open>subprocess.run\<close> (an exception, or the completed process) and the file
  system afterwards, for a command that is run after the \<open>i\<close>-th event, so that the same command may come out
  differently the next time. \<open>fs_fault\<close> decides which operations the kernel refuses for reasons outside
  the model (permissions, quota, I/O), \<open>write_fault\<close> which writes fail after the file has been opened, and
  how many bytes they have written, and \<open>dir_size\<close> is the size the kernel reports for a
  directory. \<open>py_repr\<close> is Python's \<^verbatim>\<open>repr\<close>, \<open>str_repr\<close> its restriction to strings, and
  \<open>cwd\<close> the process's working directory.
\<close>

record completed_process =
  p_stdout :: "pystr option"
  p_stderr :: "pystr option"
  p_returncode :: int

record tool_env = writer_env +
  fs_fault :: "fsop \<Rightarrow> path \<Rightarrow> fsys \<Rightarrow> pyexc option"
  dir_size :: "path \<Rightarrow> fsys \<Rightarrow> nat"
  write_fault :: "path \<Rightarrow> pybytes \<Rightarrow> fsys \<Rightarrow> (pyexc \<times> nat) option"
  sh_run :: "nat \<Rightarrow> pystr \<Rightarrow> purepath \<Rightarrow> int \<Rightarrow> fsys \<Rightarrow> (pyexc + completed_process) \<times> fsys"
  py_repr :: "json \<Rightarrow> pystr"
  str_repr :: "pystr \<Rightarrow> pystr"
  cwd :: path

definition os_error :: "'e tool_env_scheme \<Rightarrow> errno \<Rightarrow> path \<Rightarrow> pyexc" where
  "os_error env e p =
     (case e of
        ENOENT \<Rightarrow> PyExc FileNotFoundError
          (lit ''[Errno 2] No such file or directory: '' @ str_repr env (path_str p))
      | ENOTDIR \<Rightarrow> PyExc NotADirectoryError
          (lit ''[Errno 20] Not a directory: '' @ str_repr env (path_str p))
      | ELOOP \<Rightarrow> PyExc OSError
          (lit ''[Errno 40] Too many levels of symbolic links: '' @ str_repr env (path_str p))
      | EEXIST \<Rightarrow> PyExc FileExistsError
          (lit ''[Errno 17] File exists: '' @ str_repr env (path_str p)))"

definition is_dir_error :: "'e tool_env_scheme \<Rightarrow> path \<Rightarrow> pyexc" where
  "is_dir_error env p =
     PyExc IsADirectoryError (lit ''[Errno 21] Is a directory: '' @ str_repr env (path_str p))"

text \<open>One kernel call: refused by a fault, or \<open>f\<close> on the file system.\<close>

definition kcall ::
  "'e tool_env_scheme \<Rightarrow> fsop \<Rightarrow> path \<Rightarrow> (fsys \<Rightarrow> pyexc + 'a) \<Rightarrow> ('z tool_st_scheme, 'a) eff" where
  "kcall env op p f = (\<lambda>s. case fs_fault env op p (tfs s) of
       Some x \<Rightarrow> (Inl x, s)
     | None \<Rightarrow> (f (tfs s), s))"

definition lookup_at :: "fsys \<Rightarrow> path \<Rightarrow> node option" where
  "lookup_at fs p = (case kstat fs p of Found q \<Rightarrow> fmlookup fs q | _ \<Rightarrow> None)"

text \<open>\<^verbatim>\<open>Path.exists\<close>, \<^verbatim>\<open>is_file\<close>, \<^verbatim>\<open>is_dir\<close>: a walk that fails means \<open>False\<close>.\<close>

definition path_exists :: "'e tool_env_scheme \<Rightarrow> path \<Rightarrow> ('z tool_st_scheme, bool) eff" where
  "path_exists env p = kcall env OpStat p (\<lambda>fs. Inr (lookup_at fs p \<noteq> None))"

definition path_is_file :: "'e tool_env_scheme \<Rightarrow> path \<Rightarrow> ('z tool_st_scheme, bool) eff" where
  "path_is_file env p = kcall env OpStat p
     (\<lambda>fs. Inr (case lookup_at fs p of Some (FileN _) \<Rightarrow> True | _ \<Rightarrow> False))"

definition path_is_dir :: "'e tool_env_scheme \<Rightarrow> path \<Rightarrow> ('z tool_st_scheme, bool) eff" where
  "path_is_dir env p = kcall env OpStat p (\<lambda>fs. Inr (lookup_at fs p = Some DirN))"

text \<open>\<^verbatim>\<open>p.stat().st_size\<close>\<close>

definition st_size :: "'e tool_env_scheme \<Rightarrow> path \<Rightarrow> ('z tool_st_scheme, nat) eff" where
  "st_size env p = kcall env OpStat p
     (\<lambda>fs. case kstat fs p of
        Found q \<Rightarrow> Inr (case fmlookup fs q of Some (FileN b) \<Rightarrow> length b | _ \<Rightarrow> dir_size env q fs)
      | Missing _ \<Rightarrow> Inl (os_error env ENOENT p)
      | Failed e \<Rightarrow> Inl (os_error env e p))"

definition read_bytes :: "'e tool_env_scheme \<Rightarrow> path \<Rightarrow> ('z tool_st_scheme, pybytes) eff" where
  "read_bytes env p = kcall env OpRead p
     (\<lambda>fs. case kstat fs p of
        Found q \<Rightarrow> (case fmlookup fs q of Some (FileN b) \<Rightarrow> Inr b | _ \<Rightarrow> Inl (is_dir_error env p))
      | Missing _ \<Rightarrow> Inl (os_error env ENOENT p)
      | Failed e \<Rightarrow> Inl (os_error env e p))"

definition kwrite :: "'e tool_env_scheme \<Rightarrow> path \<Rightarrow> pybytes \<Rightarrow> fsys \<Rightarrow> pyexc + fsys" where
  "kwrite env p b fs =
     (case kstat fs p of
        Found q \<Rightarrow> (case fmlookup fs q of
            Some (FileN _) \<Rightarrow> Inr (fmupd q (FileN b) fs)
          | _ \<Rightarrow> Inl (is_dir_error env p))
      | Missing q \<Rightarrow> Inr (fmupd q (FileN b) fs)
      | Failed e \<Rightarrow> Inl (os_error env e p))"

text \<open>\<^verbatim>\<open>Path.write_bytes\<close> truncates the file when it opens it; a write that then fails leaves what it has written.\<close>

definition write_bytes ::
  "'e tool_env_scheme \<Rightarrow> path \<Rightarrow> pybytes \<Rightarrow> ('z tool_st_scheme, unit) eff" where
  "write_bytes env p b =
     bindE (gets (\<lambda>s. write_fault env p b (tfs s))) (\<lambda>w.
     bindE (kcall env OpWrite p (kwrite env p (case w of None \<Rightarrow> b | Some (_, n) \<Rightarrow> take n b))) (\<lambda>fs.
     thenE (modify (tfs_update (\<lambda>_. fs))) (case w of None \<Rightarrow> ret () | Some (x, _) \<Rightarrow> throw x)))"

text \<open>One \<^verbatim>\<open>os.mkdir\<close>; the errno of a refusal is kept apart from a fault.\<close>

definition os_mkdir ::
  "'e tool_env_scheme \<Rightarrow> path \<Rightarrow> ('z tool_st_scheme, (errno + pyexc) option) eff" where
  "os_mkdir env p = (\<lambda>s. case fs_fault env OpMkdir p (tfs s) of
       Some x \<Rightarrow> (Inr (Some (Inr x)), s)
     | None \<Rightarrow>
         (case kmkdir (tfs s) p of
            Inl e \<Rightarrow> (Inr (Some (Inl e)), s)
          | Inr fs \<Rightarrow> (Inr None, s\<lparr>tfs := fs\<rparr>)))"

text \<open>\<^verbatim>\<open>except OSError: if not exist_ok or not self.is_dir(): raise\<close>\<close>

definition unless_dir :: "'e tool_env_scheme \<Rightarrow> path \<Rightarrow> pyexc \<Rightarrow> ('z tool_st_scheme, unit) eff" where
  "unless_dir env p x = bindE (path_is_dir env p) (\<lambda>d. if d then ret () else throw x)"

text \<open>\<^verbatim>\<open>Path.mkdir(parents=False, exist_ok=True)\<close>\<close>

definition mkdir_one :: "'e tool_env_scheme \<Rightarrow> path \<Rightarrow> ('z tool_st_scheme, unit) eff" where
  "mkdir_one env p = bindE (os_mkdir env p) (\<lambda>r. case r of
       None \<Rightarrow> ret ()
     | Some (Inl ENOENT) \<Rightarrow> throw (os_error env ENOENT p)
     | Some (Inl e) \<Rightarrow> unless_dir env p (os_error env e p)
     | Some (Inr x) \<Rightarrow> unless_dir env p x)"

text \<open>\<^verbatim>\<open>Path.mkdir(parents=True, exist_ok=True)\<close>\<close>

function mkdir_parents :: "'e tool_env_scheme \<Rightarrow> path \<Rightarrow> ('z tool_st_scheme, unit) eff" where
  "mkdir_parents env p = bindE (os_mkdir env p) (\<lambda>r. case r of
       None \<Rightarrow> ret ()
     | Some (Inl ENOENT) \<Rightarrow>
         if p = [] then throw (os_error env ENOENT p)
         else thenE (mkdir_parents env (butlast p)) (mkdir_one env p)
     | Some (Inl e) \<Rightarrow> unless_dir env p (os_error env e p)
     | Some (Inr x) \<Rightarrow> unless_dir env p x)"
  by pat_completeness auto
termination
  by (relation "measure (\<lambda>(env, p). length p)") auto

declare mkdir_parents.simps [simp del]

text \<open>
  \<^verbatim>\<open>Path.unlink()\<close> removes a file or a link (not what the link points to), and
  \<^verbatim>\<open>open(path, "a")\<close> finds a file or creates an empty one; it returns the bytes already there.
  Both are used on paths that end in a plain name.
\<close>

definition kunlink :: "'e tool_env_scheme \<Rightarrow> path \<Rightarrow> fsys \<Rightarrow> pyexc + fsys" where
  "kunlink env p fs =
     (case kstat fs (butlast p) of
        Found d \<Rightarrow>
          if fmlookup fs d \<noteq> Some DirN then Inl (os_error env ENOTDIR p)
          else (case fmlookup fs (d @ [last p]) of
             None \<Rightarrow> Inl (os_error env ENOENT p)
           | Some DirN \<Rightarrow> Inl (is_dir_error env p)
           | Some _ \<Rightarrow> Inr (fmdrop (d @ [last p]) fs))
      | Missing _ \<Rightarrow> Inl (os_error env ENOENT p)
      | Failed e \<Rightarrow> Inl (os_error env e p))"

definition unlink :: "'e tool_env_scheme \<Rightarrow> path \<Rightarrow> ('z tool_st_scheme, unit) eff" where
  "unlink env p = bindE (kcall env OpUnlink p (kunlink env p)) (\<lambda>fs. modify (tfs_update (\<lambda>_. fs)))"

definition kappend :: "'e tool_env_scheme \<Rightarrow> path \<Rightarrow> fsys \<Rightarrow> pyexc + (pybytes \<times> fsys)" where
  "kappend env p fs =
     (case kstat fs p of
        Found q \<Rightarrow> (case fmlookup fs q of
            Some (FileN b) \<Rightarrow> Inr (b, fs)
          | _ \<Rightarrow> Inl (is_dir_error env p))
      | Missing q \<Rightarrow> Inr ([], fmupd q (FileN []) fs)
      | Failed e \<Rightarrow> Inl (os_error env e p))"

definition open_append :: "'e tool_env_scheme \<Rightarrow> path \<Rightarrow> ('z tool_st_scheme, pybytes) eff" where
  "open_append env p = bindE (kcall env OpWrite p (kappend env p))
     (\<lambda>(b, fs). thenE (modify (tfs_update (\<lambda>_. fs))) (ret b))"

end
