(* ===== verification/FileSysLemmas.thy ===== *)
theory FileSysLemmas
  imports FileSys
begin

text \<open>
  Well-formed trees and canonical paths. \<^verbatim>\<open>Path.resolve\<close> without a link loop yields a
  canonical path (no component is a link, no \<^verbatim>\<open>.\<close> or \<^verbatim>\<open>..\<close>), and on a canonical path the
  kernel's walk ends at that path itself, so an operation can touch nothing else.
\<close>

section \<open>Well-formed file systems\<close>

definition proper_name :: "pystr \<Rightarrow> bool" where
  "proper_name n \<longleftrightarrow> n \<noteq> [] \<and> n \<noteq> dot \<and> n \<noteq> dotdot"

definition wf_fs :: "fsys \<Rightarrow> bool" where
  "wf_fs fs \<longleftrightarrow> fmlookup fs [] = Some DirN \<and>
     (\<forall>p n. fmlookup fs (p @ [n]) \<noteq> None \<longrightarrow> fmlookup fs p = Some DirN)"

definition canonical :: "fsys \<Rightarrow> path \<Rightarrow> bool" where
  "canonical fs p \<longleftrightarrow>
     (\<forall>q t. prefix q p \<longrightarrow> fmlookup fs q \<noteq> Some (LinkN t)) \<and> list_all proper_name p"

lemma wf_fs_root: "wf_fs fs \<Longrightarrow> fmlookup fs [] = Some DirN"
  by (simp add: wf_fs_def)

lemma wf_fs_ancestor:
  assumes "wf_fs fs" "fmlookup fs (p @ q) \<noteq> None" "q \<noteq> []"
  shows "fmlookup fs p = Some DirN"
  using assms(2,3)
proof (induction q rule: rev_induct)
  case (snoc n q)
  have "fmlookup fs ((p @ q) @ [n]) \<noteq> None" using snoc.prems by simp
  then have "fmlookup fs (p @ q) = Some DirN" using assms(1) unfolding wf_fs_def by blast
  with snoc.IH show ?case by (cases "q = []") auto
qed simp

lemma wf_fs_upd:
  assumes "wf_fs fs" "p \<noteq> []" "fmlookup fs (butlast p) = Some DirN"
    "v = DirN \<or> (\<forall>n. fmlookup fs (p @ [n]) = None)"
  shows "wf_fs (fmupd p v fs)"
  unfolding wf_fs_def
proof (intro conjI allI impI)
  show "fmlookup (fmupd p v fs) [] = Some DirN" using assms(1,2) by (simp add: wf_fs_def)
  fix q n
  assume a: "fmlookup (fmupd p v fs) (q @ [n]) \<noteq> None"
  show "fmlookup (fmupd p v fs) q = Some DirN"
  proof (cases "q @ [n] = p")
    case True
    then have "q = butlast p" "q \<noteq> p" using assms(2) by (auto simp: butlast_append)
    then show ?thesis using assms(3) by simp
  next
    case False
    with a have "fmlookup fs (q @ [n]) \<noteq> None" by simp
    then have "fmlookup fs q = Some DirN" using assms(1) unfolding wf_fs_def by blast
    moreover have "v = DirN" if "p = q" using assms(4) \<open>fmlookup fs (q @ [n]) \<noteq> None\<close> that by auto
    ultimately show ?thesis by simp
  qed
qed

lemma canonical_prefix: "canonical fs p \<Longrightarrow> prefix q p \<Longrightarrow> canonical fs q"
  unfolding canonical_def by (auto simp: prefix_def list_all_iff)

lemma prefix_butlast [simp]: "prefix (butlast p) p"
  by (cases p rule: rev_cases) auto

lemma canonical_butlast: "canonical fs p \<Longrightarrow> canonical fs (butlast p)"
  by (erule canonical_prefix) simp

lemma canonical_root: "wf_fs fs \<Longrightarrow> canonical fs []"
  by (simp add: canonical_def wf_fs_def)

lemma canonical_snoc:
  assumes "canonical fs p" "proper_name n" "\<And>t. fmlookup fs (p @ [n]) \<noteq> Some (LinkN t)"
  shows "canonical fs (p @ [n])"
  using assms unfolding canonical_def by (auto simp: prefix_snoc)

section \<open>Resolved paths are canonical\<close>

lemma realpath_loop_canonical:
  assumes "wf_fs fs" "canonical fs path" "\<And>l q. seen l = Some (Some q) \<Longrightarrow> canonical fs q"
    "realpath_loop fs path w seen = Inr (p, True)"
  shows "canonical fs p"
  using assms
proof (induction fs path w seen rule: realpath_loop.induct)
  case (2 fs path l w seen)
  show ?case by (rule "2.IH") (use "2.prems" in \<open>auto simp: fun_upd_def split: if_split_asm\<close>)
next
  case (3 fs path n w seen)
  consider "n = [] \<or> n = dot" | "n = dotdot" "\<not> (n = [] \<or> n = dot)" | "proper_name n"
    by (auto simp: proper_name_def)
  then show ?case
  proof cases
    case 1
    then have "realpath_loop fs path w seen = Inr (p, True)" using "3.prems"(4) by simp
    then show ?thesis using "3.IH"(1) [OF 1] "3.prems"(1-3) by blast
  next
    case 2
    then have "realpath_loop fs (butlast path) w seen = Inr (p, True)" using "3.prems"(4) by simp
    then show ?thesis
      using "3.IH"(2) [OF 2(2,1)] "3.prems"(1,3) canonical_butlast [OF "3.prems"(2)] by blast
  next
    case n: 3
    then have pn: "\<not> (n = [] \<or> n = dot)" "n \<noteq> dotdot" by (auto simp: proper_name_def)
    have ne: "name_error (path @ [n]) = None" using "3.prems"(4) pn by (auto split: option.splits)
    note step = "3.prems"(4) [unfolded realpath_loop.simps if_not_P [OF pn(1)] if_not_P [OF pn(2)] ne]
    show ?thesis
    proof (cases "\<exists>t. fmlookup fs (path @ [n]) = Some (LinkN t)")
      case False
      then have c: "canonical fs (path @ [n])" using "3.prems"(2) n by (blast intro: canonical_snoc)
      show ?thesis
      proof (cases "fmlookup fs (path @ [n])")
        case None
        with step have "realpath_loop fs (path @ [n]) w seen = Inr (p, True)" by simp
        then show ?thesis using "3.IH"(3) [OF pn ne None] "3.prems"(1,3) c by blast
      next
        case (Some v)
        with step False have "realpath_loop fs (path @ [n]) w seen = Inr (p, True)" by (cases v) auto
        then show ?thesis
          using "3.IH"(4,5) [OF pn ne Some] "3.prems"(1,3) c False Some by (cases v) blast+
      qed
    next
      case True
      then obtain t where t: "fmlookup fs (path @ [n]) = Some (LinkN t)" by blast
      consider (new) "seen (path @ [n]) = None" | (loop) "seen (path @ [n]) = Some None"
        | (cached) q where "seen (path @ [n]) = Some (Some q)"
        by (metis not_None_eq)
      then show ?thesis
      proof cases
        case new
        define base where "base = (if is_abs t then [] else path)"
        have b: "canonical fs base" using "3.prems"(1,2) canonical_root by (simp add: base_def)
        have "realpath_loop fs base (map Part (split_on slash t) @ LinkDone (path @ [n]) # w)
            (seen(path @ [n] \<mapsto> None)) = Inr (p, True)"
          using step t new by (simp add: base_def)
        moreover have "canonical fs q" if "(seen(path @ [n] \<mapsto> None)) l = Some (Some q)" for l q
          using that "3.prems"(3) by (metis fun_upd_apply option.discI option.inject)
        ultimately show ?thesis
          using "3.IH"(6) [OF pn ne t refl new] "3.prems"(1) b unfolding base_def by blast
      next
        case loop
        with step t show ?thesis by simp
      next
        case (cached q)
        with step t have "realpath_loop fs q w seen = Inr (p, True)" by simp
        then show ?thesis
          using "3.IH"(7) [OF pn ne t refl cached refl] "3.prems"(1,3) cached by blast
      qed
    qed
  qed
qed auto

lemma realpath_canonical:
  assumes "wf_fs fs" "canonical fs wd" "realpath fs wd pp = Inr (p, True)"
  shows "canonical fs p"
  using realpath_loop_canonical [OF assms(1) _ _ assms(3) [unfolded realpath_def]]
    canonical_root [OF assms(1)] assms(2) by (auto split: if_splits)

text \<open>A resolution depends on the links of the file system only.\<close>

definition link_at :: "fsys \<Rightarrow> path \<Rightarrow> pystr option" where
  "link_at fs p = (case fmlookup fs p of Some (LinkN t) \<Rightarrow> Some t | _ \<Rightarrow> None)"

lemma link_at_Some: "link_at fs p = Some t \<longleftrightarrow> fmlookup fs p = Some (LinkN t)"
  by (auto simp: link_at_def split: option.splits node.splits)

lemma realpath_loop_Part:
  "realpath_loop fs path (Part n # w) seen =
     (if n = [] \<or> n = dot then realpath_loop fs path w seen
      else if n = dotdot then realpath_loop fs (butlast path) w seen
      else (case name_error (path @ [n]) of
         Some e \<Rightarrow> Inl e
       | None \<Rightarrow>
           (case link_at fs (path @ [n]) of
              Some t \<Rightarrow>
                (case seen (path @ [n]) of
                   Some (Some p) \<Rightarrow> realpath_loop fs p w seen
                 | Some None \<Rightarrow> Inr (path @ [n] @ part_names w, False)
                 | None \<Rightarrow>
                     realpath_loop fs (if is_abs t then [] else path)
                       (map Part (split_on slash t) @ LinkDone (path @ [n]) # w)
                       (seen(path @ [n] \<mapsto> None)))
            | None \<Rightarrow> realpath_loop fs (path @ [n]) w seen)))"
  by (simp add: link_at_def split: option.split node.split)

lemma realpath_loop_links:
  assumes "link_at fs' = link_at fs"
  shows "realpath_loop fs' path w seen = realpath_loop fs path w seen"
  using assms
proof (induction fs path w seen rule: realpath_loop.induct)
  case (3 fs path n w seen)
  consider "n = [] \<or> n = dot" | "\<not> (n = [] \<or> n = dot)" "n = dotdot"
    | e where "\<not> (n = [] \<or> n = dot)" "n \<noteq> dotdot" "name_error (path @ [n]) = Some e"
    | "\<not> (n = [] \<or> n = dot)" "n \<noteq> dotdot" "name_error (path @ [n]) = None" "link_at fs (path @ [n]) = None"
    | t where "\<not> (n = [] \<or> n = dot)" "n \<noteq> dotdot" "name_error (path @ [n]) = None"
        "fmlookup fs (path @ [n]) = Some (LinkN t)"
    by (metis link_at_Some option.exhaust)
  then show ?case
  proof cases
    case 1
    with "3.IH"(1) "3.prems" show ?thesis by simp
  next
    case 2
    with "3.IH"(2) "3.prems" show ?thesis by simp
  next
    case (3 e)
    then show ?thesis by simp
  next
    case 4
    have "realpath_loop fs' (path @ [n]) w seen = realpath_loop fs (path @ [n]) w seen"
    proof (cases "fmlookup fs (path @ [n])")
      case None
      show ?thesis by (rule "3.IH"(3) [OF 4(1-3) None "3.prems"])
    next
      case (Some v)
      then show ?thesis
        using "3.IH"(4,5) [OF 4(1-3) Some] "3.prems" 4(4) by (cases v) (auto simp: link_at_def)
    qed
    with 4 "3.prems" show ?thesis by (simp add: realpath_loop_Part del: realpath_loop.simps(3))
  next
    case (5 t)
    have l: "link_at fs (path @ [n]) = Some t" using 5(4) by (simp add: link_at_def)
    consider (new) "seen (path @ [n]) = None" | (loop) "seen (path @ [n]) = Some None"
      | (cached) q where "seen (path @ [n]) = Some (Some q)"
      by (metis not_None_eq)
    then show ?thesis
    proof cases
      case new
      from "3.IH"(6) [OF 5 refl new "3.prems"] 5(1-3) l new "3.prems" show ?thesis
        by (simp add: realpath_loop_Part del: realpath_loop.simps(3) fun_upd_apply split del: if_split)
    next
      case loop
      with 5(1-3) l "3.prems" show ?thesis by (simp add: realpath_loop_Part del: realpath_loop.simps(3))
    next
      case (cached q)
      from "3.IH"(7) [OF 5 refl cached refl "3.prems"] 5(1-3) l cached "3.prems" show ?thesis
        by (simp add: realpath_loop_Part del: realpath_loop.simps(3))
    qed
  qed
qed simp_all

lemma realpath_links: "link_at fs' = link_at fs \<Longrightarrow> realpath fs' wd pp = realpath fs wd pp"
  unfolding realpath_def by (rule realpath_loop_links)

section \<open>The walk along a canonical path\<close>

lemma walk_canonical:
  assumes "canonical fs (cur @ w)"
  shows "walk fs k cur w = Found q \<Longrightarrow> q = cur @ w \<and> (w \<noteq> [] \<longrightarrow> fmlookup fs q \<noteq> None)"
    and "walk fs k cur w = Missing q \<Longrightarrow> q = cur @ w \<and> fmlookup fs q = None \<and> w \<noteq> [] \<and>
      (fmlookup fs cur = Some DirN \<longrightarrow> fmlookup fs (butlast q) = Some DirN)"
    and "walk fs k cur w \<noteq> Failed ELOOP"
proof -
  have "(\<forall>q. walk fs k cur w = Found q \<longrightarrow> q = cur @ w \<and> (w \<noteq> [] \<longrightarrow> fmlookup fs q \<noteq> None)) \<and>
    (\<forall>q. walk fs k cur w = Missing q \<longrightarrow> q = cur @ w \<and> fmlookup fs q = None \<and> w \<noteq> [] \<and>
      (fmlookup fs cur = Some DirN \<longrightarrow> fmlookup fs (butlast q) = Some DirN)) \<and>
    walk fs k cur w \<noteq> Failed ELOOP"
    using assms
  proof (induction w arbitrary: cur)
    case (Cons n w)
    then have n: "n \<noteq> []" "n \<noteq> dot" "n \<noteq> dotdot" by (auto simp: canonical_def proper_name_def)
    have "prefix (cur @ [n]) (cur @ n # w)" by simp
    then have nl: "fmlookup fs (cur @ [n]) \<noteq> Some (LinkN t)" for t
      using Cons.prems unfolding canonical_def by blast
    have IH: "canonical fs ((cur @ [n]) @ w)" using Cons.prems by simp
    show ?case
    proof (cases "fmlookup fs (cur @ [n])")
      case None
      then show ?thesis using n by (auto simp: butlast_append)
    next
      case (Some v)
      then show ?thesis using n nl Cons.IH [OF IH] by (cases v) auto
    qed
  qed simp
  then show "walk fs k cur w = Found q \<Longrightarrow> q = cur @ w \<and> (w \<noteq> [] \<longrightarrow> fmlookup fs q \<noteq> None)"
    and "walk fs k cur w = Missing q \<Longrightarrow> q = cur @ w \<and> fmlookup fs q = None \<and> w \<noteq> [] \<and>
      (fmlookup fs cur = Some DirN \<longrightarrow> fmlookup fs (butlast q) = Some DirN)"
    and "walk fs k cur w \<noteq> Failed ELOOP"
    by blast+
qed

lemma kstat_Found: "canonical fs p \<Longrightarrow> kstat fs p = Found q \<Longrightarrow> q = p"
  unfolding kstat_def using walk_canonical(1) [of fs "[]" p] by simp

lemma kstat_Missing:
  "wf_fs fs \<Longrightarrow> canonical fs p \<Longrightarrow> kstat fs p = Missing q \<Longrightarrow>
     q = p \<and> fmlookup fs p = None \<and> p \<noteq> [] \<and> fmlookup fs (butlast p) = Some DirN"
  unfolding kstat_def using walk_canonical(2) [of fs "[]" p] by (auto dest: wf_fs_root)

text \<open>An existing node at a canonical path is found.\<close>

lemma walk_present:
  assumes "wf_fs fs" "canonical fs (cur @ w)" "fmlookup fs (cur @ w) \<noteq> None"
  shows "walk fs k cur w = Found (cur @ w)"
  using assms(2,3)
proof (induction w arbitrary: cur)
  case (Cons n w)
  then have n: "n \<noteq> []" "n \<noteq> dot" "n \<noteq> dotdot" by (auto simp: canonical_def proper_name_def)
  have nl: "fmlookup fs (cur @ [n]) \<noteq> Some (LinkN t)" for t
    using Cons.prems(1) unfolding canonical_def by (auto simp: prefix_def)
  show ?case
  proof (cases "w = []")
    case True
    with Cons.prems obtain v where "fmlookup fs (cur @ [n]) = Some v" by auto
    with True n nl show ?thesis by (cases v) auto
  next
    case False
    have "fmlookup fs (cur @ [n]) = Some DirN"
      using wf_fs_ancestor [OF assms(1), of "cur @ [n]" w] Cons.prems(2) False by simp
    with n Cons.IH [of "cur @ [n]"] Cons.prems show ?thesis by simp
  qed
qed simp

lemma kstat_present:
  "wf_fs fs \<Longrightarrow> canonical fs p \<Longrightarrow> fmlookup fs p \<noteq> None \<Longrightarrow> kstat fs p = Found p"
  unfolding kstat_def using walk_present [of fs "[]" p] by simp

lemma lookup_at_canonical:
  assumes "wf_fs fs" "canonical fs p"
  shows "lookup_at fs p = fmlookup fs p"
proof (cases "fmlookup fs p = None")
  case True
  then show ?thesis
    using kstat_Found [OF assms(2)] by (auto simp: lookup_at_def split: walk_result.splits)
next
  case False
  then show ?thesis using kstat_present [OF assms] by (simp add: lookup_at_def)
qed

lemma kwrite_canonical:
  assumes "wf_fs fs" "canonical fs p" "kwrite env p b fs = Inr fs'"
  shows "fs' = fmupd p (FileN b) fs" "p \<noteq> []" "fmlookup fs (butlast p) = Some DirN"
    "\<And>n. fmlookup fs (p @ [n]) = None" "fmlookup fs p \<noteq> Some DirN"
proof -
  have "fs' = fmupd p (FileN b) fs \<and> p \<noteq> [] \<and> fmlookup fs (butlast p) = Some DirN \<and>
      fmlookup fs p \<noteq> Some DirN"
  proof (cases "kstat fs p")
    case (Found q)
    then have q: "q = p" by (rule kstat_Found [OF assms(2)])
    with Found assms(3) obtain c where c: "fmlookup fs p = Some (FileN c)" "fs' = fmupd p (FileN b) fs"
      by (auto simp: kwrite_def split: option.splits node.splits)
    then have "p \<noteq> []" using wf_fs_root [OF assms(1)] by auto
    moreover have "fmlookup fs (butlast p) = Some DirN"
      using wf_fs_ancestor [OF assms(1), of "butlast p" "[last p]"] c \<open>p \<noteq> []\<close> by simp
    ultimately show ?thesis using c by simp
  next
    case (Missing q)
    then show ?thesis using kstat_Missing [OF assms(1,2) Missing] assms(3) by (auto simp: kwrite_def)
  next
    case (Failed e)
    then show ?thesis using assms(3) by (simp add: kwrite_def)
  qed
  then show "fs' = fmupd p (FileN b) fs" "p \<noteq> []" "fmlookup fs (butlast p) = Some DirN"
    "\<And>n. fmlookup fs (p @ [n]) = None" "fmlookup fs p \<noteq> Some DirN"
    using assms(1) unfolding wf_fs_def by blast+
qed

lemma kmkdir_canonical:
  assumes "wf_fs fs" "canonical fs p" "kmkdir fs p = Inr fs'"
  shows "fs' = fmupd p DirN fs" "p \<noteq> []" "fmlookup fs p = None" "fmlookup fs (butlast p) = Some DirN"
proof -
  from assms(3) have p: "p \<noteq> []" by (auto simp: kmkdir_def)
  from assms(3) p obtain d where d: "kstat fs (butlast p) = Found d" "fmlookup fs d = Some DirN"
    "fmlookup fs (d @ [last p]) = None" "fs' = fmupd (d @ [last p]) DirN fs"
    by (auto simp: kmkdir_def split: walk_result.splits if_splits)
  moreover have "d = butlast p" using d(1) by (rule kstat_Found [OF canonical_butlast [OF assms(2)]])
  ultimately show "fs' = fmupd p DirN fs" "p \<noteq> []" "fmlookup fs p = None"
    "fmlookup fs (butlast p) = Some DirN"
    using p by simp_all
qed

section \<open>Directory creation\<close>

text \<open>\<open>grown p fs fs'\<close>: some missing prefixes of \<open>p\<close> have become directories.\<close>

definition grown :: "path \<Rightarrow> fsys \<Rightarrow> fsys \<Rightarrow> bool" where
  "grown p fs fs' \<longleftrightarrow>
     (\<forall>q. fmlookup fs' q = fmlookup fs q \<or>
          (prefix q p \<and> fmlookup fs q = None \<and> fmlookup fs' q = Some DirN))"

lemma grown_refl [simp]: "grown p fs fs"
  by (simp add: grown_def)

lemma grown_trans: "grown p fs1 fs2 \<Longrightarrow> grown p fs2 fs3 \<Longrightarrow> grown p fs1 fs3"
  unfolding grown_def by (metis option.distinct(1))

lemma grown_prefix: "grown q fs fs' \<Longrightarrow> prefix q p \<Longrightarrow> grown p fs fs'"
  unfolding grown_def using prefix_order.trans by blast

lemma grown_canonical: "grown p fs fs' \<Longrightarrow> canonical fs q \<Longrightarrow> canonical fs' q"
  unfolding grown_def canonical_def by (metis node.distinct(5) option.inject)

text \<open>The invariant of directory creation at a canonical path.\<close>

definition dir_inv :: "path \<Rightarrow> fsys \<Rightarrow> 'z tool_st_scheme \<Rightarrow> bool" where
  "dir_inv p fs0 s \<longleftrightarrow> wf_fs (tfs s) \<and> canonical (tfs s) p \<and> grown p fs0 (tfs s)"

lemma os_mkdir_inv:
  assumes "prefix q p"
  shows "preserves (dir_inv p fs0) (os_mkdir env q)"
proof (rule preservesI)
  fix s y t assume inv: "dir_inv p fs0 s" and m: "os_mkdir env q s = (y, t)"
  show "dir_inv p fs0 t"
  proof (cases "t = s")
    case False
    with m obtain fs' where k: "kmkdir (tfs s) q = Inr fs'" "t = s\<lparr>tfs := fs'\<rparr>"
      by (auto simp: os_mkdir_def split: option.splits sum.splits)
    have wf: "wf_fs (tfs s)" and cq: "canonical (tfs s) q"
      using inv assms by (auto simp: dir_inv_def intro: canonical_prefix)
    note km = kmkdir_canonical [OF wf cq k(1)]
    have g: "grown p (tfs s) fs'" using km(1,3) assms by (simp add: grown_def)
    moreover have "wf_fs fs'" using wf_fs_upd [OF wf km(2) km(4)] km(1) by simp
    ultimately show ?thesis
      using inv k(2) by (auto simp: dir_inv_def intro: grown_trans grown_canonical)
  qed (use inv in simp)
qed

lemma preserves_kcall: "preserves P (kcall env op q f)"
  by (auto simp: kcall_def intro!: preservesI split: option.splits)

lemma unless_dir_inv: "preserves P (unless_dir env q x)"
  by (auto simp: unless_dir_def path_is_dir_def intro!: preserves_bind preserves_kcall)

lemma mkdir_one_inv: "prefix q p \<Longrightarrow> preserves (dir_inv p fs0) (mkdir_one env q)"
  unfolding mkdir_one_def
  by (rule preserves_bind [OF os_mkdir_inv])
    (auto split: option.splits sum.splits errno.splits intro: unless_dir_inv)

lemma mkdir_parents_inv: "prefix q p \<Longrightarrow> preserves (dir_inv p fs0) (mkdir_parents env q)"
proof (induction env q rule: mkdir_parents.induct)
  case (1 env q)
  have b: "prefix (butlast q) p" using prefix_order.trans [OF prefix_butlast 1(2)] .
  show ?case
    apply (subst mkdir_parents.simps)
    apply (rule preserves_bind [OF os_mkdir_inv [OF 1(2)]])
    using 1 b mkdir_one_inv
    by (auto split: option.splits sum.splits errno.splits intro!: unless_dir_inv preserves_then)
qed

section \<open>File operations leave the trace alone\<close>

definition same_trace :: "'z tool_st_scheme \<Rightarrow> 'z tool_st_scheme \<Rightarrow> bool" where
  "same_trace s t \<longleftrightarrow> writer_view t = writer_view s \<and> os_reads t = os_reads s \<and> ew_step t = ew_step s
     \<and> tool_st.more t = tool_st.more s"

lemma reflp_same_trace [simp]: "reflp same_trace"
  by (simp add: reflp_def same_trace_def)

lemma transp_same_trace [simp]: "transp same_trace"
  by (simp add: transp_def same_trace_def)

named_theorems trace_frame \<open>Operations that leave the trace alone\<close>

lemma kcall_frame [trace_frame]: "keeps same_trace (kcall env op p f)"
  by (auto simp: keeps_def kcall_def same_trace_def split: option.splits)

lemma path_ops_frame [trace_frame]:
  "keeps same_trace (path_exists env p)" "keeps same_trace (path_is_file env p)"
  "keeps same_trace (path_is_dir env p)" "keeps same_trace (st_size env p)"
  "keeps same_trace (read_bytes env p)"
  by (simp_all add: path_exists_def path_is_file_def path_is_dir_def st_size_def read_bytes_def kcall_frame)

lemma write_bytes_frame [trace_frame]: "keeps same_trace (write_bytes env p b)"
  unfolding write_bytes_def
  by (intro keeps_intros keeps_modify kcall_frame) (auto simp: same_trace_def writer_view_def intro!: keeps_stateless split: option.splits)

lemma os_mkdir_frame: "keeps same_trace (os_mkdir env p)"
  by (auto simp: keeps_def os_mkdir_def same_trace_def writer_view_def split: option.splits sum.splits)

lemma unless_dir_frame: "keeps same_trace (unless_dir env p x)"
  unfolding unless_dir_def by (intro keeps_intros trace_frame) simp_all

lemma mkdir_one_frame: "keeps same_trace (mkdir_one env p)"
  unfolding mkdir_one_def
  by (rule keeps_bind [OF _ os_mkdir_frame])
    (auto split: option.splits sum.splits errno.splits intro!: keeps_stateless unless_dir_frame)

lemma mkdir_parents_frame [trace_frame]: "keeps same_trace (mkdir_parents env p)"
proof (induction env p rule: mkdir_parents.induct)
  case (1 env p)
  then show ?case
    by (subst mkdir_parents.simps)
      (rule keeps_bind [OF _ os_mkdir_frame],
       auto split: option.splits sum.splits errno.splits
         intro!: keeps_stateless unless_dir_frame keeps_then mkdir_one_frame)
qed

end
