(* ===== verification/TraceInvariants.thy ===== *)
theory TraceInvariants
  imports Events
begin

text \<open>
  Invariants of the trace that every emit keeps: each envelope carries the schema and the task
  id, the file holds one line per logged envelope, a system clock orders the events, and a
  replay clock reproduces the recorded time stamps. Each is an instance of the
  \<open>trace_invariant\<close> interface, so the loop inherits all of them.
\<close>

section \<open>Envelopes\<close>

definition envelopes_ok :: "'z writer_st_scheme \<Rightarrow> bool" where
  "envelopes_ok s \<longleftrightarrow> (\<forall>e \<in> set (ew_log s). e_schema e = SCHEMA \<and> e_task_id e = ew_task_id s)"

lemma emit_envelopes_ok: "preserves envelopes_ok (emit env ty data)"
  unfolding preserves_def
  by (rule emitter.sink_hoare)
    (auto simp: envelopes_ok_def stamped_def mk_envelope_def emit_frame_def)

interpretation envelopes: trace_invariant env "envelopes_ok :: 'z writer_st_scheme \<Rightarrow> bool" for env
  by unfold_locales (simp_all add: emit_envelopes_ok envelopes_ok_def writer_view_def)

section \<open>The file holds the log\<close>

text \<open>
  The events written before the first write that failed: all of the log when none did. The file begins with
  their lines, and when no write has failed it consists of them.
\<close>

fun upto_tear :: "nat option \<Rightarrow> 'a list \<Rightarrow> 'a list" where
  "upto_tear None xs = xs"
| "upto_tear (Some n) xs = take n xs"

definition whole :: "'z writer_st_scheme \<Rightarrow> envelope list" where
  "whole s = upto_tear (ew_torn s) (ew_log s)"

definition jsonl :: "pystr list \<Rightarrow> pystr" where
  "jsonl ls = concat (map (\<lambda>l. l @ [nl]) ls)"

definition lines_ok :: "'e writer_env_scheme \<Rightarrow> 'z writer_st_scheme \<Rightarrow> pystr list \<Rightarrow> pybytes \<Rightarrow> bool" where
  "lines_ok env s ls rest \<longleftrightarrow> list_all2 (\<lambda>l e. model_dump_json env e = Inr l) ls (whole s) \<and>
     list_all scalar (jsonl ls) \<and> ew_file s = enc_all (jsonl ls) @ rest \<and>
     (ew_torn s = None \<longrightarrow> rest = [] \<and> ew_buf s = []) \<and> (\<forall>n. ew_torn s = Some n \<longrightarrow> n \<le> length (ew_log s))"

definition file_ok :: "'e writer_env_scheme \<Rightarrow> 'z writer_st_scheme \<Rightarrow> bool" where
  "file_ok env s \<longleftrightarrow> (\<exists>ls rest. lines_ok env s ls rest)"

lemma file_ok_view:
  "file_ok env s \<Longrightarrow> (ew_file t, ew_buf t, ew_torn t) = (ew_file s, ew_buf s, ew_torn s) \<Longrightarrow> ew_log t = ew_log s \<Longrightarrow> file_ok env t"
  by (simp add: file_ok_def lines_ok_def whole_def)

lemma file_ok_snoc:
  assumes "file_ok env s" "model_dump_json env e = Inr js" "utf8_encode (js @ [nl]) = Inr b"
    "(ew_file t, ew_buf t, ew_torn t) = (ew_file s @ ew_buf s @ b, [], ew_torn s)" "ew_log t = ew_log s @ [e]"
  shows "file_ok env t"
proof -
  from assms(1) obtain ls rest where ls: "lines_ok env s ls rest" by (auto simp: file_ok_def)
  have b: "b = enc_all (js @ [nl])" "list_all scalar (js @ [nl])" using assms(3) by (auto simp: utf8_encode_def split: if_splits)
  show ?thesis
  proof (cases "ew_torn s")
    case None
    with assms(2,4,5) ls b have "lines_ok env t (ls @ [js]) []"
      by (simp add: lines_ok_def whole_def jsonl_def list_all2_appendI)
    then show ?thesis unfolding file_ok_def by blast
  next
    case (Some n)
    with assms(4,5) ls have "lines_ok env t ls (rest @ ew_buf s @ b)" by (simp add: lines_ok_def whole_def)
    then show ?thesis unfolding file_ok_def by blast
  qed
qed

lemma file_ok_torn:
  assumes "file_ok env s" "t = s\<lparr>os_reads := n, ew_file := ew_file s @ c, ew_buf := b, ew_torn := torn_now s\<rparr>"
  shows "file_ok env t"
proof -
  from assms(1) obtain ls rest where ls: "lines_ok env s ls rest" by (auto simp: file_ok_def)
  have "lines_ok env t ls (rest @ c)"
    using ls by (cases "ew_torn s") (simp_all add: assms(2) lines_ok_def whole_def torn_now_def)
  then show ?thesis unfolding file_ok_def by blast
qed

lemma emit_file_ok: "preserves (file_ok env) (emit env ty data)"
proof (rule preservesI)
  fix s y t assume ok: "file_ok env s" and e: "emit env ty data s = (y, t)"
  from e show "file_ok env t"
  proof (cases rule: emit_cases)
    case (early n x)
    then show ?thesis by (intro file_ok_view [OF ok]) simp_all
  next
    case (torn n x c b)
    then show ?thesis by (intro file_ok_torn [OF ok])
  next
    case (written n e js z u b)
    with after_write_cases(1) [OF written(8)] show ?thesis
      by (intro file_ok_snoc [OF ok written(2,3)]) auto
  qed
qed

interpretation trace_file: trace_invariant env "file_ok env :: 'z writer_st_scheme \<Rightarrow> bool" for env
  by unfold_locales (simp_all add: emit_file_ok, auto simp: writer_view_def intro: file_ok_view)

text \<open>
  The documented behaviour of the JSON layer: one compact line without raw line breaks or
  surrounding white space, which parses back to the envelope.
\<close>

definition json_lines :: "(envelope \<Rightarrow> pyexc + pystr) \<Rightarrow> (pystr \<Rightarrow> pyexc + envelope) \<Rightarrow> bool" where
  "json_lines dump load \<longleftrightarrow>
     (\<forall>e l. dump e = Inr l \<longrightarrow>
        load l = Inr e \<and> l \<noteq> [] \<and> nl \<notin> set l \<and> cr \<notin> set l \<and> \<not> is_space (hd l) \<and> \<not> is_space (last l))"

lemma split_lines: "\<forall>l \<in> set ls. nl \<notin> set l \<Longrightarrow> split_on nl (jsonl ls) = ls @ [[]]"
  by (induction ls) (simp_all add: jsonl_def split_on_append_sep split_on_id)

lemma read_lines_dumped:
  assumes "json_lines dump load" "list_all2 (\<lambda>l e. dump e = Inr l) ls es"
  shows "read_lines load (ls @ [[]]) = Inr es"
  using assms(2)
proof (induction rule: list_all2_induct)
  case Nil
  show ?case by (simp add: strip_def)
next
  case (Cons l ls e es)
  with assms(1) have l: "load l = Inr e" "l \<noteq> []" "strip l = l"
    by (auto simp: json_lines_def intro!: strip_id)
  with Cons show ?case by simp
qed

lemma read_jsonl:
  assumes codec: "json_lines dump load" and ls: "list_all2 (\<lambda>l e. dump e = Inr l) ls es"
  shows "read_events load (jsonl ls) = Inr es"
proof -
  have clean: "nl \<notin> set l \<and> cr \<notin> set l" if "l \<in> set ls" for l
    using codec ls that unfolding json_lines_def list_all2_conv_all_nth in_set_conv_nth by blast
  then have "cr \<notin> set (jsonl ls)" by (auto simp: jsonl_def)
  moreover have "split_on nl (jsonl ls) = ls @ [[]]" using clean by (simp add: split_lines)
  ultimately show ?thesis
    using read_lines_dumped [OF codec ls] by (simp add: read_events_def universal_newlines_id)
qed

text \<open>The file is the encoding of a text that reads back as the whole events, followed by what came after a failed write.\<close>

lemma read_back:
  assumes "json_lines (model_dump_json env) load" "file_ok env s"
  shows "\<exists>text rest. ew_file s = enc_all text @ rest \<and> utf8_decode (enc_all text) = Inr text \<and>
    read_events load text = Inr (whole s) \<and> (ew_torn s = None \<longrightarrow> rest = [] \<and> whole s = ew_log s)"
proof -
  from assms(2) obtain ls rest where "lines_ok env s ls rest" by (auto simp: file_ok_def)
  then have ls: "list_all2 (\<lambda>l e. model_dump_json env e = Inr l) ls (whole s)"
    "list_all scalar (jsonl ls)" "ew_file s = enc_all (jsonl ls) @ rest" "ew_torn s = None \<longrightarrow> rest = []"
    by (simp_all add: lines_ok_def)
  have "utf8_decode (enc_all (jsonl ls)) = Inr (jsonl ls)"
    using utf8_decode_encode [of "jsonl ls"] ls(2) by (simp add: utf8_encode_def)
  with read_jsonl [OF assms(1) ls(1)] ls show ?thesis
    by (intro exI [of _ "jsonl ls"] exI [of _ rest]) (simp add: whole_def)
qed

section \<open>Order of events\<close>

definition ordered :: "'e writer_env_scheme \<Rightarrow> 'z writer_st_scheme \<Rightarrow> bool" where
  "ordered env s \<longleftrightarrow> clk s = SystemClock \<and> sorted (map e_mono (ew_log s)) \<and>
     (\<forall>e \<in> set (ew_log s). e_mono e \<le> os_mono env (os_reads s))"

lemma ordered_later: "mono (os_mono env) \<Longrightarrow> ordered env s \<Longrightarrow> writer_view t = writer_view s \<Longrightarrow>
  os_reads s \<le> os_reads t \<Longrightarrow> ordered env t"
  unfolding ordered_def writer_view_def by (auto dest: monoD intro: order_trans)

lemma monotonic_ns_system:
  "clk s = SystemClock \<Longrightarrow> monotonic_ns env s = (Inr m, t) \<Longrightarrow>
     m = os_mono env (os_reads s) \<and> os_reads t = Suc (os_reads s)"
  by (auto simp: monotonic_ns_def os_read_def)

lemma emit_ordered:
  assumes m: "mono (os_mono env)"
  shows "preserves (ordered env) (emit env ty data)"
proof (rule preservesI)
  fix s y t assume ok: "ordered env s" and e: "emit env ty data s = (y, t)"
  from e show "ordered env t"
  proof (cases rule: emit_cases)
    case (early n x)
    with ok m show ?thesis by (intro ordered_later [OF m ok]) (simp_all add: writer_view_def)
  next
    case (torn n x c b)
    then have "ordered env (s\<lparr>os_reads := n\<rparr>)" by (intro ordered_later [OF m ok]) (simp_all add: writer_view_def)
    with torn(3) show ?thesis by (simp add: ordered_def)
  next
    case (written n e js z u b)
    have sys: "clk s = SystemClock" using ok by (simp add: ordered_def)
    then have "clk z = SystemClock" using written(4) by (auto dest: now_iso_frame)
    from monotonic_ns_system [OF this written(5)]
    have mn: "e_mono e = os_mono env (os_reads z)" "n = Suc (os_reads z)" by simp_all
    have "os_mono env (os_reads s) \<le> e_mono e" "e_mono e \<le> os_mono env n"
      using m mn written(9) monoD [OF m, of "os_reads z" n] by (auto dest: monoD)
    then have "ordered env u"
      using ok written(6) by (fastforce simp: ordered_def sorted_append)
    moreover have "clk t = SystemClock"
      using written(8) sys written(6)
      by (auto simp: thenE_def bindE_def ret_def tick_def echo_write_def split: option.splits)
    ultimately show ?thesis
      using after_write_cases(1) [OF written(8)] by (simp add: ordered_def)
  qed
qed

interpretation event_order: trace_invariant env
  "\<lambda>s :: 'z writer_st_scheme. mono (os_mono env) \<longrightarrow> ordered env s" for env
proof unfold_locales
  fix ty data
  show "preserves (\<lambda>s :: 'z writer_st_scheme. mono (os_mono env) \<longrightarrow> ordered env s) (emit env ty data)"
    by (cases "mono (os_mono env)") (auto simp: emit_ordered intro: preservesI)
qed (blast intro: ordered_later)

section \<open>Replay\<close>

definition time_stamp :: "envelope \<Rightarrow> pystr \<times> int" where
  "time_stamp e = (e_ts e, e_mono e)"

definition replaying :: "(pystr \<times> int) list \<Rightarrow> 'z writer_st_scheme \<Rightarrow> bool" where
  "replaying pairs s \<longleftrightarrow> ew_echo s = None \<and> clk s = ReplayClock pairs (length (ew_log s)) \<and>
     map time_stamp (ew_log s) = take (length (ew_log s)) pairs"

lemma replaying_length: "replaying pairs s \<Longrightarrow> length (ew_log s) \<le> length pairs"
  unfolding replaying_def by (metis length_map length_take min.absorb_iff2 min.cobounded1)

lemma emit_replaying: "preserves (replaying pairs) (emit env ty data)"
proof (rule preservesI)
  fix s y t assume ok: "replaying pairs s" and e: "emit env ty data s = (y, t)"
  from e show "replaying pairs t"
  proof (cases rule: emit_cases)
    case (early n x)
    with ok show ?thesis by (simp add: replaying_def)
  next
    case (torn n x c b)
    with ok show ?thesis by (simp add: replaying_def)
  next
    case (written n e js z u b)
    let ?i = "length (ew_log s)"
    have c: "clk s = ReplayClock pairs ?i" using ok by (simp add: replaying_def)
    have i: "?i < length pairs"
      using written(4) c replay_exhausted(1) [OF c, of env] by (cases "?i < length pairs") auto
    note r = replay_read [OF c i]
    from written(4) r(1) [of env] have z: "z = s" "e_ts e = fst (pairs ! ?i)" by auto
    with written(5) r(2) [of env] have m: "e_mono e = snd (pairs ! ?i)" by auto
    have "t = u\<lparr>clk := ReplayClock pairs (Suc ?i)\<rparr>"
      using written(6,8) ok c i
      by (auto simp: replaying_def thenE_def bindE_def ret_def echo_write_def tick_def replay_next_def)
    then show ?thesis
      using written(6) ok z m i by (simp add: replaying_def time_stamp_def take_Suc_conv_app_nth)
  qed
qed

interpretation replay_stamps: trace_invariant env "replaying pairs :: 'z writer_st_scheme \<Rightarrow> bool" for env pairs
  by unfold_locales (simp_all add: emit_replaying replaying_def writer_view_def)

end
