(* ===== verification/Sha256.thy ===== *)
theory Sha256
  imports Utf8 "HOL-Library.Word"
begin

text \<open>
  SHA-256 (FIPS 180-4) over 32-bit words, as \<^verbatim>\<open>hashlib.sha256(data).hexdigest()\<close> computes it.
  The event stream identifies requests, responses and file contents by this digest.
\<close>

unbundle bit_operations_syntax

type_synonym w32 = "32 word"

text \<open>
  The round constants, in decimal: the first 32 bits of the fractional parts of the cube roots of the
  first 64 primes; the initial state has those of the square roots of the first eight.
\<close>

definition sha_k :: "w32 list" where
  "sha_k =
   [1116352408, 1899447441, 3049323471, 3921009573, 961987163, 1508970993, 2453635748, 2870763221,
    3624381080, 310598401, 607225278, 1426881987, 1925078388, 2162078206, 2614888103, 3248222580,
    3835390401, 4022224774, 264347078, 604807628, 770255983, 1249150122, 1555081692, 1996064986,
    2554220882, 2821834349, 2952996808, 3210313671, 3336571891, 3584528711, 113926993, 338241895,
    666307205, 773529912, 1294757372, 1396182291, 1695183700, 1986661051, 2177026350, 2456956037,
    2730485921, 2820302411, 3259730800, 3345764771, 3516065817, 3600352804, 4094571909, 275423344,
    430227734, 506948616, 659060556, 883997877, 958139571, 1322822218, 1537002063, 1747873779,
    1955562222, 2024104815, 2227730452, 2361852424, 2428436474, 2756734187, 3204031479, 3329325298]"

definition sha_init :: "w32 list" where
  "sha_init =
   [1779033703, 3144134277, 1013904242, 2773480762, 1359893119, 2600822924, 528734635, 1541459225]"

definition rotr32 :: "nat \<Rightarrow> w32 \<Rightarrow> w32" where
  "rotr32 n x = drop_bit n x OR push_bit (32 - n) x"

definition big_sigma0 :: "w32 \<Rightarrow> w32" where
  "big_sigma0 x = rotr32 2 x XOR rotr32 13 x XOR rotr32 22 x"

definition big_sigma1 :: "w32 \<Rightarrow> w32" where
  "big_sigma1 x = rotr32 6 x XOR rotr32 11 x XOR rotr32 25 x"

definition small_sigma0 :: "w32 \<Rightarrow> w32" where
  "small_sigma0 x = rotr32 7 x XOR rotr32 18 x XOR drop_bit 3 x"

definition small_sigma1 :: "w32 \<Rightarrow> w32" where
  "small_sigma1 x = rotr32 17 x XOR rotr32 19 x XOR drop_bit 10 x"

text \<open>The message schedule, newest word first.\<close>

fun extend_schedule :: "nat \<Rightarrow> w32 list \<Rightarrow> w32 list" where
  "extend_schedule 0 ws = ws"
| "extend_schedule (Suc n) ws =
     extend_schedule n
       ((small_sigma1 (ws ! 1) + ws ! 6 + small_sigma0 (ws ! 14) + ws ! 15) # ws)"

definition schedule :: "w32 list \<Rightarrow> w32 list" where
  "schedule block = rev (extend_schedule 48 (rev block))"

fun sha_round :: "w32 list \<Rightarrow> w32 \<times> w32 \<Rightarrow> w32 list" where
  "sha_round [a, b, c, d, e, f, g, h] (k, w) =
     (let t1 = h + big_sigma1 e + ((e AND f) XOR (NOT e AND g)) + k + w;
          t2 = big_sigma0 a + ((a AND b) XOR (a AND c) XOR (b AND c))
      in [t1 + t2, a, b, c, d + t1, e, f, g])"
| "sha_round st _ = st"

definition compress :: "w32 list \<Rightarrow> w32 list \<Rightarrow> w32 list" where
  "compress st block = map2 (+) st (foldl sha_round st (zip sha_k (schedule block)))"

fun bytes_of_nat :: "nat \<Rightarrow> nat \<Rightarrow> pybytes" where
  "bytes_of_nat 0 n = []"
| "bytes_of_nat (Suc w) n = bytes_of_nat w (n div 256) @ [n mod 256]"

definition sha_pad :: "pybytes \<Rightarrow> pybytes" where
  "sha_pad m = m @ [128] @ replicate ((119 - length m mod 64) mod 64) 0 @ bytes_of_nat 8 (8 * length m)"

definition word_of_bytes :: "pybytes \<Rightarrow> w32" where
  "word_of_bytes bs = foldl (\<lambda>w b. push_bit 8 w OR of_nat b) 0 bs"

text \<open>Cutting a list into consecutive pieces of a positive length.\<close>

fun pieces :: "nat \<Rightarrow> nat \<Rightarrow> 'a list \<Rightarrow> 'a list list" where
  "pieces 0 k xs = []"
| "pieces (Suc n) k xs = (if xs = [] then [] else take k xs # pieces n k (drop k xs))"

definition sha256 :: "pybytes \<Rightarrow> w32 list" where
  "sha256 m =
     (let p = sha_pad m
      in foldl (\<lambda>st b. compress st (map word_of_bytes (pieces 16 4 b))) sha_init
           (pieces (length p div 64) 64 p))"

definition hexdigest :: "pybytes \<Rightarrow> pystr" where
  "hexdigest m = concat (map (\<lambda>w. show_hex 8 (unat w)) (sha256 m))"

section \<open>Shape of a digest\<close>

lemma length_sha_round [simp]: "length (sha_round st kw) = length st"
  by (cases "(st, kw)" rule: sha_round.cases) (simp_all add: Let_def)

lemma length_foldl_sha_round [simp]: "length (foldl sha_round st kws) = length st"
  by (induction kws arbitrary: st) simp_all

lemma length_sha256: "length (sha256 m) = 8"
proof -
  have "length (foldl (\<lambda>st b. compress st (f b)) st bs) = length st" for f and bs :: "pybytes list" and st
    by (induction bs arbitrary: st) (simp_all add: compress_def)
  then show ?thesis by (simp add: sha256_def Let_def sha_init_def)
qed

lemma length_show_hex [simp]: "length (show_hex w n) = w"
  by (induction w arbitrary: n) simp_all

lemma length_hexdigest: "length (hexdigest m) = 64"
  using length_sha256 [of m] by (simp add: hexdigest_def length_concat comp_def sum_list_triv)

lemma sha_pad_block: "64 dvd length (sha_pad m)"
proof -
  have b: "length (bytes_of_nat w n) = w" for w n by (induction w arbitrary: n) simp_all
  define r where "r = length m mod 64"
  have r: "r < 64" by (simp add: r_def)
  have "length (sha_pad m) = length m div 64 * 64 + (r + 9 + (119 - r) mod 64)"
    by (simp add: sha_pad_def b r_def)
  moreover have "64 dvd r + 9 + (119 - r) mod 64"
  proof (cases "r \<le> 55")
    case True
    then have "119 - r = 64 + (55 - r)" by simp
    then have "(119 - r) mod 64 = (55 - r) mod 64" by (simp only: mod_add_self1)
    also have "\<dots> = 55 - r" by simp
    finally show ?thesis using True by simp
  next
    case False
    then have "(119 - r) mod 64 = 119 - r" by simp
    then show ?thesis using False r by simp
  qed
  ultimately show ?thesis by (metis dvd_add dvd_triv_right)
qed

end
