(* ===== verification/ToolBase.thy ===== *)
theory ToolBase
  imports FileSysLemmas TraceInvariants Sha256
begin

text \<open>
  The tool protocol (\<^verbatim>\<open>tools/base.py\<close>): results, contexts, the clamping \<^verbatim>\<open>Tool.run\<close>, the
  \<^verbatim>\<open>file_mutation\<close> helper, and the interface \<open>tool_impl\<close> that every tool's \<^verbatim>\<open>_run\<close> satisfies:
  all a tool does to the trace is emit \<^verbatim>\<open>file_mutation\<close> events.
\<close>

section \<open>Results and contexts\<close>

definition MAX_INLINE_RESULT_BYTES :: nat where
  "MAX_INLINE_RESULT_BYTES = 64 * 1024"

record tool_result =
  content :: pystr
  exit_code :: int
  is_error :: bool
  truncated :: bool

text \<open>\<^verbatim>\<open>ToolResult(content=c, exit_code=2, is_error=True)\<close> and \<^verbatim>\<open>ToolResult(content=c, exit_code=0)\<close>\<close>

definition usage_error :: "pystr \<Rightarrow> tool_result" where
  "usage_error c = \<lparr>content = c, exit_code = 2, is_error = True, truncated = False\<rparr>"

definition tool_ok :: "pystr \<Rightarrow> tool_result" where
  "tool_ok c = \<lparr>content = c, exit_code = 0, is_error = False, truncated = False\<rparr>"

text \<open>The event writer and the clock of a context are the shared state.\<close>

record tool_ctx =
  workspace :: purepath
  timeout_seconds :: int

section \<open>Tool.run\<close>

definition truncation_mark :: pystr where
  "truncation_mark = nl # lit ''[truncated]''"

definition clamp :: "tool_result \<Rightarrow> pyexc + tool_result" where
  "clamp r =
     (case utf8_encode (content r) of
        Inl x \<Rightarrow> Inl x
      | Inr bs \<Rightarrow>
          if MAX_INLINE_RESULT_BYTES < length bs
          then Inr (r\<lparr>content := utf8_decode_replace (take MAX_INLINE_RESULT_BYTES bs) @ truncation_mark,
                      truncated := True\<rparr>)
          else Inr r)"

definition tool_run :: "(pydict \<Rightarrow> ('s, tool_result) eff) \<Rightarrow> pydict \<Rightarrow> ('s, tool_result) eff" where
  "tool_run impl args = bindE (impl args) (\<lambda>r. of_sum (clamp r))"

text \<open>The pieces of an input schema, and \<^verbatim>\<open>Tool.schema()\<close>.\<close>

definition str_prop :: "string \<Rightarrow> json" where
  "str_prop d = JObj [(lit ''type'', JStr (lit ''string'')), (lit ''description'', JStr (lit d))]"

definition line_prop :: "string \<Rightarrow> json" where
  "line_prop d = JObj [(lit ''type'', JStr (lit ''integer'')), (lit ''minimum'', JInt 1),
     (lit ''description'', JStr (lit d))]"

definition object_schema :: "(string \<times> json) list \<Rightarrow> string list \<Rightarrow> json" where
  "object_schema props required = JObj
     [(lit ''type'', JStr (lit ''object'')),
      (lit ''properties'', JObj (map (\<lambda>(k, v). (lit k, v)) props)),
      (lit ''required'', JList (map (\<lambda>k. JStr (lit k)) required))]"

definition tool_schema :: "string \<Rightarrow> pystr \<Rightarrow> json \<Rightarrow> json" where
  "tool_schema name description input_schema = JObj
     [(lit ''name'', JStr (lit name)), (lit ''description'', JStr description),
      (lit ''input_schema'', input_schema)]"

section \<open>Helpers of the file tools\<close>

definition sha256_bytes :: "pybytes \<Rightarrow> pystr" where
  "sha256_bytes b = lit ''sha256:'' @ hexdigest b"

definition mutation_data :: "path \<Rightarrow> purepath \<Rightarrow> string \<Rightarrow> nat \<Rightarrow> nat \<Rightarrow> pybytes \<Rightarrow> pydict" where
  "mutation_data p ws operation size_before size_after contents_after =
     [(lit ''path'', JStr (case relative_to p ws of Some r \<Rightarrow> rel_str r | None \<Rightarrow> path_str p)),
      (lit ''operation'', JStr (lit operation)),
      (lit ''size_before'', JInt (int size_before)),
      (lit ''size_after'', JInt (int size_after)),
      (lit ''hash_after'', JStr (if operation \<noteq> ''delete'' then sha256_bytes contents_after else []))]"

definition emit_file_mutation ::
  "'e tool_env_scheme \<Rightarrow> path \<Rightarrow> purepath \<Rightarrow> string \<Rightarrow> nat \<Rightarrow> nat \<Rightarrow> pybytes \<Rightarrow>
     ('z tool_st_scheme, unit) eff" where
  "emit_file_mutation env p ws operation size_before size_after contents_after =
     thenE (emit env file_mutation
       (mutation_data p ws operation size_before size_after contents_after)) (ret ())"

text \<open>
  The guard the three file tools share: resolve the argument against the workspace, then
  \<^verbatim>\<open>target.relative_to(workspace.resolve())\<close> with its \<^verbatim>\<open>except ValueError\<close> (of which
  \<^verbatim>\<open>UnicodeEncodeError\<close> is a subclass). \<open>None\<close> means the path escapes.
\<close>

definition value_error :: "pyexc \<Rightarrow> bool" where
  "value_error x \<longleftrightarrow> exc_type x \<in> {ValueError, UnicodeEncodeError, UnicodeDecodeError}"

definition workspace_target ::
  "'e tool_env_scheme \<Rightarrow> tool_ctx \<Rightarrow> pystr \<Rightarrow> fsys \<Rightarrow> pyexc + path option" where
  "workspace_target env ctx path_arg fs =
     (case resolve (str_repr env) fs (cwd env) (pure_join (workspace ctx) (pure_path path_arg)) of
        Inl x \<Rightarrow> Inl x
      | Inr target \<Rightarrow>
          (case resolve (str_repr env) fs (cwd env) (workspace ctx) of
             Inl x \<Rightarrow> if value_error x then Inr None else Inl x
           | Inr ws \<Rightarrow>
               Inr (if relative_to target \<lparr>pp_root = 1, pp_parts = ws\<rparr> = None
                    then None else Some target)))"

definition get_target ::
  "'e tool_env_scheme \<Rightarrow> tool_ctx \<Rightarrow> pystr \<Rightarrow> ('z tool_st_scheme, path option) eff" where
  "get_target env ctx path_arg = (\<lambda>s. (workspace_target env ctx path_arg (tfs s), s))"

section \<open>The interface of a tool\<close>

text \<open>
  What a tool may do to the state, as a step relation: emit a \<^verbatim>\<open>file_mutation\<close> event with the data
  \<^verbatim>\<open>emit_file_mutation\<close> builds, or change the file system without touching the trace.
\<close>

definition mutation_op :: "string \<Rightarrow> bool" where
  "mutation_op operation \<longleftrightarrow> operation = ''create'' \<or> operation = ''edit''"

lemma mutation_ops [simp]: "mutation_op ''create''" "mutation_op ''edit''"
  "mutation_op (if b then ''edit'' else ''create'')"
  by (simp_all add: mutation_op_def)

inductive tool_steps :: "'e tool_env_scheme \<Rightarrow> 'z tool_st_scheme \<Rightarrow> 'z tool_st_scheme \<Rightarrow> bool"
  for env where
  stop: "tool_steps env s s"
| emits: "tool_steps env s t \<Longrightarrow> mutation_op operation \<Longrightarrow>
    emit env file_mutation (mutation_data p ws operation m n b) t = (y, u) \<Longrightarrow> tool_steps env s u"
| quiet: "tool_steps env s t \<Longrightarrow> same_trace t u \<Longrightarrow> tool_steps env s u"

lemma reflp_tool_steps [simp]: "reflp (tool_steps env)"
  by (rule reflpI) (rule tool_steps.stop)

lemma transp_tool_steps [simp]: "transp (tool_steps env)"
proof (rule transpI)
  fix s t u assume "tool_steps env s t" "tool_steps env t u"
  from this(2,1) show "tool_steps env s u"
    by (induction rule: tool_steps.induct) (auto intro: tool_steps.intros)
qed

lemma quiet_steps: "keeps same_trace m \<Longrightarrow> keeps (tool_steps env) m"
  by (erule keeps_mono) (blast intro: tool_steps.intros)

lemma emit_file_mutation_steps:
  assumes "mutation_op operation"
  shows "keeps (tool_steps env) (emit_file_mutation env p ws operation m n b)"
  unfolding emit_file_mutation_def
  by (intro keeps_then keeps_stateless) (auto intro!: keepsI intro: tool_steps.intros assms)

lemma get_target_frame [trace_frame]: "keeps same_trace (get_target env ctx a)"
  by (simp add: keeps_def get_target_def same_trace_def)

lemma emit_frame_tool:
  "emit_frame (s :: 'z tool_st_scheme) t \<Longrightarrow>
     tfs t = tfs s \<and> tool_st.more t = tool_st.more s \<and> ew_step t = ew_step s"
  by (cases s; cases t) (simp add: emit_frame_def)

text \<open>Along tool steps the log grows by \<^verbatim>\<open>file_mutation\<close> events of the current step only.\<close>

definition tool_frame :: "'z tool_st_scheme \<Rightarrow> 'z tool_st_scheme \<Rightarrow> bool" where
  "tool_frame s t \<longleftrightarrow>
     (\<exists>es. ew_log t = ew_log s @ es \<and>
           (\<forall>e \<in> set es. e_type e = file_mutation \<and> e_step e = ew_step s)) \<and>
     ew_step t = ew_step s \<and> tool_st.more t = tool_st.more s"

lemma tool_steps_frame: "tool_steps env s t \<Longrightarrow> tool_frame s t"
proof (induction rule: tool_steps.induct)
  case (stop s)
  show ?case by (simp add: tool_frame_def)
next
  case (emits s t operation p ws m n b y u)
  have more: "tool_st.more u = tool_st.more t" "ew_step u = ew_step t"
    using emit_frame_tool [OF emit_spec(1) [OF emits(3)]] by auto
  have "ew_log u = ew_log t \<or> (\<exists>e. stamped t file_mutation (mutation_data p ws operation m n b) e
      \<and> ew_log u = ew_log t @ [e])"
    using emit_spec(2,3) [OF emits(3)] by (cases y) auto
  then show ?case
    using emits.IH more by (fastforce simp: tool_frame_def stamped_def mk_envelope_def)
next
  case (quiet s t u)
  then show ?case by (auto simp: tool_frame_def same_trace_def writer_view_def)
qed

text \<open>Every trace invariant survives tool steps.\<close>

lemma tool_steps_invariant:
  assumes "trace_invariant env P" "tool_steps env s t" "P s"
  shows "P t"
  using assms(2,3)
proof (induction rule: tool_steps.induct)
  case emits
  then show ?case
    using trace_invariant.emit_keeps [OF assms(1)] by (blast dest: preservesD)
next
  case (quiet s t u)
  then show ?case
    using trace_invariant.view_only [OF assms(1)] by (simp add: same_trace_def)
qed

locale tool_impl =
  fixes env :: "'e tool_env_scheme"
    and impl :: "pydict \<Rightarrow> ('z tool_st_scheme, tool_result) eff"
  assumes impl_steps: "keeps (tool_steps env) (impl args)"
begin

lemma run_steps: "keeps (tool_steps env) (tool_run impl args)"
  unfolding tool_run_def by (intro keeps_bind impl_steps keeps_stateless) simp_all

lemma run_frame: "keeps tool_frame (tool_run impl args)"
  using run_steps by (rule keeps_mono) (rule tool_steps_frame)

lemma run_invariant: "trace_invariant env P \<Longrightarrow> preserves P (tool_run impl args)"
  using run_steps by (auto intro!: preservesI dest: keepsD tool_steps_invariant)

end

section \<open>Clamping\<close>

lemma mark_ascii: "enc_all truncation_mark = truncation_mark" "length truncation_mark = 12"
  by (rule enc_all_ascii) (simp_all add: truncation_mark_def)

lemma clipped_size:
  assumes "length (enc_all p) \<le> k"
  shows "length (enc_all ((p @ (if k = length (enc_all p) then [] else [65533])) @ truncation_mark))
    \<le> k + 14"
  using assms mark_ascii by (simp add: enc_char_def)

lemma clamp_cases:
  assumes "clamp r = Inr r'"
  obtains (short) "length (enc_all (content r)) \<le> MAX_INLINE_RESULT_BYTES" "r' = r"
  | (long) j where "MAX_INLINE_RESULT_BYTES < length (enc_all (content r))" "j < length (content r)"
      "length (enc_all (take j (content r))) \<le> MAX_INLINE_RESULT_BYTES"
      "MAX_INLINE_RESULT_BYTES < length (enc_all (take (Suc j) (content r)))"
      "r' = r\<lparr>content := (take j (content r) @
         (if MAX_INLINE_RESULT_BYTES = length (enc_all (take j (content r))) then [] else [65533]))
         @ truncation_mark, truncated := True\<rparr>"
proof -
  have enc: "utf8_encode (content r) = Inr (enc_all (content r))" and sc: "list_all scalar (content r)"
    using assms by (auto simp: clamp_def utf8_encode_def split: if_splits)
  show thesis
  proof (cases "MAX_INLINE_RESULT_BYTES < length (enc_all (content r))")
    case True
    with utf8_clip [OF sc True] show thesis
      using assms enc by (auto simp: clamp_def intro: long)
  next
    case False
    with assms enc show thesis by (intro short) (auto simp: clamp_def)
  qed
qed

text \<open>
  C31: \<^verbatim>\<open>Tool.run\<close> leaves a result of at most 64 KiB alone; a longer one becomes the longest
  prefix of characters that fits (a character cut in the middle becomes one replacement
  character) followed by the mark, so the inline text never exceeds 64 KiB by more than 14
  bytes. The exit code and the error flag are never changed.
\<close>

theorem run_clamps:
  assumes "tool_run impl args s = (Inr r, t)"
  shows "\<exists>r0. impl args s = (Inr r0, t) \<and> exit_code r = exit_code r0 \<and> is_error r = is_error r0 \<and>
    (if length (enc_all (content r0)) \<le> MAX_INLINE_RESULT_BYTES then r = r0
     else truncated r \<and> length (enc_all (content r)) \<le> MAX_INLINE_RESULT_BYTES + 14 \<and>
       (\<exists>j rep. j < length (content r0) \<and> (rep = [] \<or> rep = [65533]) \<and>
          content r = take j (content r0) @ rep @ truncation_mark \<and>
          length (enc_all (take j (content r0))) \<le> MAX_INLINE_RESULT_BYTES \<and>
          MAX_INLINE_RESULT_BYTES < length (enc_all (take (Suc j) (content r0)))))"
proof -
  from assms obtain r0 where r0: "impl args s = (Inr r0, t)" and "clamp r0 = Inr r"
    by (auto simp: tool_run_def bindE_Inr_iff of_sum_def)
  from this(2) show ?thesis
  proof (cases rule: clamp_cases)
    case short
    with r0 show ?thesis by auto
  next
    case (long j)
    then have "length (enc_all (content r)) \<le> MAX_INLINE_RESULT_BYTES + 14"
      using clipped_size [OF long(3)] by simp
    with r0 long show ?thesis by (intro exI [of _ r0]) (auto intro!: exI [of _ j])
  qed
qed

definition long_output :: "pydict \<Rightarrow> (unit, tool_result) eff" where
  "long_output args = ret (tool_ok (replicate 65537 97))"

lemma long_output_clamped:
  "tool_run long_output [] () =
     (Inr ((tool_ok (replicate 65536 97 @ truncation_mark))\<lparr>truncated := True\<rparr>), ())"
proof -
  have e: "enc_all (replicate n 97) = replicate n 97" for n by (rule enc_all_ascii) simp
  have d: "utf8_decode_replace (replicate n 97) = replicate n 97" for n
    using utf8_decode_replace_enc_all [of "replicate n 97" "[]"] e [of n]
    by (simp add: list_all_iff scalar_ascii)
  show ?thesis
    by (simp add: tool_run_def long_output_def tool_ok_def clamp_def utf8_encode_def list_all_iff
        scalar_ascii e d MAX_INLINE_RESULT_BYTES_def of_sum_def)
qed

theorem run_clamps_witness:
  "\<exists>r0. long_output [] () = (Inr r0, ()) \<and> truncation_mark \<noteq> [] \<and>
     length (enc_all (replicate 65536 97 @ truncation_mark)) \<le> MAX_INLINE_RESULT_BYTES + 14"
  using run_clamps [OF long_output_clamped]
  by (auto simp: tool_ok_def long_output_def ret_def truncation_mark_def MAX_INLINE_RESULT_BYTES_def
      enc_all_ascii)

end
