(* ===== verification/Workspace.thy ===== *)
theory Workspace
  imports ToolBase
begin

text \<open>
  Workspace confinement. A resolution that meets no link loop ends at a canonical path below
  the resolved workspace, and operations on a canonical path stay there. The interface
  \<open>workspace_tool\<close> states what each file tool promises, and its lemma that nothing outside the
  workspace changes is proved once.
\<close>

section \<open>Arguments of the file tools\<close>

text \<open>\<^verbatim>\<open>path_arg = args.get("path"); if not isinstance(path_arg, str) or not path_arg: ...\<close>\<close>

definition path_arg :: "pydict \<Rightarrow> pystr option" where
  "path_arg args = (case as_str (dget args ''path'') of Some a \<Rightarrow> if a = [] then None else Some a
     | None \<Rightarrow> None)"

definition quoted :: "string \<Rightarrow> pystr" where
  "quoted s = [39] @ lit s @ [39]"

definition joined :: "tool_ctx \<Rightarrow> pystr \<Rightarrow> purepath" where
  "joined ctx a = pure_join (workspace ctx) (pure_path a)"

section \<open>Resolved targets\<close>

text \<open>
  The workspace resolves, without a link loop, to the existing directory \<open>ws\<close>, and the process's
  working directory is canonical, as the kernel reports it.
\<close>

definition sandboxed :: "'e tool_env_scheme \<Rightarrow> tool_ctx \<Rightarrow> path \<Rightarrow> fsys \<Rightarrow> bool" where
  "sandboxed env ctx ws fs \<longleftrightarrow> wf_fs fs \<and> canonical fs (cwd env) \<and>
     realpath fs (cwd env) (workspace ctx) = Inr (ws, True) \<and> fmlookup fs ws = Some DirN"

definition loop_free :: "'e tool_env_scheme \<Rightarrow> tool_ctx \<Rightarrow> fsys \<Rightarrow> pystr \<Rightarrow> bool" where
  "loop_free env ctx fs a \<longleftrightarrow>
     (case realpath fs (cwd env) (joined ctx a) of Inr (_, False) \<Rightarrow> False | _ \<Rightarrow> True)"

lemma target_realpath:
  assumes "loop_free env ctx fs a" "workspace_target env ctx a fs = Inr (Some p)"
  shows "realpath fs (cwd env) (joined ctx a) = Inr (p, True)"
  using assms
  by (auto simp: loop_free_def joined_def workspace_target_def resolve_def
      split: sum.splits prod.splits bool.splits if_splits)

lemma target_canonical:
  assumes "sandboxed env ctx ws fs" "loop_free env ctx fs a"
    "workspace_target env ctx a fs = Inr (Some p)"
  shows "canonical fs p" "prefix ws p"
proof -
  show "canonical fs p"
    using assms(1) realpath_canonical [OF _ _ target_realpath [OF assms(2,3)]]
    by (simp add: sandboxed_def)
  have "resolve (str_repr env) fs (cwd env) (workspace ctx) = Inr ws"
    using assms(1) by (simp add: sandboxed_def resolve_def)
  then show "prefix ws p"
    using assms(3) by (auto simp: workspace_target_def relative_to_def split: sum.splits if_splits)
qed

text \<open>Writing a file and creating directories changes no link, so the target stays the target.\<close>

lemma grown_links:
  assumes "grown q fs fs1"
  shows "link_at fs1 = link_at fs"
proof
  fix l
  have "fmlookup fs1 l = fmlookup fs l \<or> (fmlookup fs l = None \<and> fmlookup fs1 l = Some DirN)"
    using assms(1) unfolding grown_def by blast
  then show "link_at fs1 l = link_at fs l" by (auto simp: link_at_def)
qed

lemma link_at_written:
  assumes "grown q fs fs1" "canonical fs1 p"
  shows "link_at (fmupd p (FileN b) fs1) = link_at fs"
proof
  fix l
  have "link_at fs1 l = link_at fs l" by (simp add: grown_links [OF assms(1)])
  moreover have "link_at fs1 p = None"
    using assms(2) link_at_Some [of fs1 p] by (cases "link_at fs1 p") (auto simp: canonical_def)
  ultimately show "link_at (fmupd p (FileN b) fs1) l = link_at fs l"
    by (cases "l = p") (simp_all add: link_at_def)
qed

lemma workspace_target_links:
  assumes "sandboxed env ctx ws fs" "loop_free env ctx fs a"
    "workspace_target env ctx a fs = Inr (Some p)" "link_at fs' = link_at fs"
  shows "workspace_target env ctx a fs' = Inr (Some p)"
proof -
  have r: "realpath fs' (cwd env) pp = realpath fs (cwd env) pp" for pp
    using assms(4) by (rule realpath_links)
  have "realpath fs (cwd env) (pure_join (workspace ctx) (pure_path a)) = Inr (p, True)"
    using target_realpath [OF assms(2,3)] by (simp add: joined_def)
  moreover have "realpath fs (cwd env) (workspace ctx) = Inr (ws, True)"
    using assms(1) by (simp add: sandboxed_def)
  ultimately show ?thesis
    using assms(3) r by (simp add: workspace_target_def resolve_def)
qed

lemma canonical_links: "canonical fs p \<Longrightarrow> link_at fs' = link_at fs \<Longrightarrow> canonical fs' p"
  unfolding canonical_def by (metis link_at_Some)

section \<open>The sandbox invariant\<close>

definition sandbox :: "path \<Rightarrow> path \<Rightarrow> fsys \<Rightarrow> 'z tool_st_scheme \<Rightarrow> bool" where
  "sandbox ws p fs0 s \<longleftrightarrow> wf_fs (tfs s) \<and> canonical (tfs s) p \<and> prefix ws p \<and>
     fmlookup (tfs s) ws = Some DirN \<and> link_at (tfs s) = link_at fs0 \<and>
     (\<forall>q. \<not> prefix ws q \<longrightarrow> fmlookup (tfs s) q = fmlookup fs0 q)"

lemma sandbox_tfs: "sandbox ws p fs0 s \<Longrightarrow> tfs t = tfs s \<Longrightarrow> sandbox ws p fs0 t"
  by (simp add: sandbox_def)

lemma grown_sandbox:
  assumes "sandbox ws p fs0 s" "dir_inv p (tfs s) t"
  shows "sandbox ws p fs0 t"
proof -
  have g: "grown p (tfs s) (tfs t)" and wf: "wf_fs (tfs s)" using assms by (simp_all add: dir_inv_def sandbox_def)
  have ws: "fmlookup (tfs s) ws = Some DirN" using assms by (simp add: sandbox_def)
  have "fmlookup (tfs t) q = fmlookup (tfs s) q" if "\<not> prefix ws q" for q
  proof (rule ccontr)
    assume "fmlookup (tfs t) q \<noteq> fmlookup (tfs s) q"
    then have q: "prefix q p" "fmlookup (tfs s) q = None" using g by (auto simp: grown_def)
    then have "prefix q ws" using prefix_same_cases [of q p ws] that assms(1) by (auto simp: sandbox_def)
    then obtain zs where zs: "ws = q @ zs" by (auto simp: prefix_def)
    have "fmlookup (tfs s) q \<noteq> None"
      using wf_fs_ancestor [OF wf, of q zs] ws zs by (cases "zs = []") auto
    with q(2) show False by simp
  qed
  moreover have "fmlookup (tfs t) ws = Some DirN" using g ws unfolding grown_def by (metis option.distinct(1))
  ultimately show ?thesis using assms grown_links [OF g] by (simp add: sandbox_def dir_inv_def)
qed

lemma mkdir_parents_sandbox:
  assumes "prefix q p"
  shows "preserves (sandbox ws p fs0) (mkdir_parents env q)"
proof (rule preservesI)
  fix s y t assume s: "sandbox ws p fs0 s" and m: "mkdir_parents env q s = (y, t)"
  have "dir_inv p (tfs s) s" using s by (simp add: dir_inv_def sandbox_def)
  with mkdir_parents_inv [OF assms] have "dir_inv p (tfs s) t" using m by (rule preservesD)
  with s show "sandbox ws p fs0 t" by (rule grown_sandbox)
qed

lemma canonical_upd_file:
  assumes "canonical fs p"
  shows "canonical (fmupd p (FileN b) fs) p"
  using assms by (auto simp: canonical_def)

lemma write_bytes_cases:
  assumes "write_bytes env p b s = (y, t)"
  obtains (fail) x where "y = Inl x" "t = s"
  | (cut) x n fs where "y = Inl x" "kwrite env p (take n b) (tfs s) = Inr fs" "t = s\<lparr>tfs := fs\<rparr>"
  | (ok) fs where "y = Inr ()" "kwrite env p b (tfs s) = Inr fs" "t = s\<lparr>tfs := fs\<rparr>"
proof -
  let ?w = "write_fault env p b (tfs s)"
  let ?c = "case ?w of None \<Rightarrow> b | Some (_, n) \<Rightarrow> take n b"
  show thesis
  proof (cases "fs_fault env OpWrite p (tfs s)")
    case (Some x)
    with assms show thesis by (intro fail) (auto simp: write_bytes_def kcall_def bindE_def gets_def)
  next
    case None
    show thesis
    proof (cases "kwrite env p ?c (tfs s)")
      case (Inl x)
      with None assms show thesis by (intro fail) (auto simp: write_bytes_def kcall_def bindE_def gets_def)
    next
      case (Inr fs)
      with None assms show thesis
        by (cases ?w) (auto simp: write_bytes_def kcall_def eff_defs intro: ok cut)
    qed
  qed
qed

lemma kwrite_sandbox:
  assumes s: "sandbox ws p fs0 s" and k: "kwrite env p b (tfs s) = Inr fs"
  shows "sandbox ws p fs0 (s\<lparr>tfs := fs\<rparr>)"
proof -
  have wf: "wf_fs (tfs s)" and c: "canonical (tfs s) p" using s by (simp_all add: sandbox_def)
  note k = kwrite_canonical [OF wf c k]
  have "wf_fs fs" using wf_fs_upd [OF wf k(2,3)] k(1,4) by blast
  moreover have "ws \<noteq> p" using k(5) s by (auto simp: sandbox_def)
  ultimately show ?thesis
    using s k(1) canonical_upd_file [OF c] link_at_written [OF grown_refl c] by (auto simp: sandbox_def)
qed

lemma write_bytes_sandbox: "preserves (sandbox ws p fs0) (write_bytes env p b)"
proof (rule preservesI)
  fix s y t assume s: "sandbox ws p fs0 s" and w: "write_bytes env p b s = (y, t)"
  from w show "sandbox ws p fs0 t"
    by (cases rule: write_bytes_cases) (use s kwrite_sandbox [OF s] in auto)
qed

lemma emit_sandbox: "preserves (sandbox ws p fs0) (emit env ty data)"
  by (rule preservesI) (metis emit_spec(1) emit_frame_tool sandbox_tfs)

lemma emit_file_mutation_sandbox: "preserves (sandbox ws p fs0) (emit_file_mutation env q r operation m n b)"
  unfolding emit_file_mutation_def by (intro preserves_intros emit_sandbox)

lemma emit_file_mutation_tfs: "keeps (\<lambda>s t. tfs t = tfs s) (emit_file_mutation env q r operation m n b)"
  unfolding emit_file_mutation_def
  by (intro keeps_intros) (auto intro!: keepsI dest!: emit_spec(1) emit_frame_tool)

lemma path_ops_preserve:
  "preserves P (path_exists env p)" "preserves P (path_is_file env p)" "preserves P (path_is_dir env p)"
  "preserves P (st_size env p)" "preserves P (read_bytes env p)" "preserves P (get_target env ctx a)"
  by (simp_all add: path_exists_def path_is_file_def path_is_dir_def st_size_def read_bytes_def
      preserves_kcall) (auto simp: get_target_def intro: preservesI)

lemmas sandbox_intros =
  preserves_intros path_ops_preserve write_bytes_sandbox emit_file_mutation_sandbox

lemmas tool_step_intros =
  keeps_intros trace_frame [THEN quiet_steps] emit_file_mutation_steps

section \<open>Successful calls\<close>

lemma kcall_Inr_iff:
  "kcall env op p f s = (Inr v, t) \<longleftrightarrow> fs_fault env op p (tfs s) = None \<and> f (tfs s) = Inr v \<and> t = s"
  by (auto simp: kcall_def split: option.splits)

lemma path_exists_Inr:
  assumes "wf_fs (tfs s)" "canonical (tfs s) p" "path_exists env p s = (Inr b, t)"
  shows "t = s \<and> b = (fmlookup (tfs s) p \<noteq> None)"
  using assms(3) lookup_at_canonical [OF assms(1,2)] by (simp add: path_exists_def kcall_Inr_iff)

lemma st_size_Inr:
  assumes "wf_fs (tfs s)" "canonical (tfs s) p" "fmlookup (tfs s) p = Some (FileN b)"
    "st_size env p s = (Inr n, t)"
  shows "t = s \<and> n = length b"
  using assms kstat_present [OF assms(1,2)] by (simp add: st_size_def kcall_Inr_iff)

lemma read_bytes_Inr:
  assumes "canonical (tfs s) p" "read_bytes env p s = (Inr b, t)"
  shows "t = s \<and> fmlookup (tfs s) p = Some (FileN b)"
  using assms
  by (auto simp: read_bytes_def kcall_Inr_iff split: walk_result.splits option.splits node.splits
      dest: kstat_Found)

lemma write_bytes_Inr:
  assumes "wf_fs (tfs s)" "canonical (tfs s) p" "write_bytes env p b s = (Inr v, t)"
  shows "t = s\<lparr>tfs := fmupd p (FileN b) (tfs s)\<rparr> \<and> fmlookup (tfs s) p \<noteq> Some DirN"
  using assms(3)
proof (cases rule: write_bytes_cases)
  case (ok fs)
  with kwrite_canonical [OF assms(1,2) ok(2)] show ?thesis by simp
qed simp_all

lemma mkdir_parents_grown:
  assumes "wf_fs (tfs s)" "canonical (tfs s) p" "mkdir_parents env (butlast p) s = (y, t)"
  shows "wf_fs (tfs t) \<and> canonical (tfs t) p \<and> grown (butlast p) (tfs s) (tfs t) \<and> same_trace s t"
proof -
  have "dir_inv (butlast p) (tfs s) s"
    using assms(1) canonical_butlast [OF assms(2)] by (simp add: dir_inv_def)
  with mkdir_parents_inv [of "butlast p" "butlast p"] have "dir_inv (butlast p) (tfs s) t"
    using assms(3) by (blast dest: preservesD)
  moreover have "same_trace s t" using mkdir_parents_frame assms(3) by (rule keepsD)
  ultimately show ?thesis using assms(2) by (auto simp: dir_inv_def intro: grown_canonical)
qed

lemma emit_file_mutation_Inr:
  assumes "emit_file_mutation env p ws operation m n b s = (Inr v, t)"
  shows "tfs t = tfs s \<and> (\<exists>e. ew_log t = ew_log s @ [e] \<and> e_type e = file_mutation \<and>
    e_step e = ew_step s \<and> e_data e = mutation_data p ws operation m n b)"
proof -
  from assms obtain e where e: "emit env file_mutation (mutation_data p ws operation m n b) s = (Inr e, t)"
    by (auto simp: emit_file_mutation_def thenE_def bindE_Inr_iff ret_def)
  from emit_spec(1,2) [OF e] show ?thesis
    by (auto dest: emit_frame_tool simp: stamped_def mk_envelope_def)
qed

lemma same_trace_log: "same_trace s t \<Longrightarrow> ew_log t = ew_log s \<and> ew_step t = ew_step s"
  by (simp add: same_trace_def writer_view_def)

section \<open>Calls that nothing refuses\<close>

text \<open>The kernel refuses nothing, and every existing prefix of \<open>p\<close> is a directory.\<close>

definition kernel_ok :: "'e tool_env_scheme \<Rightarrow> bool" where
  "kernel_ok env \<longleftrightarrow> (\<forall>op p fs. fs_fault env op p fs = None) \<and> (\<forall>p b fs. write_fault env p b fs = None)"

definition open_path :: "fsys \<Rightarrow> path \<Rightarrow> bool" where
  "open_path fs p \<longleftrightarrow> (\<forall>q. prefix q p \<longrightarrow> fmlookup fs q = None \<or> fmlookup fs q = Some DirN)"

lemma walk_open:
  assumes "canonical fs (cur @ w)" "open_path fs (cur @ w)" "fmlookup fs (cur @ w) = None" "w \<noteq> []"
  shows "(\<exists>q. walk fs k cur w = Missing q) \<or> walk fs k cur w = Failed ENOENT"
  using assms
proof (induction w arbitrary: cur)
  case (Cons n w)
  have n: "n \<noteq> []" "n \<noteq> dot" "n \<noteq> dotdot" using Cons.prems(1) by (auto simp: canonical_def proper_name_def)
  have "prefix (cur @ [n]) (cur @ n # w)" by simp
  then have "fmlookup fs (cur @ [n]) = None \<or> fmlookup fs (cur @ [n]) = Some DirN"
    using Cons.prems(2) unfolding open_path_def by blast
  then show ?case
  proof
    assume d: "fmlookup fs (cur @ [n]) = Some DirN"
    then have "w \<noteq> []" using Cons.prems(3) by auto
    with d n Cons.IH [of "cur @ [n]"] Cons.prems show ?thesis by simp
  qed (use n in auto)
qed simp

lemma kstat_open:
  assumes "wf_fs fs" "canonical fs p" "open_path fs p" "fmlookup fs p = None"
  shows "(\<exists>q. kstat fs p = Missing q) \<or> kstat fs p = Failed ENOENT"
  using walk_open [of fs "[]" p] assms wf_fs_root unfolding kstat_def by fastforce

lemma kmkdir_open:
  assumes "wf_fs fs" "canonical fs p" "open_path fs p"
  shows "fmlookup fs p = Some DirN \<Longrightarrow> kmkdir fs p = Inl EEXIST"
    and "fmlookup fs p = None \<Longrightarrow> fmlookup fs (butlast p) = Some DirN \<Longrightarrow> kmkdir fs p = Inr (fmupd p DirN fs)"
    and "fmlookup fs (butlast p) = None \<Longrightarrow> kmkdir fs p = Inl ENOENT"
proof -
  have cb: "canonical fs (butlast p)" by (rule canonical_butlast [OF assms(2)])
  have root: "fmlookup fs [] = Some DirN" by (rule wf_fs_root [OF assms(1)])
  { assume d: "fmlookup fs p = Some DirN"
    show "kmkdir fs p = Inl EEXIST"
    proof (cases "p = []")
      case False
      then have "fmlookup fs (butlast p) = Some DirN"
        using wf_fs_ancestor [OF assms(1), of "butlast p" "[last p]"] d by simp
      then show ?thesis using kstat_present [OF assms(1) cb] d False by (simp add: kmkdir_def)
    qed (simp add: kmkdir_def) }
  { assume a: "fmlookup fs p = None" "fmlookup fs (butlast p) = Some DirN"
    then have p: "p \<noteq> []" using root by auto
    have "last p \<noteq> dotdot" using assms(2) last_in_set [OF p] by (auto simp: canonical_def list_all_iff proper_name_def)
    with p show "kmkdir fs p = Inr (fmupd p DirN fs)"
      using kstat_present [OF assms(1) cb] a by (simp add: kmkdir_def) }
  { assume a: "fmlookup fs (butlast p) = None"
    then have "p \<noteq> []" using root by auto
    moreover have "open_path fs (butlast p)"
      using assms(3) prefix_order.trans [OF _ prefix_butlast] unfolding open_path_def by blast
    ultimately show "kmkdir fs p = Inl ENOENT"
      using kstat_open [OF assms(1) cb _ a] by (auto simp: kmkdir_def) }
qed

lemma grown_open: "grown p fs fs' \<Longrightarrow> open_path fs q \<Longrightarrow> open_path fs' q"
  unfolding grown_def open_path_def by (metis option.distinct(1))

lemma mkdir_one_total:
  assumes "kernel_ok env" "wf_fs (tfs s)" "canonical (tfs s) q" "open_path (tfs s) q"
    "fmlookup (tfs s) (butlast q) = Some DirN"
  shows "\<exists>t. mkdir_one env q s = (Inr (), t) \<and> fmlookup (tfs t) q = Some DirN"
proof (cases "fmlookup (tfs s) q = Some DirN")
  case True
  with assms kmkdir_open(1) [OF assms(2-4)] lookup_at_canonical [OF assms(2,3)] show ?thesis
    by (auto simp: mkdir_one_def os_mkdir_def unless_dir_def path_is_dir_def kcall_def kernel_ok_def bindE_def ret_def)
next
  case False
  then have "fmlookup (tfs s) q = None" using assms(4) by (auto simp: open_path_def)
  with assms kmkdir_open(2) [OF assms(2-4)] show ?thesis
    by (auto simp: mkdir_one_def os_mkdir_def kernel_ok_def bindE_def ret_def)
qed

lemma mkdir_parents_total:
  assumes "kernel_ok env" "wf_fs (tfs s)" "canonical (tfs s) q" "open_path (tfs s) q"
  shows "\<exists>t. mkdir_parents env q s = (Inr (), t) \<and> fmlookup (tfs t) q = Some DirN"
  using assms
proof (induction env q arbitrary: s rule: mkdir_parents.induct)
  case (1 env q)
  show ?case
  proof (cases "fmlookup (tfs s) (butlast q) = Some DirN")
    case True
    then obtain t where t: "mkdir_one env q s = (Inr (), t)" "fmlookup (tfs t) q = Some DirN"
      using mkdir_one_total "1.prems" by blast
    have "mkdir_parents env q s = mkdir_one env q s"
    proof (cases "fmlookup (tfs s) q = Some DirN")
      case d: True
      with kmkdir_open(1) [OF "1.prems"(2-4)] "1.prems"(1) show ?thesis
        by (simp add: mkdir_parents.simps mkdir_one_def os_mkdir_def kernel_ok_def bindE_def)
    next
      case False
      then have "fmlookup (tfs s) q = None" using "1.prems"(4) by (auto simp: open_path_def)
      with kmkdir_open(2) [OF "1.prems"(2-4)] True "1.prems"(1) show ?thesis
        by (simp add: mkdir_parents.simps mkdir_one_def os_mkdir_def kernel_ok_def bindE_def)
    qed
    with t show ?thesis by simp
  next
    case False
    have ob: "open_path (tfs s) (butlast q)"
      using "1.prems"(4) prefix_order.trans [OF _ prefix_butlast] unfolding open_path_def by blast
    with False have none: "fmlookup (tfs s) (butlast q) = None" by (auto simp: open_path_def)
    then have q: "q \<noteq> []" using wf_fs_root [OF "1.prems"(2)] by auto
    have cb: "canonical (tfs s) (butlast q)" by (rule canonical_butlast [OF "1.prems"(3)])
    have "\<exists>t. mkdir_parents env (butlast q) s = (Inr (), t) \<and> fmlookup (tfs t) (butlast q) = Some DirN"
      by (rule "1.IH" [OF q "1.prems"(1,2) cb ob])
    then obtain u where u: "mkdir_parents env (butlast q) s = (Inr (), u)" "fmlookup (tfs u) (butlast q) = Some DirN"
      by blast
    note g = mkdir_parents_grown [OF "1.prems"(2,3) u(1)]
    then obtain t where t: "mkdir_one env q u = (Inr (), t)" "fmlookup (tfs t) q = Some DirN"
      using mkdir_one_total [OF "1.prems"(1)] u(2) grown_open "1.prems"(4) by blast
    have "mkdir_parents env q s = mkdir_one env q u"
      using kmkdir_open(3) [OF "1.prems"(2-4) none] "1.prems"(1) q u(1)
      by (simp add: mkdir_parents.simps [of env q] os_mkdir_def kernel_ok_def bindE_def thenE_def)
    with t show ?thesis by simp
  qed
qed

lemma kernel_ok_kcall: "kernel_ok env \<Longrightarrow> kcall env op p f s = (f (tfs s), s)"
  by (simp add: kcall_def kernel_ok_def)

text \<open>A missing file in an existing directory is where the walk says.\<close>

lemma kstat_absent:
  assumes "wf_fs fs" "canonical fs p" "p \<noteq> []" "fmlookup fs p = None" "fmlookup fs (butlast p) = Some DirN"
  shows "kstat fs p = Missing p"
proof -
  obtain n q where p: "p = q @ [n]" using assms(3) by (metis rev_exhaust)
  then have q: "canonical fs q" "fmlookup fs q = Some DirN"
    using canonical_butlast [OF assms(2)] assms(5) by auto
  have n: "n \<noteq> []" "n \<noteq> dot" "n \<noteq> dotdot"
    using assms(2) p by (auto simp: canonical_def proper_name_def)
  have "walk fs k cur (w @ [n]) = Missing (cur @ w @ [n])"
    if "walk fs k cur w = Found (cur @ w)" "canonical fs (cur @ w)"
      "fmlookup fs (cur @ w) = Some DirN" "fmlookup fs (cur @ w @ [n]) = None" for k cur w
    using that
  proof (induction w arbitrary: cur)
    case Nil
    with n show ?case by simp
  next
    case (Cons m w)
    have m: "m \<noteq> []" "m \<noteq> dot" "m \<noteq> dotdot" "canonical fs ((cur @ [m]) @ w)"
      using Cons.prems(2) by (auto simp: canonical_def proper_name_def)
    have "fmlookup fs (cur @ [m]) = Some DirN"
      using Cons.prems(3) wf_fs_ancestor [OF assms(1), of "cur @ [m]" w] by (cases "w = []") auto
    with m Cons show ?case by simp
  qed
  from this [of MAXSYMLINKS "[]" q] p q assms(4) kstat_present [OF assms(1) q(1)] show ?thesis
    by (simp add: kstat_def)
qed

lemma write_bytes_total:
  assumes "kernel_ok env" "wf_fs (tfs s)" "canonical (tfs s) p" "p \<noteq> []"
    "fmlookup (tfs s) p \<noteq> Some DirN" "fmlookup (tfs s) (butlast p) = Some DirN"
  shows "\<exists>t. write_bytes env p b s = (Inr (), t)"
proof -
  have "\<exists>fs. kwrite env p b (tfs s) = Inr fs"
  proof (cases "fmlookup (tfs s) p")
    case (Some v)
    moreover have "\<not> (\<exists>l. v = LinkN l)" using assms(3) Some by (auto simp: canonical_def)
    ultimately show ?thesis
      using kstat_present [OF assms(2,3)] assms(5) by (cases v) (auto simp: kwrite_def)
  next
    case None
    with kstat_absent [OF assms(2-4) _ assms(6)] show ?thesis by (simp add: kwrite_def)
  qed
  then show ?thesis
    using assms(1) by (auto simp: write_bytes_def kernel_ok_kcall kernel_ok_def eff_defs)
qed

section \<open>The interface of a file tool\<close>

locale workspace_tool =
  fixes env :: "'e tool_env_scheme"
    and ctx :: tool_ctx
    and impl :: "pydict \<Rightarrow> ('z tool_st_scheme, tool_result) eff"
  assumes impl_sandbox: "path_arg args = Some a \<Longrightarrow> workspace_target env ctx a (tfs s) = Inr (Some p) \<Longrightarrow>
      sandbox ws p fs0 s \<Longrightarrow> impl args s = (y, t) \<Longrightarrow> sandbox ws p fs0 t"
    and impl_rejects: "impl args s = (y, t) \<Longrightarrow>
      (\<nexists>a p. path_arg args = Some a \<and> workspace_target env ctx a (tfs s) = Inr (Some p)) \<Longrightarrow> tfs t = tfs s"
begin

text \<open>A call keeps the sandbox for the calls after it.\<close>

lemma stays_sandboxed:
  assumes "sandboxed env ctx ws (tfs s)" "\<And>a. path_arg args = Some a \<Longrightarrow> loop_free env ctx (tfs s) a"
    "impl args s = (y, t)"
  shows "sandboxed env ctx ws (tfs t) \<and> link_at (tfs t) = link_at (tfs s)"
proof (cases "\<exists>a p. path_arg args = Some a \<and> workspace_target env ctx a (tfs s) = Inr (Some p)")
  case True
  then obtain a p where a: "path_arg args = Some a" "workspace_target env ctx a (tfs s) = Inr (Some p)" by blast
  note c = target_canonical [OF assms(1) assms(2) [OF a(1)] a(2)]
  have "sandbox ws p (tfs s) s" using assms(1) c by (simp add: sandbox_def sandboxed_def)
  from impl_sandbox [OF a this assms(3)] have t: "wf_fs (tfs t)" "fmlookup (tfs t) ws = Some DirN"
    and l: "link_at (tfs t) = link_at (tfs s)"
    by (simp_all add: sandbox_def)
  from assms(1) have "canonical (tfs t) (cwd env)" "realpath (tfs t) (cwd env) (workspace ctx) = Inr (ws, True)"
    using canonical_links [OF _ l] realpath_links [OF l] by (simp_all add: sandboxed_def)
  with t l show ?thesis by (simp add: sandboxed_def)
next
  case False
  with impl_rejects [OF assms(3)] assms(1) show ?thesis by simp
qed

lemma confined:
  assumes "sandboxed env ctx ws (tfs s)" "\<And>a. path_arg args = Some a \<Longrightarrow> loop_free env ctx (tfs s) a"
    "impl args s = (y, t)" "\<not> prefix ws q"
  shows "fmlookup (tfs t) q = fmlookup (tfs s) q"
proof (cases "\<exists>a p. path_arg args = Some a \<and> workspace_target env ctx a (tfs s) = Inr (Some p)")
  case True
  then obtain a p where a: "path_arg args = Some a" "workspace_target env ctx a (tfs s) = Inr (Some p)" by blast
  note c = target_canonical [OF assms(1) assms(2) [OF a(1)] a(2)]
  have "sandbox ws p (tfs s) s" using assms(1) c by (simp add: sandbox_def sandboxed_def)
  from impl_sandbox [OF a this assms(3)] show ?thesis using assms(4) by (simp add: sandbox_def)
next
  case False
  with impl_rejects [OF assms(3)] show ?thesis by simp
qed

end

end
