(* ===== verification/FileRead.thy ===== *)
theory FileRead
  imports Workspace
begin

text \<open>
  The file_read tool (\<^verbatim>\<open>tools/file_read.py\<close>): the whole file or a line range, each line prefixed
  with its 1-based number.
\<close>

section \<open>The tool\<close>

definition MAX_FILE_BYTES :: nat where
  "MAX_FILE_BYTES = 1024 * 1024"

definition file_read_description :: pystr where
  "file_read_description =
     lit ''Read a file from the workspace. Returns lines prefixed with their '' @
     lit ''1-indexed line numbers, suitable for referencing in file_edit. '' @
     lit ''Optionally read only a line range with start_line/end_line.''"

definition file_read_schema :: json where
  "file_read_schema = object_schema
     [(''path'', str_prop ''Workspace-relative file path.''),
      (''start_line'', line_prop ''1-indexed first line to read (inclusive). Default: 1.''),
      (''end_line'', line_prop ''1-indexed last line to read (inclusive). Default: EOF.'')]
     [''path'']"

text \<open>\<^verbatim>\<open>Path.read_text(encoding="utf-8")\<close>\<close>

definition read_text :: "'e tool_env_scheme \<Rightarrow> path \<Rightarrow> ('z tool_st_scheme, pystr) eff" where
  "read_text env p =
     bindE (read_bytes env p) (\<lambda>b. bindE (of_sum (utf8_decode b)) (\<lambda>t. ret (universal_newlines t)))"

definition numbered :: "pystr list \<Rightarrow> int \<Rightarrow> pystr" where
  "numbered lines i = show_int i @ lit '': '' @ lines ! nat (i - 1)"

text \<open>
  From \<^verbatim>\<open>lines = text.splitlines()\<close> on. \<^verbatim>\<open>min(len(lines), end)\<close> keeps its first argument on a
  tie, so a bool \<^verbatim>\<open>end\<close> is printed as such only when it is smaller.
\<close>

definition read_range :: "pydict \<Rightarrow> pystr list \<Rightarrow> tool_result" where
  "read_range args lines =
     (let n = int (length lines);
          start = (case dget args ''start_line'' of None \<Rightarrow> JInt 1 | Some v \<Rightarrow> v);
          stop = (case dget args ''end_line'' of None \<Rightarrow> JInt n | Some v \<Rightarrow> v)
      in case (as_int start, as_int stop) of
           (Some i, Some j) \<Rightarrow>
             (let lo = max 1 i; hi = min n j
              in if hi < lo \<and> lines \<noteq> []
                 then usage_error (lit ''file_read: empty range start_line='' @ show_int lo
                        @ lit '' end_line='' @ (if j < n then show_intlike stop else show_int n))
                 else tool_ok (join_with [nl] (map (numbered lines) [lo..hi])))
         | _ \<Rightarrow> usage_error (lit ''file_read: start_line / end_line must be integers''))"

definition file_read_at ::
  "'e tool_env_scheme \<Rightarrow> pydict \<Rightarrow> pystr \<Rightarrow> path \<Rightarrow> ('z tool_st_scheme, tool_result) eff" where
  "file_read_at env args a target =
     bindE (path_exists env target) (\<lambda>ex.
     if \<not> ex then ret (usage_error (lit ''file_read: not found: '' @ a)) else
     bindE (path_is_file env target) (\<lambda>isf.
     if \<not> isf then ret (usage_error (lit ''file_read: not a regular file: '' @ a)) else
     bindE (st_size env target) (\<lambda>size.
     if MAX_FILE_BYTES < size
     then ret (usage_error (lit ''file_read: file too large ('' @ show_nat size @ lit '' bytes, max ''
                 @ show_nat MAX_FILE_BYTES @ lit '')'')) else
     bindE (attempt (\<lambda>x. exc_type x = UnicodeDecodeError) (read_text env target)) (\<lambda>r.
     ret (case r of
            Inl x \<Rightarrow> usage_error (lit ''file_read: not utf-8 decodable: '' @ exc_str x)
          | Inr text \<Rightarrow> read_range args (splitlines text))))))"

definition file_read_run ::
  "'e tool_env_scheme \<Rightarrow> tool_ctx \<Rightarrow> pydict \<Rightarrow> ('z tool_st_scheme, tool_result) eff" where
  "file_read_run env ctx args =
     (case path_arg args of
        None \<Rightarrow> ret (usage_error (lit ''file_read: missing '' @ quoted ''path''))
      | Some a \<Rightarrow>
          bindE (get_target env ctx a) (\<lambda>target.
            case target of
              None \<Rightarrow> ret (usage_error (lit ''file_read: path escapes workspace: '' @ a))
            | Some p \<Rightarrow> file_read_at env args a p))"

section \<open>Reading changes nothing\<close>

text \<open>A state is kept exactly when every predicate on it is preserved.\<close>

lemma file_read_preserves: "preserves P (file_read_run env ctx args)"
  unfolding file_read_run_def file_read_at_def read_text_def
  by (auto intro!: preserves_intros path_ops_preserve split: option.splits)

lemma file_read_state: "file_read_run env ctx args s = (y, t) \<Longrightarrow> t = s"
  using preservesD [OF file_read_preserves [of "\<lambda>u. u = s"]] by blast

interpretation file_read: tool_impl env "file_read_run env ctx" for env ctx
  by unfold_locales (auto intro!: keepsI dest!: file_read_state intro: tool_steps.stop)

interpretation file_read_ws: workspace_tool env ctx "file_read_run env ctx" for env ctx
  by unfold_locales (auto dest!: file_read_state)

section \<open>Line ranges\<close>

lemma read_range_whole:
  assumes "dget args ''start_line'' = None" "dget args ''end_line'' = None"
  shows "read_range args lines = tool_ok (join_with [nl] (map (numbered lines) [1..int (length lines)]))"
  using assms by (cases lines) (simp_all add: read_range_def Let_def)

lemma numbered_slice:
  assumes "1 \<le> lo" "hi \<le> int (length lines)"
  shows "map (numbered lines) [lo..hi] =
    map (\<lambda>(k, l). show_nat k @ lit '': '' @ l)
      (zip [nat lo..<Suc (nat hi)] (take (Suc (nat hi) - nat lo) (drop (nat lo - 1) lines)))"
proof (rule nth_equalityI)
  have len: "length [lo..hi] = Suc (nat hi) - nat lo" using assms by simp
  have "Suc (nat hi) - nat lo \<le> length lines - (nat lo - 1)" using assms by linarith
  then show "length (map (numbered lines) [lo..hi]) = length (map (\<lambda>(k, l). show_nat k @ lit '': '' @ l)
      (zip [nat lo..<Suc (nat hi)] (take (Suc (nat hi) - nat lo) (drop (nat lo - 1) lines))))"
    using len by (simp add: min_def del: upt_Suc)
  fix m assume "m < length (map (numbered lines) [lo..hi])"
  then have m: "m < Suc (nat hi) - nat lo" using len by simp
  have n: "[lo..hi] ! m = lo + int m" using m assms by (intro nth_upto) linarith
  have "nat lo - 1 + m < length lines" using m assms by linarith
  moreover have "nat (lo + int m - 1) = nat lo - 1 + m" using assms(1) by linarith
  moreover have "show_int (lo + int m) = show_nat (nat lo + m)"
    using assms(1) by (simp add: show_int_def nat_add_distrib)
  moreover have "nat lo + m < Suc (nat hi)" "m < length lines - (nat lo - 1)" using m calculation by linarith+
  ultimately show "map (numbered lines) [lo..hi] ! m = map (\<lambda>(k, l). show_nat k @ lit '': '' @ l)
      (zip [nat lo..<Suc (nat hi)] (take (Suc (nat hi) - nat lo) (drop (nat lo - 1) lines))) ! m"
    using m n len by (simp add: numbered_def del: upt_Suc)
qed

text \<open>
  C32: file_read of a range: with integer \<^verbatim>\<open>start_line\<close> and \<^verbatim>\<open>end_line\<close> clamped to the file, a
  non-empty range yields the corresponding slice of the lines, each with its own number, so no
  index is ever out of bounds; an empty range of a non-empty file is exit code 2.
\<close>

theorem read_range_slice:
  assumes "dget args ''start_line'' = Some (JInt i)" "dget args ''end_line'' = Some (JInt j)" "lines \<noteq> []"
  shows "let lo = max 1 i; hi = min (int (length lines)) j
    in if lo \<le> hi
       then read_range args lines =
         tool_ok (join_with [nl] (map (\<lambda>(k, l). show_nat k @ lit '': '' @ l)
           (zip [nat lo..<Suc (nat hi)] (take (Suc (nat hi) - nat lo) (drop (nat lo - 1) lines)))))
       else exit_code (read_range args lines) = 2 \<and> is_error (read_range args lines)"
proof -
  define lo hi where "lo = max 1 i" and "hi = min (int (length lines)) j"
  have "1 \<le> lo" "hi \<le> int (length lines)" by (simp_all add: lo_def hi_def)
  note slice = numbered_slice [OF this]
  have "\<exists>c. read_range args lines =
      (if hi < lo then usage_error c else tool_ok (join_with [nl] (map (numbered lines) [lo..hi])))"
    using assms unfolding read_range_def Let_def lo_def hi_def by auto
  then obtain c where "read_range args lines =
      (if hi < lo then usage_error c else tool_ok (join_with [nl] (map (numbered lines) [lo..hi])))" ..
  then show ?thesis
    unfolding Let_def lo_def [symmetric] hi_def [symmetric] slice
    by (cases "hi < lo") (simp_all add: usage_error_def)
qed

theorem read_range_slice_witness:
  "read_range [(lit ''start_line'', JInt 2), (lit ''end_line'', JInt 9)] [lit ''a'', lit ''b'', lit ''c'']
     = tool_ok (lit ''2: b'' @ nl # lit ''3: c'')"
proof -
  have g: "dget [(lit ''start_line'', JInt 2), (lit ''end_line'', JInt 9)] ''start_line'' = Some (JInt 2)"
    "dget [(lit ''start_line'', JInt 2), (lit ''end_line'', JInt 9)] ''end_line'' = Some (JInt 9)"
    by code_simp+
  have "join_with [nl] (map (\<lambda>(k, l). show_nat k @ lit '': '' @ l)
      (zip [2..<4] (take 2 (drop 1 [lit ''a'', lit ''b'', lit ''c''])))) = lit ''2: b'' @ nl # lit ''3: c''"
    by code_simp
  with read_range_slice [OF g, of "[lit ''a'', lit ''b'', lit ''c'']"] show ?thesis
    by (simp add: Let_def numeral_eq_Suc del: lit_Cons)
qed

section \<open>Reading a text file\<close>

lemma file_read_at_text:
  assumes wf: "wf_fs (tfs s)" and c: "canonical (tfs s) p"
    and f: "fmlookup (tfs s) p = Some (FileN (enc_all body))" "list_all scalar body"
    and size: "length (enc_all body) \<le> MAX_FILE_BYTES"
    and ok: "fs_fault env OpStat p (tfs s) = None" "fs_fault env OpRead p (tfs s) = None"
  shows "file_read_at env args a p s = (Inr (read_range args (splitlines (universal_newlines body))), s)"
proof -
  have k: "kstat (tfs s) p = Found p" using kstat_present [OF wf c] f by simp
  have l: "lookup_at (tfs s) p = Some (FileN (enc_all body))" using lookup_at_canonical [OF wf c] f by simp
  have d: "utf8_decode (enc_all body) = Inr body"
    using utf8_decode_encode [of body] f(2) by (simp add: utf8_encode_def)
  have "read_text env p s = (Inr (universal_newlines body), s)"
    using k f ok d by (simp add: read_text_def read_bytes_def kcall_def eff_defs)
  then have "attempt c (read_text env p) s = (Inr (Inr (universal_newlines body)), s)" for c
    by (simp add: attempt_Inr_iff)
  then show ?thesis
    using k l f size ok
    by (simp add: file_read_at_def path_exists_def path_is_file_def st_size_def kcall_def bindE_def ret_def)
qed

lemma file_read_runs:
  assumes "path_arg args = Some a" "workspace_target env ctx a (tfs s) = Inr (Some p)"
  shows "file_read_run env ctx args s = file_read_at env args a p s"
  using assms by (simp add: file_read_run_def get_target_def bindE_def)

end
