(* ===== verification/Config.thy ===== *)
theory Config
  imports FileRead
begin

text \<open>
  The task specification (\<^verbatim>\<open>config.py\<close>): the pydantic models as records, and \<^verbatim>\<open>load_task\<close>. YAML
  parsing and pydantic validation are third-party and are parameters.
\<close>

section \<open>Models\<close>

record api_key_secret_ref =
  ref_name :: pystr
  ref_key :: pystr

record model_spec =
  m_provider :: pystr
  m_name :: pystr
  m_api_key_secret_ref :: "api_key_secret_ref option"
  m_params :: "(pystr \<times> pystr) list"

record tool_spec =
  ts_name :: pystr
  ts_timeout_seconds :: "int option"

record workspace_spec =
  base_image :: pystr
  init_command :: "pystr list"

record resource_spec =
  cpu :: pystr
  memory :: pystr
  ephemeral_storage :: pystr

datatype checkpoint_mode = Manual | EveryStep | Interval

record checkpoint_policy_spec =
  cp_mode :: checkpoint_mode
  interval_seconds :: "int option"

record replay_spec =
  checkpoint_id :: pystr
  from_step :: int

record agent_task_spec =
  prompt :: pystr
  system_prompt :: pystr
  spec_model :: "model_spec option"
  spec_tools :: "tool_spec list"
  spec_workspace :: "workspace_spec option"
  spec_timeout_seconds :: "int option"
  spec_max_steps :: "int option"
  resources :: "resource_spec option"
  checkpoint_policy :: "checkpoint_policy_spec option"
  replay :: "replay_spec option"

text \<open>The field defaults.\<close>

definition default_spec :: agent_task_spec where
  "default_spec = \<lparr>prompt = [], system_prompt = [], spec_model = None, spec_tools = [],
     spec_workspace = None, spec_timeout_seconds = None, spec_max_steps = None, resources = None,
     checkpoint_policy = None, replay = None\<rparr>"

section \<open>load_task\<close>

text \<open>\<^verbatim>\<open>type(raw).__name__\<close>\<close>

fun py_type_name :: "json \<Rightarrow> pystr" where
  "py_type_name JNull = lit ''NoneType''"
| "py_type_name (JBool _) = lit ''bool''"
| "py_type_name (JInt _) = lit ''int''"
| "py_type_name (JFloat _) = lit ''float''"
| "py_type_name (JStr _) = lit ''str''"
| "py_type_name (JList _) = lit ''list''"
| "py_type_name (JObj _) = lit ''dict''"

text \<open>
  The projected form, or the \<^verbatim>\<open>spec\<close> of the full CRD form. \<open>safe_load\<close> is \<^verbatim>\<open>yaml.safe_load\<close> on
  documents made of JSON-shaped values and \<open>validate\<close> is \<^verbatim>\<open>AgentTaskSpec.model_validate\<close>.
\<close>

definition parse_task ::
  "(pystr \<Rightarrow> pyexc + json) \<Rightarrow> (json \<Rightarrow> pyexc + agent_task_spec) \<Rightarrow> pystr \<Rightarrow> pyexc + agent_task_spec" where
  "parse_task safe_load validate text =
     (case safe_load text of
        Inl x \<Rightarrow> Inl x
      | Inr (JObj raw) \<Rightarrow>
          (case (dget raw ''apiVersion'', dget raw ''spec'') of
             (Some _, Some spec) \<Rightarrow> validate spec
           | _ \<Rightarrow> validate (JObj raw))
      | Inr v \<Rightarrow> Inl (PyExc ValueError (lit ''task.yaml root must be a mapping, got '' @ py_type_name v)))"

definition load_task ::
  "'e tool_env_scheme \<Rightarrow> (pystr \<Rightarrow> pyexc + json) \<Rightarrow> (json \<Rightarrow> pyexc + agent_task_spec) \<Rightarrow> path \<Rightarrow>
     ('z tool_st_scheme, agent_task_spec) eff" where
  "load_task env safe_load validate p =
     bindE (read_text env p) (\<lambda>text. of_sum (parse_task safe_load validate text))"

section \<open>Properties\<close>

text \<open>
  The two accepted forms agree: a task file in the full CRD form loads to the same result as
  the file that holds only its \<^verbatim>\<open>spec\<close>.
\<close>

lemma parse_task_forms:
  assumes "safe_load full = Inr (JObj raw)" "dget raw ''apiVersion'' \<noteq> None" "dget raw ''spec'' = Some (JObj spec)"
    "safe_load projected = Inr (JObj spec)" "dget spec ''apiVersion'' = None \<or> dget spec ''spec'' = None"
  shows "parse_task safe_load validate full = parse_task safe_load validate projected"
  using assms by (auto simp: parse_task_def split: option.splits)

end
