(* ===== verification/TaskSchema.thy ===== *)
theory TaskSchema
  imports Config
begin

text \<open>
  The pydantic classes of \<^verbatim>\<open>config.py\<close> as data: every class body is the list of its fields with name,
  alias, type and default, and \<^verbatim>\<open>model_validate\<close> of the library is a parameter that interprets such a
  declaration. The locale \<open>pydantic\<close> states what the library documents of it. A validated instance
  is a dictionary from field names to values; \<open>task_of\<close> reads it into the records of theory Config.
\<close>

section \<open>Class declarations\<close>

text \<open>
  Types of fields: \<open>FOpt t\<close> is \<^verbatim>\<open>t | None\<close>, \<open>FStrDict\<close> is \<^verbatim>\<open>dict[str, str]\<close>. A field without an alias has
  its name as alias. Every class sets \<^verbatim>\<open>populate_by_name=True\<close>.
\<close>

datatype ftype =
    FStr
  | FInt
  | FStrDict
  | FLiteral "string list"
  | FOpt ftype
  | FList ftype
  | FModel "field list"
and field = Field (fname: string) (falias: string) (ftyp: ftype) (fdefault: json)

definition APIKeySecretRef :: ftype where
  "APIKeySecretRef = FModel
     [Field ''name'' ''name'' FStr (JStr []),
      Field ''key'' ''key'' FStr (JStr [])]"

definition ModelSpec :: ftype where
  "ModelSpec = FModel
     [Field ''provider'' ''provider'' FStr (JStr []),
      Field ''name'' ''name'' FStr (JStr []),
      Field ''api_key_secret_ref'' ''apiKeySecretRef'' (FOpt APIKeySecretRef) JNull,
      Field ''params'' ''params'' FStrDict (JObj [])]"

definition ToolSpec :: ftype where
  "ToolSpec = FModel
     [Field ''name'' ''name'' FStr (JStr []),
      Field ''timeout_seconds'' ''timeoutSeconds'' (FOpt FInt) JNull]"

definition WorkspaceSpec :: ftype where
  "WorkspaceSpec = FModel
     [Field ''base_image'' ''baseImage'' FStr (JStr []),
      Field ''init_command'' ''initCommand'' (FList FStr) (JList [])]"

definition ResourceSpec :: ftype where
  "ResourceSpec = FModel
     [Field ''cpu'' ''cpu'' FStr (JStr []),
      Field ''memory'' ''memory'' FStr (JStr []),
      Field ''ephemeral_storage'' ''ephemeralStorage'' FStr (JStr [])]"

definition CheckpointMode :: "string list" where
  "CheckpointMode = [''Manual'', ''EveryStep'', ''Interval'']"

definition CheckpointPolicySpec :: ftype where
  "CheckpointPolicySpec = FModel
     [Field ''mode'' ''mode'' (FLiteral CheckpointMode) (JStr (lit ''Manual'')),
      Field ''interval_seconds'' ''intervalSeconds'' (FOpt FInt) JNull]"

definition ReplaySpec :: ftype where
  "ReplaySpec = FModel
     [Field ''checkpoint_id'' ''checkpointId'' FStr (JStr []),
      Field ''from_step'' ''fromStep'' FInt (JInt 0)]"

definition AgentTaskSpec :: ftype where
  "AgentTaskSpec = FModel
     [Field ''prompt'' ''prompt'' FStr (JStr []),
      Field ''system_prompt'' ''systemPrompt'' FStr (JStr []),
      Field ''model'' ''model'' (FOpt ModelSpec) JNull,
      Field ''tools'' ''tools'' (FList ToolSpec) (JList []),
      Field ''workspace'' ''workspace'' (FOpt WorkspaceSpec) JNull,
      Field ''timeout_seconds'' ''timeoutSeconds'' (FOpt FInt) JNull,
      Field ''max_steps'' ''maxSteps'' (FOpt FInt) JNull,
      Field ''resources'' ''resources'' (FOpt ResourceSpec) JNull,
      Field ''checkpoint_policy'' ''checkpointPolicy'' (FOpt CheckpointPolicySpec) JNull,
      Field ''replay'' ''replay'' (FOpt ReplaySpec) JNull]"

lemmas class_defs = APIKeySecretRef_def ModelSpec_def ToolSpec_def WorkspaceSpec_def ResourceSpec_def
  CheckpointPolicySpec_def ReplaySpec_def AgentTaskSpec_def

section \<open>Instances\<close>

text \<open>\<^verbatim>\<open>getattr(instance, name)\<close>\<close>

fun attr :: "json \<Rightarrow> string \<Rightarrow> json" where
  "attr (JObj d) k = (case dget d k of Some v \<Rightarrow> v | None \<Rightarrow> JNull)"
| "attr _ k = JNull"

fun to_str :: "json \<Rightarrow> pystr" where
  "to_str (JStr s) = s"
| "to_str _ = []"

fun to_int :: "json \<Rightarrow> int" where
  "to_int (JInt n) = n"
| "to_int _ = 0"

fun to_opt :: "(json \<Rightarrow> 'a) \<Rightarrow> json \<Rightarrow> 'a option" where
  "to_opt f JNull = None"
| "to_opt f v = Some (f v)"

fun to_list :: "(json \<Rightarrow> 'a) \<Rightarrow> json \<Rightarrow> 'a list" where
  "to_list f (JList vs) = map f vs"
| "to_list f _ = []"

fun to_dict :: "json \<Rightarrow> (pystr \<times> pystr) list" where
  "to_dict (JObj d) = map (\<lambda>(k, v). (k, to_str v)) d"
| "to_dict _ = []"

definition to_mode :: "json \<Rightarrow> checkpoint_mode" where
  "to_mode v = (if v = JStr (lit ''EveryStep'') then EveryStep
     else if v = JStr (lit ''Interval'') then Interval else Manual)"

definition ref_of :: "json \<Rightarrow> api_key_secret_ref" where
  "ref_of v = \<lparr>ref_name = to_str (attr v ''name''), ref_key = to_str (attr v ''key'')\<rparr>"

definition model_of :: "json \<Rightarrow> model_spec" where
  "model_of v = \<lparr>m_provider = to_str (attr v ''provider''), m_name = to_str (attr v ''name''),
     m_api_key_secret_ref = to_opt ref_of (attr v ''api_key_secret_ref''),
     m_params = to_dict (attr v ''params'')\<rparr>"

definition tool_of :: "json \<Rightarrow> tool_spec" where
  "tool_of v = \<lparr>ts_name = to_str (attr v ''name''), ts_timeout_seconds = to_opt to_int (attr v ''timeout_seconds'')\<rparr>"

definition workspace_of :: "json \<Rightarrow> workspace_spec" where
  "workspace_of v = \<lparr>base_image = to_str (attr v ''base_image''),
     init_command = to_list to_str (attr v ''init_command'')\<rparr>"

definition resource_of :: "json \<Rightarrow> resource_spec" where
  "resource_of v = \<lparr>cpu = to_str (attr v ''cpu''), memory = to_str (attr v ''memory''),
     ephemeral_storage = to_str (attr v ''ephemeral_storage'')\<rparr>"

definition checkpoint_of :: "json \<Rightarrow> checkpoint_policy_spec" where
  "checkpoint_of v = \<lparr>cp_mode = to_mode (attr v ''mode''),
     interval_seconds = to_opt to_int (attr v ''interval_seconds'')\<rparr>"

definition replay_of :: "json \<Rightarrow> replay_spec" where
  "replay_of v = \<lparr>checkpoint_id = to_str (attr v ''checkpoint_id''), from_step = to_int (attr v ''from_step'')\<rparr>"

definition task_of :: "json \<Rightarrow> agent_task_spec" where
  "task_of v = \<lparr>prompt = to_str (attr v ''prompt''), system_prompt = to_str (attr v ''system_prompt''),
     spec_model = to_opt model_of (attr v ''model''), spec_tools = to_list tool_of (attr v ''tools''),
     spec_workspace = to_opt workspace_of (attr v ''workspace''),
     spec_timeout_seconds = to_opt to_int (attr v ''timeout_seconds''),
     spec_max_steps = to_opt to_int (attr v ''max_steps''),
     resources = to_opt resource_of (attr v ''resources''),
     checkpoint_policy = to_opt checkpoint_of (attr v ''checkpoint_policy''),
     replay = to_opt replay_of (attr v ''replay'')\<rparr>"

lemmas instance_defs = ref_of_def model_of_def tool_of_def workspace_of_def resource_of_def checkpoint_of_def
  replay_of_def task_of_def

text \<open>\<^verbatim>\<open>AgentTaskSpec.model_validate(raw)\<close>\<close>

definition task_validate :: "(ftype \<Rightarrow> json \<Rightarrow> pyexc + json) \<Rightarrow> json \<Rightarrow> pyexc + agent_task_spec" where
  "task_validate validate raw = map_sum id task_of (validate AgentTaskSpec raw)"

section \<open>What pydantic documents\<close>

text \<open>
  A field takes the value under its alias, else the one under its name, else its default, which is
  not validated. Keys that belong to no field are ignored.
\<close>

definition field_value :: "(ftype \<Rightarrow> json \<Rightarrow> pyexc + json) \<Rightarrow> pydict \<Rightarrow> field \<Rightarrow> pyexc + json" where
  "field_value validate d f =
     (case dget d (falias f) of
        Some v \<Rightarrow> validate (ftyp f) v
      | None \<Rightarrow>
          (case dget d (fname f) of
             Some v \<Rightarrow> validate (ftyp f) v
           | None \<Rightarrow> Inr (fdefault f)))"

fun invalid :: "pyexc + 'a \<Rightarrow> bool" where
  "invalid (Inl x) = (exc_type x = ValidationError)"
| "invalid (Inr _) = False"

locale pydantic =
  fixes validate :: "ftype \<Rightarrow> json \<Rightarrow> pyexc + json"
  assumes str: "validate FStr (JStr s) = Inr (JStr s)"
    and int: "validate FInt (JInt n) = Inr (JInt n)"
    and dict: "distinct (map fst kvs) \<Longrightarrow>
      validate FStrDict (JObj (map (\<lambda>(k, v). (k, JStr v)) kvs)) = Inr (JObj (map (\<lambda>(k, v). (k, JStr v)) kvs))"
    and literal: "s \<in> lit ` set cs \<Longrightarrow> validate (FLiteral cs) (JStr s) = Inr (JStr s)"
    and literal_invalid: "s \<notin> lit ` set cs \<Longrightarrow> invalid (validate (FLiteral cs) (JStr s))"
    and opt_null: "validate (FOpt t) JNull = Inr JNull"
    and opt_some: "v \<noteq> JNull \<Longrightarrow> validate (FOpt t) v = validate t v"
    and list: "list_all2 (\<lambda>v w. validate t v = Inr w) vs ws \<Longrightarrow> validate (FList t) (JList vs) = Inr (JList ws)"
    and list_null: "invalid (validate (FList t) JNull)"
    and model: "list_all2 (\<lambda>f w. field_value validate d f = Inr w) fs ws \<Longrightarrow>
      validate (FModel fs) (JObj d) = Inr (JObj (zip (map (lit \<circ> fname) fs) ws))"
    and model_invalid: "f \<in> set fs \<Longrightarrow> invalid (field_value validate d f) \<Longrightarrow>
      invalid (validate (FModel fs) (JObj d))"
begin

lemma list_map:
  assumes "\<And>x. x \<in> set xs \<Longrightarrow> validate t (f x) = Inr (g x)"
  shows "validate (FList t) (JList (map f xs)) = Inr (JList (map g xs))"
  using assms by (intro list) (simp add: list_all2_conv_all_nth)

lemma strs: "validate (FList FStr) (JList (map JStr ss)) = Inr (JList (map JStr ss))"
  by (rule list_map) (rule str)

end

section \<open>A reference validator\<close>

text \<open>
  An executable validator with the documented behaviour, in strict mode: a value of any other type is
  refused.
\<close>

fun collect :: "(pyexc + 'a) list \<Rightarrow> pyexc + 'a list" where
  "collect [] = Inr []"
| "collect (Inl x # rs) = Inl x"
| "collect (Inr v # rs) = map_sum id ((#) v) (collect rs)"

definition validation_error :: pyexc where
  "validation_error = PyExc ValidationError (lit ''validation error'')"

fun is_jstr :: "json \<Rightarrow> bool" where
  "is_jstr (JStr _) = True"
| "is_jstr _ = False"

lemma field_type_smaller: "f \<in> set fs \<Longrightarrow> size (ftyp f) < Suc (size_list size fs)"
  by (cases f) (auto simp: less_Suc_eq_le intro: size_list_estimation')

function strict :: "ftype \<Rightarrow> json \<Rightarrow> pyexc + json" where
  "strict FStr v = (if is_jstr v then Inr v else Inl validation_error)"
| "strict FInt v = (case v of JInt n \<Rightarrow> Inr v | _ \<Rightarrow> Inl validation_error)"
| "strict FStrDict v = (case v of
       JObj d \<Rightarrow> if list_all (is_jstr \<circ> snd) d then Inr v else Inl validation_error
     | _ \<Rightarrow> Inl validation_error)"
| "strict (FLiteral cs) v = (if v \<in> (JStr \<circ> lit) ` set cs then Inr v else Inl validation_error)"
| "strict (FOpt t) v = (if v = JNull then Inr JNull else strict t v)"
| "strict (FList t) v = (case v of
       JList vs \<Rightarrow> map_sum id JList (collect (map (strict t) vs))
     | _ \<Rightarrow> Inl validation_error)"
| "strict (FModel fs) v = (case v of
       JObj d \<Rightarrow>
         map_sum id (\<lambda>ws. JObj (zip (map (lit \<circ> fname) fs) ws))
           (collect (map (\<lambda>f. case dget d (falias f) of
                Some v \<Rightarrow> strict (ftyp f) v
              | None \<Rightarrow> (case dget d (fname f) of Some v \<Rightarrow> strict (ftyp f) v | None \<Rightarrow> Inr (fdefault f))) fs))
     | _ \<Rightarrow> Inl validation_error)"
  by pat_completeness auto
termination
  by (relation "measure (size \<circ> fst)") (auto simp: field_type_smaller)

lemma strict_model:
  "strict (FModel fs) (JObj d) =
     map_sum id (\<lambda>ws. JObj (zip (map (lit \<circ> fname) fs) ws)) (collect (map (field_value strict d) fs))"
  by (simp add: field_value_def [abs_def])

lemma collect_all2: "list_all2 (\<lambda>x w. f x = Inr w) xs ws \<Longrightarrow> collect (map f xs) = Inr ws"
  by (induction rule: list_all2_induct) simp_all

lemma map_sum_Inl: "map_sum id f r = Inl x \<longleftrightarrow> r = Inl x"
  by (cases r) simp_all

lemma collect_Inl: "collect rs = Inl x \<Longrightarrow> Inl x \<in> set rs"
  by (induction rs rule: collect.induct) (auto simp: map_sum_Inl)

lemma collect_invalid:
  assumes "r \<in> set rs" "invalid r" and bad: "\<And>x. Inl x \<in> set rs \<Longrightarrow> exc_type x = ValidationError"
  shows "invalid (collect rs)"
  using assms
proof (induction rs rule: collect.induct)
  case (3 v rs)
  then have "invalid (collect rs)" by auto
  then show ?case by (cases "collect rs") simp_all
qed auto

lemma strict_error: "strict t v = Inl x \<Longrightarrow> exc_type x = ValidationError"
proof (induction t v arbitrary: x rule: strict.induct)
  case (6 t v)
  then show ?case
    by (auto simp: validation_error_def map_sum_Inl split: json.splits dest!: collect_Inl)
next
  case (7 fs v)
  then show ?case
    by (auto simp: validation_error_def map_sum_Inl split: json.splits option.splits dest!: collect_Inl)
qed (auto simp: validation_error_def split: if_splits json.splits)

lemma field_value_error: "field_value strict d f = Inl x \<Longrightarrow> exc_type x = ValidationError"
  by (auto simp: field_value_def strict_error split: option.splits)

interpretation strict_pydantic: pydantic strict
proof unfold_locales
  show "invalid (strict (FModel fs) (JObj d))" if "f \<in> set fs" "invalid (field_value strict d f)" for f fs d
  proof -
    have "invalid (collect (map (field_value strict d) fs))"
      using that by (intro collect_invalid [of "field_value strict d f"]) (auto dest: field_value_error sym)
    then show ?thesis by (cases "collect (map (field_value strict d) fs)") (simp_all add: strict_model del: strict.simps)
  qed
  show "strict (FModel fs) (JObj d) = Inr (JObj (zip (map (lit \<circ> fname) fs) ws))"
    if "list_all2 (\<lambda>f w. field_value strict d f = Inr w) fs ws" for fs d ws
    using collect_all2 [OF that] by (simp add: strict_model del: strict.simps)
qed (auto simp: validation_error_def collect_all2 list_all_iff)

end
