(* ===== verification/OperatorTask.thy ===== *)
theory OperatorTask
  imports TaskSchema
begin

text \<open>
  The contract between the operator and the SDK: the Go structs of \<^verbatim>\<open>api/v1/agenttask_types.go\<close>, the
  JSON value their tags make of them (which \<^verbatim>\<open>buildConfigMapForAgentTask\<close> writes to \<^verbatim>\<open>task.yaml\<close>), and
  that \<^verbatim>\<open>load_task\<close> reads it back field for field.
\<close>

section \<open>The Go types\<close>

text \<open>
  A pointer is an option; a nil slice differs from an empty one only where the tag lacks
  \<^verbatim>\<open>omitempty\<close>. A \<^verbatim>\<open>resource.Quantity\<close> is the text its marshaller writes, a map the list of its
  entries in the order they are written.
\<close>

record go_ref =
  ga_name :: pystr
  ga_key :: pystr

record go_model =
  gm_provider :: pystr
  gm_name :: pystr
  gm_ref :: "go_ref option"
  gm_params :: "(pystr \<times> pystr) list"

record go_tool =
  gt_name :: pystr
  gt_timeout :: "64 word option"

record go_workspace =
  gw_image :: pystr
  gw_init :: "pystr list"

record go_resources =
  gr_cpu :: pystr
  gr_memory :: pystr
  gr_storage :: pystr

record go_checkpoint =
  gc_mode :: pystr
  gc_interval :: "64 word option"

record go_replay =
  gp_checkpoint :: pystr
  gp_from :: "64 word"

record go_spec =
  go_prompt :: pystr
  go_system :: pystr
  go_model :: "go_model option"
  go_tools :: "go_tool list option"
  go_workspace :: "go_workspace option"
  go_timeout :: "64 word option"
  go_max_steps :: "64 word option"
  go_resources :: "go_resources option"
  go_checkpoint :: "go_checkpoint option"
  go_replay :: "go_replay option"

section \<open>Marshalling\<close>

text \<open>
  \<^verbatim>\<open>encoding/json\<close> on the struct tags. \<^verbatim>\<open>omitempty\<close> leaves out an empty string, map or slice, a zero
  number and a nil pointer, and has no effect on a struct such as a \<^verbatim>\<open>Quantity\<close>. The YAML writer
  sorts the keys.
\<close>

definition omit_str :: "string \<Rightarrow> pystr \<Rightarrow> pydict" where
  "omit_str k s = (if s = [] then [] else [(lit k, JStr s)])"

definition omit_ptr :: "string \<Rightarrow> ('a \<Rightarrow> json) \<Rightarrow> 'a option \<Rightarrow> pydict" where
  "omit_ptr k f p = (case p of None \<Rightarrow> [] | Some x \<Rightarrow> [(lit k, f x)])"

definition ptr :: "('a \<Rightarrow> json) \<Rightarrow> 'a option \<Rightarrow> json" where
  "ptr f p = (case p of None \<Rightarrow> JNull | Some x \<Rightarrow> f x)"

definition int64 :: "64 word \<Rightarrow> json" where
  "int64 n = JInt (sint n)"

definition go_strings :: "(pystr \<times> pystr) list \<Rightarrow> json" where
  "go_strings d = JObj (map (\<lambda>(k, v). (k, JStr v)) d)"

definition marshal_ref :: "go_ref \<Rightarrow> json" where
  "marshal_ref r = JObj (omit_str ''key'' (ga_key r) @ omit_str ''name'' (ga_name r))"

definition marshal_model :: "go_model \<Rightarrow> json" where
  "marshal_model m = JObj
     (omit_ptr ''apiKeySecretRef'' marshal_ref (gm_ref m) @ omit_str ''name'' (gm_name m)
      @ (if gm_params m = [] then [] else [(lit ''params'', go_strings (gm_params m))])
      @ omit_str ''provider'' (gm_provider m))"

definition marshal_tool :: "go_tool \<Rightarrow> json" where
  "marshal_tool t = JObj (omit_str ''name'' (gt_name t) @ omit_ptr ''timeoutSeconds'' int64 (gt_timeout t))"

definition marshal_workspace :: "go_workspace \<Rightarrow> json" where
  "marshal_workspace w = JObj
     (omit_str ''baseImage'' (gw_image w)
      @ (if gw_init w = [] then [] else [(lit ''initCommand'', JList (map JStr (gw_init w)))]))"

definition marshal_resources :: "go_resources \<Rightarrow> json" where
  "marshal_resources r = JObj [(lit ''cpu'', JStr (gr_cpu r)), (lit ''ephemeralStorage'', JStr (gr_storage r)),
     (lit ''memory'', JStr (gr_memory r))]"

definition marshal_checkpoint :: "go_checkpoint \<Rightarrow> json" where
  "marshal_checkpoint c = JObj [(lit ''intervalSeconds'', ptr int64 (gc_interval c)), (lit ''mode'', JStr (gc_mode c))]"

definition marshal_replay :: "go_replay \<Rightarrow> json" where
  "marshal_replay r = JObj (omit_str ''checkpointId'' (gp_checkpoint r)
     @ (if gp_from r = 0 then [] else [(lit ''fromStep'', int64 (gp_from r))]))"

definition marshal_spec :: "go_spec \<Rightarrow> json" where
  "marshal_spec g = JObj
     (omit_ptr ''checkpointPolicy'' marshal_checkpoint (go_checkpoint g)
      @ omit_ptr ''maxSteps'' int64 (go_max_steps g)
      @ [(lit ''model'', ptr marshal_model (go_model g)), (lit ''prompt'', JStr (go_prompt g))]
      @ omit_ptr ''replay'' marshal_replay (go_replay g)
      @ omit_ptr ''resources'' marshal_resources (go_resources g)
      @ [(lit ''systemPrompt'', JStr (go_system g))]
      @ omit_ptr ''timeoutSeconds'' int64 (go_timeout g)
      @ [(lit ''tools'', ptr (\<lambda>ts. JList (map marshal_tool ts)) (go_tools g))]
      @ omit_ptr ''workspace'' marshal_workspace (go_workspace g))"

lemmas marshal_defs = omit_str_def omit_ptr_def ptr_def int64_def go_strings_def marshal_ref_def marshal_model_def
  marshal_tool_def marshal_workspace_def marshal_resources_def marshal_checkpoint_def marshal_replay_def

section \<open>The task the operator means\<close>

definition mode_of :: "pystr \<Rightarrow> checkpoint_mode" where
  "mode_of m = to_mode (JStr m)"

definition py_ref :: "go_ref \<Rightarrow> api_key_secret_ref" where
  "py_ref r = \<lparr>ref_name = ga_name r, ref_key = ga_key r\<rparr>"

definition py_model :: "go_model \<Rightarrow> model_spec" where
  "py_model m = \<lparr>m_provider = gm_provider m, m_name = gm_name m,
     m_api_key_secret_ref = map_option py_ref (gm_ref m), m_params = gm_params m\<rparr>"

definition py_tool :: "go_tool \<Rightarrow> tool_spec" where
  "py_tool t = \<lparr>ts_name = gt_name t, ts_timeout_seconds = map_option sint (gt_timeout t)\<rparr>"

definition py_workspace :: "go_workspace \<Rightarrow> workspace_spec" where
  "py_workspace w = \<lparr>base_image = gw_image w, init_command = gw_init w\<rparr>"

definition py_resources :: "go_resources \<Rightarrow> resource_spec" where
  "py_resources r = \<lparr>cpu = gr_cpu r, memory = gr_memory r, ephemeral_storage = gr_storage r\<rparr>"

definition py_checkpoint :: "go_checkpoint \<Rightarrow> checkpoint_policy_spec" where
  "py_checkpoint c = \<lparr>cp_mode = mode_of (gc_mode c), interval_seconds = map_option sint (gc_interval c)\<rparr>"

definition py_replay :: "go_replay \<Rightarrow> replay_spec" where
  "py_replay r = \<lparr>checkpoint_id = gp_checkpoint r, from_step = sint (gp_from r)\<rparr>"

definition py_spec :: "go_spec \<Rightarrow> agent_task_spec" where
  "py_spec g = \<lparr>prompt = go_prompt g, system_prompt = go_system g, spec_model = map_option py_model (go_model g),
     spec_tools = (case go_tools g of None \<Rightarrow> [] | Some ts \<Rightarrow> map py_tool ts),
     spec_workspace = map_option py_workspace (go_workspace g),
     spec_timeout_seconds = map_option sint (go_timeout g), spec_max_steps = map_option sint (go_max_steps g),
     resources = map_option py_resources (go_resources g),
     checkpoint_policy = map_option py_checkpoint (go_checkpoint g), replay = map_option py_replay (go_replay g)\<rparr>"

lemmas py_defs = mode_of_def py_ref_def py_model_def py_tool_def py_workspace_def py_resources_def
  py_checkpoint_def py_replay_def

text \<open>What the SDK asks of the operator's value beyond its types.\<close>

definition valid_mode :: "go_spec \<Rightarrow> bool" where
  "valid_mode g \<longleftrightarrow> (case go_checkpoint g of None \<Rightarrow> True | Some c \<Rightarrow> gc_mode c \<in> lit ` set CheckpointMode)"

definition param_keys_distinct :: "go_spec \<Rightarrow> bool" where
  "param_keys_distinct g \<longleftrightarrow> (case go_model g of None \<Rightarrow> True | Some m \<Rightarrow> distinct (map fst (gm_params m)))"

section \<open>Each class reads back what was marshalled\<close>

definition reads_as :: "(ftype \<Rightarrow> json \<Rightarrow> pyexc + json) \<Rightarrow> ftype \<Rightarrow> json \<Rightarrow> (json \<Rightarrow> 'a) \<Rightarrow> 'a \<Rightarrow> bool" where
  "reads_as validate t v f x \<longleftrightarrow> (\<exists>w. validate t v = Inr w \<and> w \<noteq> JNull \<and> f w = x)"

text \<open>Looking a key up in a marshalled object.\<close>

lemma dget_marshal [simp]:
  "dget [] k = None"
  "dget ((lit k', v) # d) k = (if k' = k then Some v else dget d k)"
  "dget (omit_str k' s @ d) k = (if k' = k \<and> s \<noteq> [] then Some (JStr s) else dget d k)"
  "dget (omit_ptr k' f p @ d) k = (if k' = k \<and> p \<noteq> None then map_option f p else dget d k)"
  "dget (omit_str k' s) k = (if k' = k \<and> s \<noteq> [] then Some (JStr s) else None)"
  "dget (omit_ptr k' f p) k = (if k' = k then map_option f p else None)"
  by (auto simp: dget_def omit_str_def omit_ptr_def lit_eq_iff split: option.splits)

lemma dget_if: "dget ((if b then [] else [(lit k', v)]) @ d) k = (if \<not> b \<and> k' = k then Some v else dget d k)"
  "dget (if b then [] else [(lit k', v)]) k = (if \<not> b \<and> k' = k then Some v else None)"
  by (auto simp: dget_def lit_eq_iff)

text \<open>Keys are compared as literals from here on.\<close>

declare lit_Nil [simp del] lit_Cons [simp del]

lemma attr_instance [simp]:
  "attr (JObj ((lit n, w) # d)) k = (if n = k then w else attr (JObj d) k)"
  by (auto simp: dget_def lit_eq_iff)

declare attr.simps(1) [simp del]

lemma to_opt_Some: "w \<noteq> JNull \<Longrightarrow> to_opt g w = Some (g w)"
  by (cases w) simp_all

lemma to_opt_int [simp]: "to_opt to_int (ptr int64 p) = map_option sint p"
  by (cases p) (simp_all add: ptr_def int64_def)

lemma marshal_not_null [simp]:
  "marshal_ref r \<noteq> JNull" "marshal_model m \<noteq> JNull" "marshal_workspace w \<noteq> JNull"
  "marshal_resources q \<noteq> JNull" "marshal_checkpoint c \<noteq> JNull" "marshal_replay p \<noteq> JNull"
  by (simp_all add: marshal_defs)

lemma spec_lookup:
  assumes "marshal_spec g = JObj d"
  shows "dget d ''prompt'' = Some (JStr (go_prompt g))" "dget d ''systemPrompt'' = Some (JStr (go_system g))"
    "dget d ''model'' = Some (ptr marshal_model (go_model g))"
    "dget d ''tools'' = Some (ptr (\<lambda>ts. JList (map marshal_tool ts)) (go_tools g))"
    "dget d ''workspace'' = map_option marshal_workspace (go_workspace g)"
    "dget d ''timeoutSeconds'' = map_option int64 (go_timeout g)" "dget d ''timeout_seconds'' = None"
    "dget d ''maxSteps'' = map_option int64 (go_max_steps g)" "dget d ''max_steps'' = None"
    "dget d ''resources'' = map_option marshal_resources (go_resources g)"
    "dget d ''checkpointPolicy'' = map_option marshal_checkpoint (go_checkpoint g)" "dget d ''checkpoint_policy'' = None"
    "dget d ''replay'' = map_option marshal_replay (go_replay g)"
  using assms by (auto simp: marshal_spec_def)

context pydantic
begin

lemma model_reads:
  assumes "list_all2 (\<lambda>f w. field_value validate d f = Inr w) fs ws"
    and "f (JObj (zip (map (lit \<circ> fname) fs) ws)) = x"
  shows "reads_as validate (FModel fs) (JObj d) f x"
  using model [OF assms(1)] assms(2) by (simp add: reads_as_def)

text \<open>Field by field: a text, a number, an optional number, an optional object.\<close>

lemma str_field:
  assumes "dget d a = (if s = [] then None else Some (JStr s)) \<or> dget d a = Some (JStr s)"
    "dget d a = None \<longrightarrow> dget d n = None"
  shows "field_value validate d (Field n a FStr (JStr [])) = Inr (JStr s)"
  using assms by (auto simp: field_value_def str split: if_splits)

lemma opt_int: "validate (FOpt FInt) (ptr int64 p) = Inr (ptr int64 p)"
  by (cases p) (simp_all add: ptr_def int64_def opt_null opt_some int)

lemma opt_int_field:
  assumes "dget d a = map_option int64 p \<or> dget d a = Some (ptr int64 p)" "dget d a = None \<longrightarrow> dget d n = None"
  shows "field_value validate d (Field n a (FOpt FInt) JNull) = Inr (ptr int64 p)"
  using assms opt_int [of p] by (cases p) (auto simp: field_value_def ptr_def)

lemma opt_field:
  assumes d: "dget d a = map_option f p \<or> dget d a = Some (ptr f p)" "dget d a = None \<longrightarrow> dget d n = None"
    and f: "\<And>x. p = Some x \<Longrightarrow> f x \<noteq> JNull \<and> reads_as validate t (f x) g (h x)"
  shows "\<exists>w. field_value validate d (Field n a (FOpt t) JNull) = Inr w \<and> to_opt g w = map_option h p"
proof (cases p)
  case None
  with d show ?thesis by (intro exI [of _ JNull]) (auto simp: field_value_def ptr_def opt_null)
next
  case (Some x)
  from f [OF Some] obtain w where "f x \<noteq> JNull" "validate t (f x) = Inr w" "w \<noteq> JNull" "g w = h x"
    by (auto simp: reads_as_def)
  then show ?thesis using d Some
    by (intro exI [of _ w]) (auto simp: field_value_def ptr_def opt_some to_opt_Some)
qed

text \<open>Class by class.\<close>

lemma ref_reads: "reads_as validate APIKeySecretRef (marshal_ref r) ref_of (py_ref r)"
  unfolding APIKeySecretRef_def marshal_ref_def
  by (rule model_reads [where ws = "[JStr (ga_name r), JStr (ga_key r)]"])
    (auto intro!: str_field simp: py_ref_def ref_of_def)

lemma params_field:
  assumes "distinct (map fst ps)" "dget d ''params'' = (if ps = [] then None else Some (go_strings ps))"
  shows "field_value validate d (Field ''params'' ''params'' FStrDict (JObj [])) = Inr (go_strings ps)"
  using assms by (auto simp: field_value_def go_strings_def dict)

lemma model_spec_reads:
  assumes "distinct (map fst (gm_params m))"
  shows "reads_as validate ModelSpec (marshal_model m) model_of (py_model m)"
proof -
  let ?d = "omit_ptr ''apiKeySecretRef'' marshal_ref (gm_ref m) @ omit_str ''name'' (gm_name m)
      @ (if gm_params m = [] then [] else [(lit ''params'', go_strings (gm_params m))])
      @ omit_str ''provider'' (gm_provider m)"
  have "\<exists>w. field_value validate ?d (Field ''api_key_secret_ref'' ''apiKeySecretRef'' (FOpt APIKeySecretRef) JNull)
      = Inr w \<and> to_opt ref_of w = map_option py_ref (gm_ref m)"
    by (rule opt_field [where f = marshal_ref]) (cases "gm_ref m"; simp add: dget_if ref_reads)+
  then obtain w where w: "field_value validate ?d
      (Field ''api_key_secret_ref'' ''apiKeySecretRef'' (FOpt APIKeySecretRef) JNull) = Inr w"
    "to_opt ref_of w = map_option py_ref (gm_ref m)" by blast
  have dict: "to_dict (go_strings (gm_params m)) = gm_params m"
    by (simp add: go_strings_def comp_def case_prod_beta)
  show ?thesis
    unfolding ModelSpec_def marshal_model_def
    by (rule model_reads [where ws = "[JStr (gm_provider m), JStr (gm_name m), w, go_strings (gm_params m)]"])
      (auto intro!: str_field params_field assms simp: w dict dget_if py_model_def model_of_def)
qed

lemma tool_reads: "reads_as validate ToolSpec (marshal_tool t) tool_of (py_tool t)"
  unfolding ToolSpec_def marshal_tool_def
  by (rule model_reads [where ws = "[JStr (gt_name t), ptr int64 (gt_timeout t)]"])
    (auto intro!: str_field opt_int_field simp: py_tool_def tool_of_def)

lemma workspace_reads: "reads_as validate WorkspaceSpec (marshal_workspace w) workspace_of (py_workspace w)"
  unfolding WorkspaceSpec_def marshal_workspace_def
  by (rule model_reads [where ws = "[JStr (gw_image w), JList (map JStr (gw_init w))]"])
    (auto intro!: str_field simp: field_value_def str strs dget_if py_workspace_def workspace_of_def comp_def)

lemma resource_reads: "reads_as validate ResourceSpec (marshal_resources r) resource_of (py_resources r)"
  unfolding ResourceSpec_def marshal_resources_def
  by (rule model_reads [where ws = "[JStr (gr_cpu r), JStr (gr_memory r), JStr (gr_storage r)]"])
    (auto intro!: str_field simp: py_resources_def resource_of_def)

lemma checkpoint_reads:
  assumes "gc_mode c \<in> lit ` set CheckpointMode"
  shows "reads_as validate CheckpointPolicySpec (marshal_checkpoint c) checkpoint_of (py_checkpoint c)"
  unfolding CheckpointPolicySpec_def marshal_checkpoint_def
  by (rule model_reads [where ws = "[JStr (gc_mode c), ptr int64 (gc_interval c)]"])
    (simp_all add: field_value_def opt_int literal [OF assms] py_checkpoint_def checkpoint_of_def mode_of_def)

lemma replay_reads: "reads_as validate ReplaySpec (marshal_replay r) replay_of (py_replay r)"
  unfolding ReplaySpec_def marshal_replay_def
  by (rule model_reads [where ws = "[JStr (gp_checkpoint r), int64 (gp_from r)]"])
    (auto intro!: str_field simp: field_value_def str int64_def int dget_if py_replay_def replay_of_def)

text \<open>A tool list, an optional object, and the whole task.\<close>

lemma tools_read:
  obtains w where "validate (FList ToolSpec) (JList (map marshal_tool ts)) = Inr w" "to_list tool_of w = map py_tool ts"
proof -
  define g where "g t = projr (validate ToolSpec (marshal_tool t))" for t
  have g: "validate ToolSpec (marshal_tool t) = Inr (g t)" "tool_of (g t) = py_tool t" for t
    using tool_reads [of t] by (auto simp: reads_as_def g_def)
  show thesis
    by (rule that [OF list_map [of ts ToolSpec marshal_tool g]]) (simp_all add: g)
qed

lemma spec_objects:
  assumes d: "marshal_spec g = JObj d" and ts: "go_tools g = Some ts"
    and mode: "valid_mode g" and params: "param_keys_distinct g"
  obtains wm wt ww wr wc wp where
    "field_value validate d (Field ''model'' ''model'' (FOpt ModelSpec) JNull) = Inr wm"
    "to_opt model_of wm = map_option py_model (go_model g)"
    "field_value validate d (Field ''tools'' ''tools'' (FList ToolSpec) (JList [])) = Inr wt"
    "to_list tool_of wt = map py_tool ts"
    "field_value validate d (Field ''workspace'' ''workspace'' (FOpt WorkspaceSpec) JNull) = Inr ww"
    "to_opt workspace_of ww = map_option py_workspace (go_workspace g)"
    "field_value validate d (Field ''resources'' ''resources'' (FOpt ResourceSpec) JNull) = Inr wr"
    "to_opt resource_of wr = map_option py_resources (go_resources g)"
    "field_value validate d (Field ''checkpoint_policy'' ''checkpointPolicy'' (FOpt CheckpointPolicySpec) JNull) = Inr wc"
    "to_opt checkpoint_of wc = map_option py_checkpoint (go_checkpoint g)"
    "field_value validate d (Field ''replay'' ''replay'' (FOpt ReplaySpec) JNull) = Inr wp"
    "to_opt replay_of wp = map_option py_replay (go_replay g)"
proof -
  note look = spec_lookup [OF d]
  have m: "\<exists>w. field_value validate d (Field ''model'' ''model'' (FOpt ModelSpec) JNull) = Inr w
      \<and> to_opt model_of w = map_option py_model (go_model g)"
    by (rule opt_field [where f = marshal_model])
      (use params in \<open>auto simp: look model_spec_reads param_keys_distinct_def\<close>)
  have w: "\<exists>w. field_value validate d (Field ''workspace'' ''workspace'' (FOpt WorkspaceSpec) JNull) = Inr w
      \<and> to_opt workspace_of w = map_option py_workspace (go_workspace g)"
    by (rule opt_field [where f = marshal_workspace]) (auto simp: look workspace_reads)
  have r: "\<exists>w. field_value validate d (Field ''resources'' ''resources'' (FOpt ResourceSpec) JNull) = Inr w
      \<and> to_opt resource_of w = map_option py_resources (go_resources g)"
    by (rule opt_field [where f = marshal_resources]) (auto simp: look resource_reads)
  have c: "\<exists>w. field_value validate d
        (Field ''checkpoint_policy'' ''checkpointPolicy'' (FOpt CheckpointPolicySpec) JNull) = Inr w
      \<and> to_opt checkpoint_of w = map_option py_checkpoint (go_checkpoint g)"
    by (rule opt_field [where f = marshal_checkpoint])
      (use mode in \<open>auto simp: look checkpoint_reads valid_mode_def\<close>)
  have p: "\<exists>w. field_value validate d (Field ''replay'' ''replay'' (FOpt ReplaySpec) JNull) = Inr w
      \<and> to_opt replay_of w = map_option py_replay (go_replay g)"
    by (rule opt_field [where f = marshal_replay]) (auto simp: look replay_reads)
  obtain wt where "validate (FList ToolSpec) (JList (map marshal_tool ts)) = Inr wt"
      "to_list tool_of wt = map py_tool ts" by (rule tools_read)
  then have "field_value validate d (Field ''tools'' ''tools'' (FList ToolSpec) (JList [])) = Inr wt"
      "to_list tool_of wt = map py_tool ts"
    by (simp_all add: field_value_def look ts ptr_def)
  with m w r c p that show thesis by blast
qed

lemma spec_reads:
  assumes ts: "go_tools g = Some ts" and "valid_mode g" and "param_keys_distinct g"
  shows "reads_as validate AgentTaskSpec (marshal_spec g) task_of (py_spec g)"
proof -
  obtain d where d: "marshal_spec g = JObj d" by (simp add: marshal_spec_def)
  note look = spec_lookup [OF d]
  from spec_objects [OF d assms] show ?thesis
  proof cases
    case (1 wm wt ww wr wc wp)
    then show ?thesis
      unfolding AgentTaskSpec_def d
      by (intro model_reads [where ws = "[JStr (go_prompt g), JStr (go_system g), wm, wt, ww,
            ptr int64 (go_timeout g), ptr int64 (go_max_steps g), wr, wc, wp]"])
        (auto intro!: str_field opt_int_field simp: look ts task_of_def py_spec_def)
  qed
qed

lemma spec_refused:
  assumes "go_tools g = None \<or> \<not> valid_mode g"
  shows "invalid (validate AgentTaskSpec (marshal_spec g))"
proof -
  obtain d where d: "marshal_spec g = JObj d" by (simp add: marshal_spec_def)
  note look = spec_lookup [OF d]
  from assms show ?thesis
  proof
    assume "go_tools g = None"
    then show ?thesis unfolding AgentTaskSpec_def d
      by (intro model_invalid [where f = "Field ''tools'' ''tools'' (FList ToolSpec) (JList [])"])
        (simp_all add: field_value_def look ptr_def list_null)
  next
    assume "\<not> valid_mode g"
    then obtain c where c: "go_checkpoint g = Some c" "gc_mode c \<notin> lit ` set CheckpointMode"
      by (auto simp: valid_mode_def split: option.splits)
    have "invalid (validate CheckpointPolicySpec (marshal_checkpoint c))"
      unfolding CheckpointPolicySpec_def marshal_checkpoint_def
      by (rule model_invalid [where f = "Field ''mode'' ''mode'' (FLiteral CheckpointMode) (JStr (lit ''Manual''))"])
        (use c(2) in \<open>simp_all add: field_value_def literal_invalid\<close>)
    with c show ?thesis unfolding AgentTaskSpec_def d
      by (intro model_invalid [where f = "Field ''checkpoint_policy'' ''checkpointPolicy'' (FOpt CheckpointPolicySpec) JNull"])
        (simp_all add: field_value_def look opt_some)
  qed
qed

end

lemma invalid_map_sum [simp]: "invalid (map_sum id f r) = invalid r"
  by (cases r) simp_all

lemma parse_projected:
  assumes "safe_load yaml = Inr (marshal_spec g)"
  shows "parse_task safe_load check yaml = check (marshal_spec g)"
proof -
  obtain d where d: "marshal_spec g = JObj d" by (simp add: marshal_spec_def)
  then have "dget d ''apiVersion'' = None" by (auto simp: marshal_spec_def)
  with assms d show ?thesis by (simp add: parse_task_def)
qed

lemma projected_task_loads:
  assumes "pydantic validate" and "safe_load yaml = Inr (marshal_spec g)" and "param_keys_distinct g"
  shows "if go_tools g \<noteq> None \<and> valid_mode g
    then parse_task safe_load (task_validate validate) yaml = Inr (py_spec g)
    else invalid (parse_task safe_load (task_validate validate) yaml)"
proof (cases "go_tools g \<noteq> None \<and> valid_mode g")
  case True
  then have "reads_as validate AgentTaskSpec (marshal_spec g) task_of (py_spec g)"
    using pydantic.spec_reads [OF assms(1)] assms(3) by auto
  with True show ?thesis by (auto simp: parse_projected [of safe_load yaml g, OF assms(2)] task_validate_def reads_as_def)
next
  case False
  with pydantic.spec_refused [OF assms(1), of g] show ?thesis
    by (auto simp: parse_projected [of safe_load yaml g, OF assms(2)] task_validate_def)
qed

text \<open>
  C15: the operator's task file loads. When the YAML text holds the value the operator marshals from
  a Go spec, \<^verbatim>\<open>load_task\<close> gives the task with the same fields, omitted ones included, exactly when the
  tool list is not nil and the checkpoint mode is one of the three literals; in every other case
  pydantic refuses it with a \<^verbatim>\<open>ValidationError\<close>.
\<close>

theorem operator_task_loads:
  assumes "pydantic validate" and "safe_load yaml = Inr (marshal_spec g)" and "param_keys_distinct g"
  shows "if go_tools g \<noteq> None \<and> valid_mode g
    then parse_task safe_load (task_validate validate) yaml = Inr (py_spec g)
    else invalid (parse_task safe_load (task_validate validate) yaml)"
  using assms by (rule projected_task_loads)

definition sample_go :: "go_tool list option \<Rightarrow> pystr \<Rightarrow> go_spec" where
  "sample_go ts mode = \<lparr>go_prompt = lit ''fix it'', go_system = [],
     go_model = Some \<lparr>gm_provider = lit ''anthropic'', gm_name = lit ''m'', gm_ref = None,
       gm_params = [(lit ''maxTokens'', lit ''8192'')]\<rparr>,
     go_tools = ts, go_workspace = None, go_timeout = None, go_max_steps = Some 100, go_resources = None,
     go_checkpoint = Some \<lparr>gc_mode = mode, gc_interval = None\<rparr>, go_replay = None\<rparr>"

theorem operator_task_loads_witness:
  "let load = (\<lambda>g. parse_task (\<lambda>_. Inr (marshal_spec g)) (task_validate strict) []);
       g = sample_go (Some [\<lparr>gt_name = lit ''bash'', gt_timeout = Some 30\<rparr>]) (lit ''Manual'')
   in load g = Inr (py_spec g) \<and> spec_max_steps (py_spec g) = Some 100
      \<and> invalid (load (sample_go None (lit ''Manual''))) \<and> invalid (load (sample_go (Some []) (lit ''Never'')))"
proof -
  have k: "param_keys_distinct (sample_go ts m)" for ts m
    by (simp add: sample_go_def param_keys_distinct_def)
  have "lit ''Never'' \<notin> lit ` set CheckpointMode" by (auto simp: CheckpointMode_def lit_eq_iff)
  then have v: "valid_mode (sample_go ts (lit ''Manual''))" "\<not> valid_mode (sample_go ts (lit ''Never''))" for ts
    by (simp_all add: sample_go_def valid_mode_def CheckpointMode_def)
  have t: "go_tools (sample_go ts m) = ts" for ts m by (simp add: sample_go_def)
  have load: "if go_tools (sample_go ts m) \<noteq> None \<and> valid_mode (sample_go ts m)
      then parse_task (\<lambda>_. Inr (marshal_spec (sample_go ts m))) (task_validate strict) [] = Inr (py_spec (sample_go ts m))
      else invalid (parse_task (\<lambda>_. Inr (marshal_spec (sample_go ts m))) (task_validate strict) [])" for ts m
    by (rule operator_task_loads [OF strict_pydantic.pydantic_axioms refl k])
  show ?thesis unfolding Let_def
    using load [of "Some [\<lparr>gt_name = lit ''bash'', gt_timeout = Some 30\<rparr>]" "lit ''Manual''"]
      load [of None "lit ''Manual''"] load [of "Some []" "lit ''Never''"]
    by (simp add: v t) (simp add: sample_go_def py_spec_def)
qed

end
