(* ===== verification/PodBuilder.thy ===== *)
theory PodBuilder
  imports OperatorTask Sha256
begin

text \<open>
  The objects of the operator and how it builds them: the AgentTask with its status
  (\<^verbatim>\<open>api/v1/agenttask_types.go\<close>), the fields of the Kubernetes objects it fills in, the task's
  ConfigMap, its network policy (\<^verbatim>\<open>network_policy.go\<close>) and its pod (\<^verbatim>\<open>pod_builder.go\<close>). The YAML marshaller
  and the process environment are parameters.
\<close>

section \<open>Kubernetes objects\<close>

type_synonym go_time = int

record owner_ref =
  ow_name :: pystr
  ow_uid :: pystr

record object_meta =
  om_name :: pystr
  om_generate_name :: pystr
  om_namespace :: pystr
  om_uid :: pystr
  om_labels :: "(pystr \<times> pystr) list"
  om_deleted :: "go_time option"
  om_owners :: "owner_ref list"

definition new_meta :: "pystr \<Rightarrow> pystr \<Rightarrow> object_meta" where
  "new_meta nm ns = \<lparr>om_name = nm, om_generate_name = [], om_namespace = ns, om_uid = [], om_labels = [],
     om_deleted = None, om_owners = []\<rparr>"

record config_map =
  cm_meta :: object_meta
  cm_data :: "(pystr \<times> pybytes) list"

record network_policy =
  np_meta :: object_meta
  np_selector :: "(pystr \<times> pystr) list"
  np_types :: "pystr list"
  np_egress :: "json list"

record volume_mount =
  vm_name :: pystr
  vm_path :: pystr
  vm_read_only :: bool

record container =
  ct_name :: pystr
  ct_image :: pystr
  ct_pull_policy :: pystr
  ct_command :: "pystr list"
  ct_args :: "pystr list"
  ct_mounts :: "volume_mount list"
  ct_env :: "(pystr \<times> pystr) list"

text \<open>A projected source is a ConfigMap (its name and the keys with their paths) or something else.\<close>

record config_map_projection =
  cp_name :: pystr
  cp_items :: "(pystr \<times> pystr) list"

datatype volume_source = Projected "config_map_projection option list" | EmptyDir | OtherSource

record volume =
  vol_name :: pystr
  vol_source :: volume_source

datatype pod_phase = PodPending | PodRunning | PodSucceeded | PodFailed | PodUnknown | OtherPodPhase pystr

record pod =
  pod_meta :: object_meta
  pod_runtime_class :: "pystr option"
  pod_containers :: "container list"
  pod_volumes :: "volume list"
  pod_restart :: pystr
  pod_status_phase :: pod_phase
  pod_status_reason :: pystr

section \<open>The AgentTask\<close>

text \<open>\<open>NoPhase\<close> is the empty string of a status nobody has written.\<close>

datatype phase_type =
    NoPhase | Pending | Provisioning | Running | Checkpointing | Completed | Failed | Evicted
  | OtherPhase pystr

record agent_task_status =
  st_phase :: phase_type
  st_current_step :: "64 word"
  st_started_at :: "go_time option"
  st_finished_at :: "go_time option"
  st_trace_url :: pystr
  st_pod_name :: pystr
  st_reason :: pystr
  st_conditions :: "json list"

record agent_task =
  task_meta :: object_meta
  task_spec :: go_spec
  task_status :: agent_task_status

abbreviation task_name :: "agent_task \<Rightarrow> pystr" where
  "task_name task \<equiv> om_name (task_meta task)"

abbreviation task_namespace :: "agent_task \<Rightarrow> pystr" where
  "task_namespace task \<equiv> om_namespace (task_meta task)"

section \<open>ConfigMap\<close>

datatype go_error = NotFound | GoError pystr

text \<open>
  \<open>yaml_marshal\<close> is \<^verbatim>\<open>yaml.Marshal\<close> of \<^verbatim>\<open>sigs.k8s.io/yaml\<close>, \<open>go_getenv\<close> is \<^verbatim>\<open>os.Getenv\<close>, which returns the empty
  string for a variable that is not set.
\<close>

record build_env =
  yaml_marshal :: "go_spec \<Rightarrow> go_error + pybytes"
  go_getenv :: "string \<Rightarrow> pystr"

definition calculate_spec_hash :: "pybytes \<Rightarrow> pystr" where
  "calculate_spec_hash spec_bytes = hexdigest spec_bytes"

definition build_config_map_name :: "'e build_env_scheme \<Rightarrow> agent_task \<Rightarrow> pystr" where
  "build_config_map_name env task =
     (case yaml_marshal env (task_spec task) of
        Inl _ \<Rightarrow> []
      | Inr spec_bytes \<Rightarrow> task_name task @ calculate_spec_hash spec_bytes @ lit ''-config'')"

definition build_config_map :: "'e build_env_scheme \<Rightarrow> agent_task \<Rightarrow> config_map option" where
  "build_config_map env task =
     (case yaml_marshal env (task_spec task) of
        Inl _ \<Rightarrow> None
      | Inr yaml_bytes \<Rightarrow> Some
          \<lparr>cm_meta = new_meta (build_config_map_name env task) (task_namespace task),
           cm_data = [(lit ''task.yaml'', yaml_bytes)]\<rparr>)"

section \<open>Network policy\<close>

definition build_network_policy :: "pystr \<Rightarrow> pystr \<Rightarrow> network_policy" where
  "build_network_policy namespace agenttask_name =
     \<lparr>np_meta = new_meta (agenttask_name @ lit ''-network-policy'') namespace,
      np_selector = [(lit ''agenttask'', agenttask_name)],
      np_types = [lit ''Egress''],
      np_egress = []\<rparr>"

section \<open>Pod\<close>

definition agent_image :: "'e build_env_scheme \<Rightarrow> pystr" where
  "agent_image env =
     (let v = go_getenv env ''AGENT_ANVIL_SDK_IMAGE'' in if v \<noteq> [] then v else lit ''agent-anvil-sdk:dev'')"

definition pod_task_id :: "agent_task \<Rightarrow> pystr" where
  "pod_task_id task = task_name task @ lit ''/'' @ task_namespace task"

definition mount :: "string \<Rightarrow> string \<Rightarrow> bool \<Rightarrow> volume_mount" where
  "mount v path ro = \<lparr>vm_name = lit v, vm_path = lit path, vm_read_only = ro\<rparr>"

definition agent_container :: "'e build_env_scheme \<Rightarrow> agent_task \<Rightarrow> container" where
  "agent_container env task =
     \<lparr>ct_name = lit ''agent'', ct_image = agent_image env, ct_pull_policy = lit ''IfNotPresent'',
      ct_command = [], ct_args = [],
      ct_mounts = [mount ''task'' ''/etc/agent-anvil/'' True, mount ''trace'' ''/var/log/agent-anvil'' False,
                   mount ''workspace'' ''/workspace'' False],
      ct_env = [(lit ''AGENT_ANVIL_TASK_ID'', pod_task_id task),
                (lit ''AGENT_ANVIL_PROXY_URL'', lit ''http://localhost:8080''),
                (lit ''AGENT_ANVIL_TRACE_DIR'', lit ''/var/log/agent-anvil''),
                (lit ''AGENT_ANVIL_WORKSPACE'', lit ''/workspace''),
                (lit ''AGENT_ANVIL_MODE'', lit ''record''),
                (lit ''AGENT_ANVIL_REPLAY_FROM_STEP'', lit ''0''),
                (lit ''AGENT_ANVIL_ECHO_EVENTS'', lit ''1'')]\<rparr>"

definition proxy_container :: "agent_task \<Rightarrow> container" where
  "proxy_container task =
     \<lparr>ct_name = lit ''proxy'', ct_image = lit ''busybox'', ct_pull_policy = [],
      ct_command = [lit ''/bin/sh'', lit ''-c''],
      ct_args = [lit ''echo \"proxy sidecar (Phase 2A stub) for '' @ pod_task_id task @ lit ''\" && sleep 30''],
      ct_mounts = [mount ''task'' ''/etc/agent-anvil/'' True, mount ''trace'' ''/var/log/agent-anvil'' False],
      ct_env = []\<rparr>"

definition task_volumes :: "'e build_env_scheme \<Rightarrow> agent_task \<Rightarrow> volume list" where
  "task_volumes env task =
     [\<lparr>vol_name = lit ''task'', vol_source = Projected
         [Some \<lparr>cp_name = build_config_map_name env task, cp_items = [(lit ''task.yaml'', lit ''task.yaml'')]\<rparr>]\<rparr>,
      \<lparr>vol_name = lit ''trace'', vol_source = EmptyDir\<rparr>,
      \<lparr>vol_name = lit ''workspace'', vol_source = EmptyDir\<rparr>]"

definition build_pod :: "'e build_env_scheme \<Rightarrow> agent_task \<Rightarrow> pod" where
  "build_pod env task =
     \<lparr>pod_meta = (new_meta [] (task_namespace task))
        \<lparr>om_generate_name := task_name task @ lit ''-pod-'', om_labels := [(lit ''agenttask'', task_name task)]\<rparr>,
      pod_runtime_class = Some (lit ''gvisor''),
      pod_containers = [agent_container env task, proxy_container task],
      pod_volumes = task_volumes env task,
      pod_restart = lit ''Never'',
      pod_status_phase = OtherPodPhase [], pod_status_reason = []\<rparr>"

section \<open>Reading the ConfigMap of a pod\<close>

text \<open>The nested loops of \<^verbatim>\<open>getConfigMapFromPod\<close>: the first ConfigMap with the item, in the order of the volumes.\<close>

primrec find_source :: "pystr \<Rightarrow> pystr \<Rightarrow> config_map_projection option list \<Rightarrow> config_map_projection option" where
  "find_source key path [] = None"
| "find_source key path (s # ss) =
     (case s of
        Some cm \<Rightarrow> if (key, path) \<in> set (cp_items cm) then Some cm else find_source key path ss
      | None \<Rightarrow> find_source key path ss)"

primrec find_volume :: "pystr \<Rightarrow> pystr \<Rightarrow> pystr \<Rightarrow> volume list \<Rightarrow> config_map_projection option" where
  "find_volume nm key path [] = None"
| "find_volume nm key path (v # vs) =
     (let rest = find_volume nm key path vs in
      if vol_name v = nm then
        (case vol_source v of
           Projected ss \<Rightarrow> (case find_source key path ss of Some cm \<Rightarrow> Some cm | None \<Rightarrow> rest)
         | _ \<Rightarrow> rest)
      else rest)"

definition config_map_of_pod :: "pod \<Rightarrow> pystr \<Rightarrow> pystr \<Rightarrow> pystr \<Rightarrow> config_map_projection option" where
  "config_map_of_pod p volume_name key path = find_volume volume_name key path (pod_volumes p)"

lemma config_map_of_built_pod:
  assumes "pod_volumes p = pod_volumes (build_pod env task)"
  shows "config_map_of_pod p (lit ''task'') (lit ''task.yaml'') (lit ''task.yaml'') =
    Some \<lparr>cp_name = build_config_map_name env task, cp_items = [(lit ''task.yaml'', lit ''task.yaml'')]\<rparr>"
  using assms by (simp add: config_map_of_pod_def build_pod_def task_volumes_def del: lit_Cons)

lemma config_map_name_inj:
  assumes "build_config_map_name env task = build_config_map_name env task'" "task_name task = task_name task'"
    "yaml_marshal env (task_spec task) = Inr b" "yaml_marshal env (task_spec task') = Inr b'"
  shows "hexdigest b = hexdigest b'"
  using assms by (simp add: build_config_map_name_def calculate_spec_hash_def)

text \<open>The pod is the one the policy selects, and the policy lists no egress.\<close>

lemma policy_selects_pod:
  "set (np_selector (build_network_policy ns (task_name task))) \<subseteq> set (om_labels (pod_meta (build_pod env task)))"
  by (simp add: build_network_policy_def build_pod_def)

end
