(* ===== verification/Controller.thy ===== *)
theory Controller
  imports PodBuilder
begin

text \<open>
  The reconciler (\<^verbatim>\<open>agenttask_controller.go\<close>). The API server is a parameter: it answers each request in any way it
  likes, depending on the requests and answers so far, so that everything other clients and the cluster do
  between two requests is covered. The state of the model is the history of requests with their answers.
\<close>

section \<open>The API client\<close>

text \<open>Namespace and name.\<close>

type_synonym key = "pystr \<times> pystr"

datatype call =
    GetTask key "go_error + agent_task"
  | GetConfigMap key "go_error + config_map"
  | GetNetworkPolicy key "go_error + network_policy"
  | GetPod key "go_error + pod"
  | CreateConfigMap config_map "go_error + config_map"
  | CreateNetworkPolicy network_policy "go_error + network_policy"
  | CreatePod pod "go_error + pod"
  | UpdateStatus agent_task "go_error + agent_task"

type_synonym history = "call list"

type_synonym 'a go = "(go_error, history, 'a) effect"

text \<open>
  The answers of the server, \<^verbatim>\<open>SetControllerReference\<close> on the metadata of a new object, and the clock. At
  most one time is read between two requests.
\<close>

record kube_env = build_env +
  k_task :: "history \<Rightarrow> key \<Rightarrow> go_error + agent_task"
  k_config_map :: "history \<Rightarrow> key \<Rightarrow> go_error + config_map"
  k_network_policy :: "history \<Rightarrow> key \<Rightarrow> go_error + network_policy"
  k_pod :: "history \<Rightarrow> key \<Rightarrow> go_error + pod"
  k_create_config_map :: "history \<Rightarrow> config_map \<Rightarrow> go_error + config_map"
  k_create_network_policy :: "history \<Rightarrow> network_policy \<Rightarrow> go_error + network_policy"
  k_create_pod :: "history \<Rightarrow> pod \<Rightarrow> go_error + pod"
  k_update_status :: "history \<Rightarrow> agent_task \<Rightarrow> go_error + agent_task"
  k_set_owner :: "agent_task \<Rightarrow> object_meta \<Rightarrow> go_error + object_meta"
  k_now :: "history \<Rightarrow> go_time"

definition ask :: "(history \<Rightarrow> 'r \<Rightarrow> go_error + 'a) \<Rightarrow> ('r \<Rightarrow> go_error + 'a \<Rightarrow> call) \<Rightarrow> 'r \<Rightarrow> 'a go" where
  "ask serve tag r = (\<lambda>h. let a = serve h r in (a, h @ [tag r a]))"

definition get_task :: "kube_env \<Rightarrow> key \<Rightarrow> agent_task go" where
  "get_task env = ask (k_task env) GetTask"

definition get_config_map :: "kube_env \<Rightarrow> key \<Rightarrow> config_map go" where
  "get_config_map env = ask (k_config_map env) GetConfigMap"

definition get_network_policy :: "kube_env \<Rightarrow> key \<Rightarrow> network_policy go" where
  "get_network_policy env = ask (k_network_policy env) GetNetworkPolicy"

definition get_pod :: "kube_env \<Rightarrow> key \<Rightarrow> pod go" where
  "get_pod env = ask (k_pod env) GetPod"

definition create_config_map :: "kube_env \<Rightarrow> config_map \<Rightarrow> config_map go" where
  "create_config_map env = ask (k_create_config_map env) CreateConfigMap"

definition create_network_policy :: "kube_env \<Rightarrow> network_policy \<Rightarrow> network_policy go" where
  "create_network_policy env = ask (k_create_network_policy env) CreateNetworkPolicy"

definition create_pod :: "kube_env \<Rightarrow> pod \<Rightarrow> pod go" where
  "create_pod env = ask (k_create_pod env) CreatePod"

definition update_status :: "kube_env \<Rightarrow> agent_task \<Rightarrow> agent_task_status \<Rightarrow> unit go" where
  "update_status env task st = thenE (ask (k_update_status env) UpdateStatus (task\<lparr>task_status := st\<rparr>)) (ret ())"

lemmas client_defs = get_task_def get_config_map_def get_network_policy_def get_pod_def create_config_map_def
  create_network_policy_def create_pod_def update_status_def

text \<open>\<^verbatim>\<open>v, err := m\<close> with the error as a value.\<close>

abbreviation tried :: "'a go \<Rightarrow> (go_error + 'a) go" where
  "tried \<equiv> attempt (\<lambda>_. True)"

section \<open>ConfigMap and network policy\<close>

definition ensure_config_map :: "kube_env \<Rightarrow> agent_task \<Rightarrow> unit go" where
  "ensure_config_map env task =
     bindE (tried (get_config_map env (task_namespace task, build_config_map_name env task))) (\<lambda>r. case r of
       Inr _ \<Rightarrow> ret ()
     | Inl err \<Rightarrow>
         if err = NotFound \<and> st_pod_name (task_status task) = [] then
           (case build_config_map env task of
              None \<Rightarrow> ret ()
            | Some cm \<Rightarrow>
                bindE (of_sum (k_set_owner env task (cm_meta cm))) (\<lambda>m.
                thenE (create_config_map env (cm\<lparr>cm_meta := m\<rparr>)) (ret ())))
         else throw err)"

definition ensure_network_policy :: "kube_env \<Rightarrow> agent_task \<Rightarrow> unit go" where
  "ensure_network_policy env task =
     (let np = build_network_policy (task_namespace task) (task_name task) in
      bindE (tried (get_network_policy env (om_namespace (np_meta np), om_name (np_meta np)))) (\<lambda>r. case r of
        Inr _ \<Rightarrow> ret ()
      | Inl err \<Rightarrow>
          if err = NotFound then
            bindE (of_sum (k_set_owner env task (np_meta np))) (\<lambda>m.
            thenE (create_network_policy env (np\<lparr>np_meta := m\<rparr>)) (ret ()))
          else throw err))"

section \<open>Reconcile\<close>

definition terminal :: "phase_type \<Rightarrow> bool" where
  "terminal p \<longleftrightarrow> p = Completed \<or> p = Failed \<or> p = Evicted"

definition or_now :: "go_time \<Rightarrow> go_time option \<Rightarrow> go_time option" where
  "or_now t d = (case d of None \<Rightarrow> Some t | Some x \<Rightarrow> Some x)"

text \<open>A pending task without a pod: the objects the pod needs, the pod, and its name in the status.\<close>

definition start_pod :: "kube_env \<Rightarrow> agent_task \<Rightarrow> unit go" where
  "start_pod env task =
     thenE (ensure_config_map env task)
    (thenE (ensure_network_policy env task)
    (let new_pod = build_pod env task in
     bindE (of_sum (k_set_owner env task (pod_meta new_pod))) (\<lambda>m.
     bindE (create_pod env (new_pod\<lparr>pod_meta := m\<rparr>)) (\<lambda>created.
     update_status env task ((task_status task)
       \<lparr>st_pod_name := om_name (pod_meta created), st_phase := Provisioning\<rparr>)))))"

definition fail_with :: "kube_env \<Rightarrow> agent_task \<Rightarrow> string \<Rightarrow> unit go" where
  "fail_with env task why =
     (\<lambda>h. update_status env task ((task_status task)
        \<lparr>st_phase := Failed, st_reason := lit why, st_finished_at := Some (k_now env h)\<rparr>) h)"

text \<open>The status a pod's phase gives, and whether \<^verbatim>\<open>updateStatus\<close> was set on the way.\<close>

definition finish :: "go_time \<Rightarrow> phase_type \<Rightarrow> string \<Rightarrow> agent_task_status \<Rightarrow> agent_task_status \<times> bool" where
  "finish t p why st =
     (st\<lparr>st_phase := p, st_reason := lit why, st_finished_at := or_now t (st_finished_at st)\<rparr>,
      st_phase st \<noteq> p \<or> st_reason st \<noteq> lit why \<or> st_finished_at st = None)"

definition sync_status :: "go_time \<Rightarrow> pod \<Rightarrow> agent_task_status \<Rightarrow> agent_task_status \<times> bool" where
  "sync_status t p st =
     (case pod_status_phase p of
        PodPending \<Rightarrow> (st\<lparr>st_phase := Provisioning\<rparr>, st_phase st \<noteq> Provisioning)
      | PodRunning \<Rightarrow>
          (st\<lparr>st_phase := Running, st_started_at := or_now t (st_started_at st)\<rparr>,
           st_phase st \<noteq> Running \<or> st_started_at st = None)
      | PodSucceeded \<Rightarrow> finish t Completed ''Pod completed successfully.'' st
      | PodFailed \<Rightarrow>
          (if pod_status_reason p = lit ''Evicted'' then finish t Evicted ''Pod was evicted.'' st
           else finish t Failed ''Pod failed.'' st)
      | _ \<Rightarrow>
          (st\<lparr>st_phase := Failed, st_reason := lit ''Pod in unexpected phase'',
              st_finished_at := or_now t (st_finished_at st)\<rparr>, True))"

definition follow_pod :: "kube_env \<Rightarrow> agent_task \<Rightarrow> unit go" where
  "follow_pod env task =
     bindE (tried (get_pod env (task_namespace task, st_pod_name (task_status task)))) (\<lambda>r. case r of
       Inl err \<Rightarrow>
         if err = NotFound \<and> \<not> terminal (st_phase (task_status task)) then fail_with env task ''Pod not found''
         else if err = NotFound then ret ()
         else throw err
     | Inr p \<Rightarrow>
         if pod_status_phase p \<in> {PodRunning, PodPending} \<and>
            config_map_of_pod p (lit ''task'') (lit ''task.yaml'') (lit ''task.yaml'') = None
         then throw (GoError (lit ''error reading configMap for Pod '' @ om_name (pod_meta p)))
         else (\<lambda>h.
           let (st, update) = sync_status (k_now env h) p (task_status task)
           in if update then update_status env task st h else ret () h))"

definition reconcile :: "kube_env \<Rightarrow> key \<Rightarrow> unit go" where
  "reconcile env req =
     bindE (tried (get_task env req)) (\<lambda>r. case r of
       Inl err \<Rightarrow> if err = NotFound then ret () else throw err
     | Inr task \<Rightarrow>
         (let st = task_status task in
          if om_deleted (task_meta task) \<noteq> None then ret ()
          else if st_phase st = NoPhase then update_status env task (st\<lparr>st_phase := Pending, st_pod_name := []\<rparr>)
          else if st_pod_name st = [] then
            (if st_phase st = Pending then start_pod env task else fail_with env task ''Invalid state'')
          else follow_pod env task))"

end
