(* ===== verification/ControllerProps.thy ===== *)
theory ControllerProps
  imports Controller
begin

text \<open>
  What a reconciliation asks of the API server, as a relation on its requests, and what follows: a pod is
  asked for only after its network policy and its ConfigMap.
\<close>

section \<open>The requests of one reconciliation\<close>

text \<open>\<open>cm_calls\<close> and \<open>np_calls\<close>: the requests of the two helpers, and whether they returned without error.\<close>

abbreviation cm_key :: "kube_env \<Rightarrow> agent_task \<Rightarrow> key" where
  "cm_key env task \<equiv> (task_namespace task, build_config_map_name env task)"

abbreviation np_key :: "agent_task \<Rightarrow> key" where
  "np_key task \<equiv> (task_namespace task, task_name task @ lit ''-network-policy'')"

abbreviation pod_key :: "agent_task \<Rightarrow> key" where
  "pod_key task \<equiv> (task_namespace task, st_pod_name (task_status task))"

abbreviation task_policy :: "agent_task \<Rightarrow> network_policy" where
  "task_policy task \<equiv> build_network_policy (task_namespace task) (task_name task)"

inductive cm_calls :: "kube_env \<Rightarrow> agent_task \<Rightarrow> call list \<Rightarrow> bool \<Rightarrow> bool" for env task where
  cm_found: "cm_calls env task [GetConfigMap (cm_key env task) (Inr cm)] True"
| cm_unbuilt: "build_config_map env task = None \<Longrightarrow>
    cm_calls env task [GetConfigMap (cm_key env task) (Inl NotFound)] True"
| cm_refused: "cm_calls env task [GetConfigMap (cm_key env task) (Inl e)] False"
| cm_created: "build_config_map env task = Some cm \<Longrightarrow> k_set_owner env task (cm_meta cm) = Inr m \<Longrightarrow>
    cm_calls env task [GetConfigMap (cm_key env task) (Inl NotFound), CreateConfigMap (cm\<lparr>cm_meta := m\<rparr>) a] (\<not> isl a)"

inductive np_calls :: "kube_env \<Rightarrow> agent_task \<Rightarrow> call list \<Rightarrow> bool \<Rightarrow> bool" for env task where
  np_found: "np_calls env task [GetNetworkPolicy (np_key task) (Inr np)] True"
| np_refused: "np_calls env task [GetNetworkPolicy (np_key task) (Inl e)] False"
| np_created: "k_set_owner env task (np_meta (task_policy task)) = Inr m \<Longrightarrow>
    np_calls env task [GetNetworkPolicy (np_key task) (Inl NotFound),
      CreateNetworkPolicy ((task_policy task)\<lparr>np_meta := m\<rparr>) a] (\<not> isl a)"

text \<open>
  The statuses a reconciliation may write over the one it read, depending on what it has seen: nothing but the task,
  the pod it has just created, or the answer to its request for the pod.
\<close>

datatype seen = Unseen | Created pod | Seen "go_error + pod"

definition launchable :: "agent_task_status \<Rightarrow> bool" where
  "launchable st \<longleftrightarrow> st_phase st = Pending \<and> st_pod_name st = []"

inductive status_step :: "seen \<Rightarrow> agent_task_status \<Rightarrow> agent_task_status \<Rightarrow> bool" where
  to_pending: "st_phase st = NoPhase \<Longrightarrow> status_step Unseen st (st\<lparr>st_phase := Pending, st_pod_name := []\<rparr>)"
| to_provisioning: "launchable st \<Longrightarrow>
    status_step (Created p) st (st\<lparr>st_pod_name := om_name (pod_meta p), st_phase := Provisioning\<rparr>)"
| invalid: "st_phase st \<notin> {NoPhase, Pending} \<Longrightarrow> st_pod_name st = [] \<Longrightarrow>
    status_step Unseen st (st\<lparr>st_phase := Failed, st_reason := lit ''Invalid state'', st_finished_at := Some t\<rparr>)"
| lost: "st_phase st \<noteq> NoPhase \<Longrightarrow> st_pod_name st \<noteq> [] \<Longrightarrow> \<not> terminal (st_phase st) \<Longrightarrow>
    status_step (Seen (Inl NotFound)) st (st\<lparr>st_phase := Failed, st_reason := lit ''Pod not found'', st_finished_at := Some t\<rparr>)"
| synced: "st_phase st \<noteq> NoPhase \<Longrightarrow> st_pod_name st \<noteq> [] \<Longrightarrow> sync_status t p st = (st', True) \<Longrightarrow>
    status_step (Seen (Inr p)) st st'"

text \<open>
  A reconciliation reads the task and then reads at most one pod and writes at most one status, or makes
  the objects of the task, in this order, and writes the status when the pod was made.
\<close>

inductive session :: "kube_env \<Rightarrow> key \<Rightarrow> call list \<Rightarrow> bool" for env req where
  no_task: "session env req [GetTask req (Inl e)]"
| idle: "session env req [GetTask req (Inr task)]"
| wrote: "status_step Unseen (task_status task) st \<Longrightarrow>
    session env req [GetTask req (Inr task), UpdateStatus (task\<lparr>task_status := st\<rparr>) a]"
| look: "session env req [GetTask req (Inr task), GetPod (pod_key task) r]"
| look_wrote: "status_step (Seen r) (task_status task) st \<Longrightarrow>
    session env req [GetTask req (Inr task), GetPod (pod_key task) r, UpdateStatus (task\<lparr>task_status := st\<rparr>) a]"
| stop_cm: "launchable (task_status task) \<Longrightarrow> cm_calls env task cs ok \<Longrightarrow>
    session env req (GetTask req (Inr task) # cs)"
| stop_np: "launchable (task_status task) \<Longrightarrow> cm_calls env task cs True \<Longrightarrow> np_calls env task ds ok \<Longrightarrow>
    session env req (GetTask req (Inr task) # cs @ ds)"
| stop_pod: "launchable (task_status task) \<Longrightarrow> cm_calls env task cs True \<Longrightarrow> np_calls env task ds True \<Longrightarrow>
    k_set_owner env task (pod_meta (build_pod env task)) = Inr m \<Longrightarrow>
    session env req (GetTask req (Inr task) # cs @ ds @ [CreatePod ((build_pod env task)\<lparr>pod_meta := m\<rparr>) (Inl e)])"
| launch: "launchable (task_status task) \<Longrightarrow> cm_calls env task cs True \<Longrightarrow> np_calls env task ds True \<Longrightarrow>
    k_set_owner env task (pod_meta (build_pod env task)) = Inr m \<Longrightarrow> status_step (Created p) (task_status task) st \<Longrightarrow>
    session env req (GetTask req (Inr task) # cs @ ds @
      [CreatePod ((build_pod env task)\<lparr>pod_meta := m\<rparr>) (Inr p), UpdateStatus (task\<lparr>task_status := st\<rparr>) a])"

text \<open>Running a call: one request each.\<close>

lemma ask_run: "ask serve tag r h = (serve h r, h @ [tag r (serve h r)])"
  by (simp add: ask_def Let_def)

lemma bind_run:
  "bindE (ask serve tag r) f h =
     (case serve h r of Inl e \<Rightarrow> (Inl e, h @ [tag r (Inl e)]) | Inr x \<Rightarrow> f x (h @ [tag r (Inr x)]))"
  "bindE (tried (ask serve tag r)) g h = g (serve h r) (h @ [tag r (serve h r)])"
  "bindE (of_sum z) f h = (case z of Inl e \<Rightarrow> (Inl e, h) | Inr x \<Rightarrow> f x h)"
  by (cases "serve h r"; cases z; simp add: ask_def attempt_def eff_defs Let_def)+

lemma stop_run: "ret x h = (Inr x, h)" "throw e h = (Inl e, h)"
  by (simp_all add: ret_def throw_def)

lemmas go_run = client_defs thenE_def bind_run stop_run

lemma config_map_session:
  assumes "st_pod_name (task_status task) = []" "ensure_config_map env task h = (y, h')"
  shows "\<exists>cs. h' = h @ cs \<and> cm_calls env task cs (\<not> isl y)"
  using assms
  by (auto simp: ensure_config_map_def go_run split: sum.splits option.splits if_splits
      intro: cm_calls.intros cm_created [where a = "Inl _", simplified] cm_created [where a = "Inr _", simplified])

lemma network_policy_session:
  assumes "ensure_network_policy env task h = (y, h')"
  shows "\<exists>cs. h' = h @ cs \<and> np_calls env task cs (\<not> isl y)"
proof -
  have k: "om_namespace (np_meta (task_policy task)) = task_namespace task"
    "om_name (np_meta (task_policy task)) = task_name task @ lit ''-network-policy''"
    by (simp_all add: build_network_policy_def new_meta_def)
  show ?thesis
    using assms
    by (auto simp: ensure_network_policy_def go_run Let_def k split: sum.splits if_splits simp del: lit_Cons
        intro: np_calls.intros np_created [where a = "Inl _", simplified] np_created [where a = "Inr _", simplified])
qed

section \<open>What the two helpers provide\<close>

text \<open>\<^verbatim>\<open>SetControllerReference\<close> adds an owner reference and changes nothing else.\<close>

definition owner_only :: "kube_env \<Rightarrow> bool" where
  "owner_only env \<longleftrightarrow> (\<forall>task m m'. k_set_owner env task m = Inr m' \<longrightarrow> (\<exists>os. m' = m\<lparr>om_owners := os\<rparr>))"

definition policy_asked :: "agent_task \<Rightarrow> call list \<Rightarrow> bool" where
  "policy_asked task cs \<longleftrightarrow>
     (\<exists>np. GetNetworkPolicy (np_key task) (Inr np) \<in> set cs) \<or>
     (\<exists>np np'. CreateNetworkPolicy np (Inr np') \<in> set cs \<and> (om_namespace (np_meta np), om_name (np_meta np)) = np_key task \<and>
        np_types np = [lit ''Egress''] \<and> np_egress np = [] \<and> np_selector np = [(lit ''agenttask'', task_name task)])"

definition config_asked :: "kube_env \<Rightarrow> agent_task \<Rightarrow> call list \<Rightarrow> bool" where
  "config_asked env task cs \<longleftrightarrow>
     (\<exists>cm. GetConfigMap (cm_key env task) (Inr cm) \<in> set cs) \<or>
     (\<exists>cm cm' b. CreateConfigMap cm (Inr cm') \<in> set cs \<and> (om_namespace (cm_meta cm), om_name (cm_meta cm)) = cm_key env task \<and>
        yaml_marshal env (task_spec task) = Inr b \<and> cm_data cm = [(lit ''task.yaml'', b)]) \<or>
     (\<exists>e. yaml_marshal env (task_spec task) = Inl e)"

lemma owner_onlyD:
  assumes "owner_only env" "k_set_owner env task m = Inr m'"
  shows "om_name m' = om_name m" "om_namespace m' = om_namespace m" "om_labels m' = om_labels m"
  using assms unfolding owner_only_def by fastforce+

lemma cm_calls_in_place:
  assumes "cm_calls env task cs True" "owner_only env"
  shows "config_asked env task cs"
  using assms(1)
proof cases
  case (cm_created cm m a)
  then obtain b c where "a = Inr c" "yaml_marshal env (task_spec task) = Inr b" "cm_data cm = [(lit ''task.yaml'', b)]"
    "cm_meta cm = new_meta (build_config_map_name env task) (task_namespace task)"
    by (cases a) (auto simp: build_config_map_def split: sum.splits)
  with cm_created owner_onlyD [OF assms(2), of task "cm_meta cm" m] show ?thesis
    unfolding config_asked_def by (auto simp: new_meta_def simp del: lit_Cons)
qed (auto simp: config_asked_def build_config_map_def split: sum.splits)

lemma np_calls_in_place:
  assumes "np_calls env task cs True" "owner_only env"
  shows "policy_asked task cs"
  using assms(1)
proof cases
  case (np_created m a)
  then obtain c where "a = Inr c" by (cases a) auto
  with np_created owner_onlyD [OF assms(2), of task "np_meta (task_policy task)" m] show ?thesis
    unfolding policy_asked_def by (auto simp: new_meta_def build_network_policy_def simp del: lit_Cons)
qed (auto simp: policy_asked_def)

text \<open>Neither helper creates a pod or writes a status.\<close>

definition auxiliary :: "call \<Rightarrow> bool" where
  "auxiliary c \<longleftrightarrow> (case c of CreatePod _ _ \<Rightarrow> False | UpdateStatus _ _ \<Rightarrow> False | GetTask _ _ \<Rightarrow> False | _ \<Rightarrow> True)"

lemma helpers_auxiliary:
  "cm_calls env task cs ok \<Longrightarrow> list_all auxiliary cs" "np_calls env task ds ok \<Longrightarrow> list_all auxiliary ds"
  by (auto simp: auxiliary_def elim!: cm_calls.cases np_calls.cases)

text \<open>
  The contract of a helper towards \<^verbatim>\<open>Reconcile\<close>: it makes requests of its own, none of them for a pod or a status, and
  when it returns without error the object is in place.
\<close>

locale provision =
  fixes env :: kube_env and ensure :: "agent_task \<Rightarrow> unit go" and calls :: "agent_task \<Rightarrow> call list \<Rightarrow> bool \<Rightarrow> bool"
    and in_place :: "agent_task \<Rightarrow> call list \<Rightarrow> bool"
  assumes requests: "launchable (task_status task) \<Longrightarrow> ensure task h = (y, h') \<Longrightarrow>
      \<exists>cs. h' = h @ cs \<and> calls task cs (\<not> isl y)"
    and helper: "calls task cs ok \<Longrightarrow> list_all auxiliary cs"
    and provided: "calls task cs True \<Longrightarrow> owner_only env \<Longrightarrow> in_place task cs"
begin

lemma no_pod: "calls task cs ok \<Longrightarrow> CreatePod p a \<notin> set cs"
  by (drule helper) (auto simp: list_all_iff auxiliary_def)

lemma no_status: "calls task cs ok \<Longrightarrow> UpdateStatus t a \<notin> set cs"
  by (drule helper) (auto simp: list_all_iff auxiliary_def)

end

interpretation cm: provision env "ensure_config_map env" "cm_calls env" "config_asked env" for env
  by unfold_locales (auto simp: launchable_def intro: config_map_session cm_calls_in_place helpers_auxiliary)

interpretation np: provision env "ensure_network_policy env" "np_calls env" policy_asked for env
  by unfold_locales (auto intro: network_policy_session np_calls_in_place helpers_auxiliary)

section \<open>Reconcile refines the session\<close>

lemma start_session:
  assumes l: "launchable (task_status task)" and r: "start_pod env task h = (y, h')"
  shows "\<exists>cs. h' = h @ cs \<and> session env req (GetTask req (Inr task) # cs)"
proof -
  obtain a h1 where cm: "ensure_config_map env task h = (a, h1)" by fastforce
  obtain cs where cs: "h1 = h @ cs" "cm_calls env task cs (\<not> isl a)"
    using cm.requests [OF l cm] by blast
  obtain b h2 where np: "ensure_network_policy env task h1 = (b, h2)" by fastforce
  obtain ds where ds: "h2 = h1 @ ds" "np_calls env task ds (\<not> isl b)"
    using np.requests [OF l np] by blast
  show ?thesis
  proof (cases "isl a \<or> isl b")
    case True
    then have "h' = h1 \<and> isl a \<or> h' = h2 \<and> \<not> isl a"
      using r cm np by (auto simp: start_pod_def thenE_def bindE_def split: sum.splits)
    with cs ds l show ?thesis by (auto intro: stop_cm stop_np)
  next
    case False
    then obtain x z where "a = Inr x" "b = Inr z" by (cases a; cases b) auto
    with r cm np cs ds l show ?thesis
      unfolding start_pod_def thenE_def Let_def
      by (auto simp: bindE_def [of "ensure_config_map env task"] bindE_def [of "ensure_network_policy env task"] go_run
          split: sum.splits intro: stop_np stop_pod launch to_provisioning)
  qed
qed

lemma fail_session:
  "fail_with env task why h = (y, h') \<Longrightarrow> \<exists>t a. h' = h @ [UpdateStatus (task\<lparr>task_status := (task_status task)
     \<lparr>st_phase := Failed, st_reason := lit why, st_finished_at := Some t\<rparr>\<rparr>) a]"
  by (auto simp: fail_with_def go_run split: sum.splits)

lemma follow_session:
  assumes "st_phase (task_status task) \<noteq> NoPhase" "st_pod_name (task_status task) \<noteq> []"
    "follow_pod env task h = (y, h')"
  shows "\<exists>cs. h' = h @ cs \<and> session env req (GetTask req (Inr task) # cs)"
  using assms
  by (auto simp: follow_pod_def go_run Let_def split: sum.splits if_splits prod.splits simp del: lit_Cons
      dest!: fail_session intro: look look_wrote [OF lost] look_wrote [OF synced])

lemma reconcile_session:
  assumes "reconcile env req h = (y, h')"
  shows "\<exists>cs. h' = h @ cs \<and> session env req cs"
proof (cases "k_task env h req")
  case (Inl e)
  with assms show ?thesis by (auto simp: reconcile_def go_run intro: no_task split: if_splits)
next
  case (Inr task)
  let ?st = "task_status task" and ?h = "h @ [GetTask req (Inr task)]"
  have "\<exists>cs. h' = ?h @ cs \<and> session env req (GetTask req (Inr task) # cs)"
  proof (cases "om_deleted (task_meta task) = None \<and> st_phase ?st \<noteq> NoPhase")
    case False
    then show ?thesis
      using assms Inr by (auto simp: reconcile_def go_run Let_def split: sum.splits if_splits intro: idle wrote to_pending)
  next
    case True
    then have r: "(if st_pod_name ?st = [] then
        (if st_phase ?st = Pending then start_pod env task else fail_with env task ''Invalid state'')
        else follow_pod env task) ?h = (y, h')"
      using assms Inr by (simp add: reconcile_def go_run Let_def)
    show ?thesis
    proof (cases "st_pod_name ?st = []")
      case named: False
      with r True show ?thesis by (intro follow_session) auto
    next
      case unnamed: True
      show ?thesis
      proof (cases "st_phase ?st = Pending")
        case True
        with r unnamed show ?thesis by (intro start_session) (auto simp: launchable_def)
      next
        case False
        with r unnamed True show ?thesis by (auto dest!: fail_session intro!: wrote invalid)
      qed
    qed
  qed
  then show ?thesis by auto
qed

section \<open>The network policy and the ConfigMap come first\<close>

lemma auxiliary_split:
  assumes "list_all auxiliary cs" "\<not> auxiliary c" "cs @ ds = pre @ c # post"
  shows "\<exists>pre'. pre = cs @ pre' \<and> ds = pre' @ c # post"
  using assms
proof (induction cs arbitrary: pre)
  case (Cons x cs)
  then show ?case by (cases pre) auto
qed simp

lemma session_pod:
  assumes "session env req cs" "cs = pre @ CreatePod p a # post"
  shows "\<exists>task xs ys m. pre = GetTask req (Inr task) # xs @ ys \<and> launchable (task_status task) \<and>
    cm_calls env task xs True \<and> np_calls env task ys True \<and>
    k_set_owner env task (pod_meta (build_pod env task)) = Inr m \<and> p = (build_pod env task)\<lparr>pod_meta := m\<rparr>"
proof -
  have no: "\<not> auxiliary (CreatePod p a)" by (simp add: auxiliary_def)
  have find: "\<exists>pre'. pre = GetTask req (Inr task) # xs @ ys @ pre' \<and> zs = pre' @ CreatePod p a # post"
    if "GetTask req (Inr task) # xs @ ys @ zs = pre @ CreatePod p a # post" "cm_calls env task xs k" "np_calls env task ys l"
    for task xs ys zs k l
  proof (cases pre)
    case (Cons c pre1)
    then have "(xs @ ys) @ zs = pre1 @ CreatePod p a # post" using that(1) by simp
    from auxiliary_split [OF _ no this] cm.helper [OF that(2)] np.helper [OF that(3)] Cons that(1) show ?thesis by auto
  qed (use that in simp)
  from assms(1) show ?thesis
  proof cases
    case (stop_pod task xs ys m e)
    from find [OF trans [OF stop_pod(1) [symmetric] assms(2)] stop_pod(3,4)]
    have "pre = GetTask req (Inr task) # xs @ ys" "p = (build_pod env task)\<lparr>pod_meta := m\<rparr>"
      by (auto simp: Cons_eq_append_conv)
    with stop_pod show ?thesis by blast
  next
    case (launch task xs ys m q st b)
    from find [OF trans [OF launch(1) [symmetric] assms(2)] launch(3,4)]
    have "pre = GetTask req (Inr task) # xs @ ys" "p = (build_pod env task)\<lparr>pod_meta := m\<rparr>"
      by (auto simp: Cons_eq_append_conv)
    with launch show ?thesis by blast
  next
    case (stop_cm task xs ok)
    have "CreatePod p a \<in> set (GetTask req (Inr task) # xs)" using stop_cm(1) assms(2) by (metis in_set_conv_decomp)
    with cm.no_pod [OF stop_cm(3)] show ?thesis by auto
  next
    case (stop_np task xs ys ok)
    have "CreatePod p a \<in> set (GetTask req (Inr task) # xs @ ys)" using stop_np(1) assms(2) by (metis in_set_conv_decomp)
    with cm.no_pod [OF stop_np(3)] np.no_pod [OF stop_np(4)] show ?thesis by auto
  qed (use assms(2) in \<open>auto simp: append_eq_Cons_conv\<close>)
qed

text \<open>
  The requests before a pod is asked for: the task is pending and has no pod, its policy and the ConfigMap the pod
  mounts have been asked for or created.
\<close>

lemma pod_requests:
  assumes "owner_only env" "reconcile env req h = (y, h @ pre @ CreatePod p a # post)"
  shows "\<exists>task. hd pre = GetTask req (Inr task) \<and> launchable (task_status task) \<and>
    policy_asked task pre \<and> config_asked env task pre \<and>
    om_namespace (pod_meta p) = task_namespace task \<and> om_labels (pod_meta p) = [(lit ''agenttask'', task_name task)] \<and>
    pod_runtime_class p = Some (lit ''gvisor'') \<and> map_option cp_name (config_map_of_pod p (lit ''task'') (lit ''task.yaml'')
      (lit ''task.yaml'')) = Some (build_config_map_name env task)"
proof -
  have "session env req (pre @ CreatePod p a # post)" using reconcile_session [OF assms(2)] by auto
  from session_pod [OF this refl] obtain task xs ys m where pre: "pre = GetTask req (Inr task) # xs @ ys"
    and l: "launchable (task_status task)" and xs: "cm_calls env task xs True" "np_calls env task ys True"
    and m: "k_set_owner env task (pod_meta (build_pod env task)) = Inr m" and p: "p = (build_pod env task)\<lparr>pod_meta := m\<rparr>"
    by blast
  obtain os where os: "m = (pod_meta (build_pod env task))\<lparr>om_owners := os\<rparr>"
    using assms(1) m unfolding owner_only_def by blast
  have "policy_asked task pre" "config_asked env task pre"
    using cm.provided [OF xs(1) assms(1)] np.provided [OF xs(2) assms(1)]
    by (auto simp: pre policy_asked_def config_asked_def)
  moreover have "config_map_of_pod p (lit ''task'') (lit ''task.yaml'') (lit ''task.yaml'') =
      Some \<lparr>cp_name = build_config_map_name env task, cp_items = [(lit ''task.yaml'', lit ''task.yaml'')]\<rparr>"
    by (rule config_map_of_built_pod) (simp add: p)
  ultimately show ?thesis using l by (simp add: pre p os) (simp add: build_pod_def new_meta_def)
qed

end
