(* ===== verification/ControllerRuns.thy ===== *)
theory ControllerRuns
  imports ControllerProps
begin

text \<open>
  Sequences of reconciliations: whatever requests are queued, in any order, the statuses the operator
  writes are well formed, and a task whose reads are current and whose status updates are accepted gets at most one pod.
\<close>

section \<open>Histories\<close>

inductive reachable :: "kube_env \<Rightarrow> history \<Rightarrow> bool" for env where
  started: "reachable env []"
| reconciled: "reachable env h \<Longrightarrow> reconcile env req h = (y, h') \<Longrightarrow> reachable env h'"

text \<open>Every answer in a history is the one the server gave at that point.\<close>

fun answered :: "kube_env \<Rightarrow> history \<Rightarrow> call \<Rightarrow> bool" where
  "answered env h (GetTask k r) = (r = k_task env h k)"
| "answered env h (GetConfigMap k r) = (r = k_config_map env h k)"
| "answered env h (GetNetworkPolicy k r) = (r = k_network_policy env h k)"
| "answered env h (GetPod k r) = (r = k_pod env h k)"
| "answered env h (CreateConfigMap x r) = (r = k_create_config_map env h x)"
| "answered env h (CreateNetworkPolicy x r) = (r = k_create_network_policy env h x)"
| "answered env h (CreatePod x r) = (r = k_create_pod env h x)"
| "answered env h (UpdateStatus x r) = (r = k_update_status env h x)"

primrec served :: "kube_env \<Rightarrow> history \<Rightarrow> call list \<Rightarrow> bool" where
  "served env h [] = True"
| "served env h (c # cs) = (answered env h c \<and> served env (h @ [c]) cs)"

lemma served_append: "served env h (cs @ ds) \<longleftrightarrow> served env h cs \<and> served env (h @ cs) ds"
  by (induction cs arbitrary: h) auto

definition extends :: "kube_env \<Rightarrow> history \<Rightarrow> history \<Rightarrow> bool" where
  "extends env h h' \<longleftrightarrow> (\<exists>cs. h' = h @ cs \<and> served env h cs)"

lemma extends_reflp: "reflp (extends env)"
  by (auto simp: reflp_def extends_def)

lemma extends_transp: "transp (extends env)"
  by (auto simp: transp_def extends_def served_append)

lemma ask_extends:
  "keeps (extends env) (get_task env k)" "keeps (extends env) (get_config_map env k)"
  "keeps (extends env) (get_network_policy env k)" "keeps (extends env) (get_pod env k)"
  "keeps (extends env) (create_config_map env cm)" "keeps (extends env) (create_network_policy env np)"
  "keeps (extends env) (create_pod env p)" "keeps (extends env) (ask (k_update_status env) UpdateStatus t)"
  by (auto simp: keeps_def client_defs ask_run extends_def)

lemma keeps_case_sum:
  "(\<And>e. keeps r (f e)) \<Longrightarrow> (\<And>x. keeps r (g x)) \<Longrightarrow> keeps r (case z of Inl e \<Rightarrow> f e | Inr x \<Rightarrow> g x)"
  by (cases z) simp_all

lemma keeps_case_option:
  "keeps r m \<Longrightarrow> (\<And>x. keeps r (g x)) \<Longrightarrow> keeps r (case z of None \<Rightarrow> m | Some x \<Rightarrow> g x)"
  by (cases z) simp_all

lemma keeps_at: "(\<And>h. keeps r (m h)) \<Longrightarrow> keeps r (\<lambda>h. m h h)"
  by (simp add: keeps_def)

lemmas extends_intros = keeps_attempt [OF extends_reflp extends_transp] keeps_bind [OF extends_transp]
  keeps_then [OF extends_transp] keeps_stateless [OF extends_reflp] keeps_case_sum keeps_case_option keeps_if ask_extends

lemma update_extends: "keeps (extends env) (update_status env task st)"
  unfolding update_status_def by (intro extends_intros)

lemma fail_extends: "keeps (extends env) (fail_with env task why)"
  unfolding fail_with_def by (rule keeps_at, rule update_extends)

lemma sync_extends: "keeps (extends env) (\<lambda>h. let (st, update) = sync_status (k_now env h) p (task_status task)
  in if update then update_status env task st h else ret () h)"
proof -
  have "extends env h (snd (update_status env task st h))" "extends env h h" for st h
    using update_extends [of env task st] extends_reflp [of env] by (simp_all add: keeps_def reflp_def)
  then show ?thesis by (simp add: keeps_def ret_def split: prod.split)
qed

lemma follow_extends: "keeps (extends env) (follow_pod env task)"
  unfolding follow_pod_def by (intro extends_intros fail_extends sync_extends)

lemma start_extends: "keeps (extends env) (start_pod env task)"
  unfolding start_pod_def ensure_config_map_def ensure_network_policy_def Let_def
  by (intro extends_intros update_extends)

lemma reconcile_extends: "keeps (extends env) (reconcile env req)"
  unfolding reconcile_def Let_def
  by (intro extends_intros update_extends fail_extends start_extends follow_extends)

lemma reconcile_calls:
  assumes "reconcile env req h = (y, h')"
  shows "\<exists>cs. h' = h @ cs \<and> session env req cs \<and> served env h cs"
  using reconcile_session [OF assms] keepsD [OF reconcile_extends assms] by (auto simp: extends_def)

section \<open>Well-formed statuses\<close>

definition status_ok :: "agent_task_status \<Rightarrow> bool" where
  "status_ok st \<longleftrightarrow> st_phase st \<in> {Pending, Provisioning, Running, Completed, Failed, Evicted} \<and>
     (st_pod_name st = [] \<longleftrightarrow> st_phase st = Pending) \<and>
     (terminal (st_phase st) \<longrightarrow> st_finished_at st \<noteq> None) \<and>
     (st_phase st = Running \<longrightarrow> st_started_at st \<noteq> None)"

text \<open>
  \<open>status_shape\<close> allows for a status that somebody else has left without a pod name and without the phase
  Pending, which the operator turns into Failed with the reason \<^verbatim>\<open>Invalid state\<close>.
\<close>

definition status_shape :: "agent_task_status \<Rightarrow> bool" where
  "status_shape st \<longleftrightarrow> st_phase st \<in> {Pending, Provisioning, Running, Completed, Failed, Evicted} \<and>
     (st_phase st = Pending \<longrightarrow> st_pod_name st = []) \<and>
     (st_pod_name st = [] \<longrightarrow> st_phase st = Pending \<or> st_phase st = Failed \<and> st_reason st = lit ''Invalid state'') \<and>
     (terminal (st_phase st) \<longrightarrow> st_finished_at st \<noteq> None) \<and>
     (st_phase st = Running \<longrightarrow> st_started_at st \<noteq> None)"

text \<open>
  What is relied on: the API server gives every created pod a name (from \<^verbatim>\<open>generateName\<close>), and, for \<open>status_ok\<close>, the status
  of a task is empty until the operator has written one, then one that the operator wrote. It need
  not be the latest: reads from the controller's cache may be stale.
\<close>

definition names_pods :: "kube_env \<Rightarrow> bool" where
  "names_pods env \<longleftrightarrow> (\<forall>h p q. k_create_pod env h p = Inr q \<longrightarrow> om_name (pod_meta q) \<noteq> [])"

definition owns_status :: "kube_env \<Rightarrow> bool" where
  "owns_status env \<longleftrightarrow> (\<forall>h k task. k_task env h k = Inr task \<longrightarrow>
     st_phase (task_status task) = NoPhase \<or>
     (\<exists>t a. UpdateStatus t (Inr a) \<in> set h \<and> task_status t = task_status task))"

lemma or_now_some [simp]: "\<exists>y. or_now t d = Some y" "or_now t d \<noteq> None"
  by (cases d; simp add: or_now_def)+

lemma finish_ok:
  assumes "terminal p" "st_pod_name st \<noteq> []"
  shows "status_ok (fst (finish t p why st))" "st_pod_name (fst (finish t p why st)) = st_pod_name st"
  using assms by (auto simp: finish_def status_ok_def terminal_def)

lemma sync_named:
  assumes "st_pod_name st \<noteq> []"
  shows "status_ok (fst (sync_status t p st))" "st_pod_name (fst (sync_status t p st)) = st_pod_name st"
proof -
  have "terminal Completed" "terminal Evicted" "terminal Failed" by (simp_all add: terminal_def)
  note f = this [THEN finish_ok(1)] this [THEN finish_ok(2)]
  have d: "status_ok (st\<lparr>st_phase := Provisioning\<rparr>)" "status_ok (st\<lparr>st_phase := Running, st_started_at := or_now t d\<rparr>)"
    "status_ok (st\<lparr>st_phase := Failed, st_reason := r, st_finished_at := or_now t d\<rparr>)" for d r
    using assms by (simp_all add: status_ok_def terminal_def)
  show "status_ok (fst (sync_status t p st))" "st_pod_name (fst (sync_status t p st)) = st_pod_name st"
    unfolding sync_status_def using assms by (simp_all add: f d del: lit_Cons split: pod_phase.split)
qed

lemma sync_ok:
  "sync_status t p st = (st', b) \<Longrightarrow> st_pod_name st \<noteq> [] \<Longrightarrow> status_ok st' \<and> st_pod_name st' = st_pod_name st"
  using sync_named [of st t p] by simp

lemma status_step_ok:
  assumes "status_step c st st'" "st_phase st = NoPhase \<or> status_ok st"
    "\<And>p. c = Created p \<Longrightarrow> om_name (pod_meta p) \<noteq> []"
  shows "status_ok st'"
  using assms(1)
proof cases
  case (to_provisioning p)
  with assms(3) show ?thesis by (simp add: status_ok_def terminal_def)
next
  case (invalid t)
  with assms(2) show ?thesis by (simp add: status_ok_def)
next
  case (synced t p)
  with sync_ok show ?thesis by blast
qed (auto simp: status_ok_def terminal_def)

lemma status_step_shape:
  assumes "status_step c st st'" "\<And>p. c = Created p \<Longrightarrow> om_name (pod_meta p) \<noteq> []"
  shows "status_shape st'"
  using assms(1)
proof cases
  case (synced t p)
  then have "status_ok st'" using sync_ok by blast
  then show ?thesis by (simp add: status_ok_def status_shape_def)
qed (use assms(2) in \<open>auto simp: status_shape_def terminal_def simp del: lit_Cons\<close>)

text \<open>What a session writes.\<close>

lemma session_write:
  assumes "session env req cs" "UpdateStatus t a \<in> set cs"
  shows "\<exists>task st c. hd cs = GetTask req (Inr task) \<and> t = task\<lparr>task_status := st\<rparr> \<and> status_step c (task_status task) st \<and>
    (\<forall>p. c = Created p \<longrightarrow> (\<exists>x. CreatePod x (Inr p) \<in> set cs))"
  using assms(1)
proof cases
  case (wrote task st b)
  with assms(2) show ?thesis by auto
next
  case (look_wrote r task st b)
  with assms(2) show ?thesis by auto
next
  case (launch task xs ys m p st b)
  have "t = task\<lparr>task_status := st\<rparr>"
    using assms(2) launch(1) cm.no_status [OF launch(3)] np.no_status [OF launch(4)] by auto
  with launch show ?thesis by (intro exI [of _ task] exI [of _ st] exI [of _ "Created p"]) auto
next
  case (stop_cm task xs ok)
  with assms(2) cm.no_status [OF stop_cm(3)] show ?thesis by auto
next
  case (stop_np task xs ys ok)
  with assms(2) cm.no_status [OF stop_np(3)] np.no_status [OF stop_np(4)] show ?thesis by auto
next
  case (stop_pod task xs ys m e)
  with assms(2) cm.no_status [OF stop_pod(3)] np.no_status [OF stop_pod(4)] show ?thesis by auto
qed (use assms(2) in auto)

lemma served_in: "served env h cs \<Longrightarrow> c \<in> set cs \<Longrightarrow> \<exists>g. answered env g c"
  by (induction cs arbitrary: h) auto

text \<open>What a reconciliation adds to the statuses written.\<close>

lemma reconcile_write:
  assumes "reconcile env req h = (y, h')" "UpdateStatus t a \<in> set h'" "UpdateStatus t a \<notin> set h" "names_pods env"
  shows "\<exists>task c. k_task env h req = Inr task \<and> status_step c (task_status task) (task_status t) \<and>
    (\<forall>p. c = Created p \<longrightarrow> om_name (pod_meta p) \<noteq> [])"
proof -
  obtain cs where cs: "h' = h @ cs" "session env req cs" "served env h cs"
    using reconcile_calls [OF assms(1)] by blast
  then have w: "UpdateStatus t a \<in> set cs" using assms(2,3) by simp
  from session_write [OF cs(2) this] obtain task st c where
    task: "hd cs = GetTask req (Inr task)" "t = task\<lparr>task_status := st\<rparr>" "status_step c (task_status task) st"
    "\<And>p. c = Created p \<Longrightarrow> \<exists>x. CreatePod x (Inr p) \<in> set cs" by blast
  have "k_task env h req = Inr task" using cs(3) task(1) w by (cases cs) auto
  moreover have "om_name (pod_meta p) \<noteq> []" if c: "c = Created p" for p
  proof -
    obtain x where "CreatePod x (Inr p) \<in> set cs" using task(4) [OF c] by blast
    from served_in [OF cs(3) this] show ?thesis using assms(4) by (auto simp: names_pods_def dest: sym)
  qed
  ultimately show ?thesis using task(2,3) by auto
qed

lemma shaped_status:
  assumes "reachable env h" "names_pods env" "UpdateStatus t a \<in> set h"
  shows "status_shape (task_status t)"
  using assms(1,3)
proof (induction arbitrary: t a)
  case (reconciled h req y h')
  show ?case
  proof (cases "UpdateStatus t a \<in> set h")
    case False
    from reconcile_write [OF reconciled.hyps(2) reconciled.prems False assms(2)] status_step_shape show ?thesis by blast
  qed (rule reconciled.IH)
qed simp

lemma owned_status:
  assumes "reachable env h" "names_pods env" "owns_status env" "UpdateStatus t a \<in> set h"
  shows "status_ok (task_status t)"
  using assms(1,4)
proof (induction arbitrary: t a)
  case (reconciled h req y h')
  show ?case
  proof (cases "UpdateStatus t a \<in> set h")
    case False
    from reconcile_write [OF reconciled.hyps(2) reconciled.prems False assms(2)] obtain task c where
      w: "k_task env h req = Inr task" "status_step c (task_status task) (task_status t)"
        "\<And>p. c = Created p \<Longrightarrow> om_name (pod_meta p) \<noteq> []" by blast
    have "st_phase (task_status task) = NoPhase \<or> status_ok (task_status task)"
      using assms(3) reconciled.IH w(1) unfolding owns_status_def by metis
    from status_step_ok [OF w(2) this w(3)] show ?thesis .
  qed (rule reconciled.IH)
qed simp

text \<open>
  C9: every status the operator writes is well formed, in any sequence of reconciliations of any tasks, whatever
  statuses it reads and however the cluster behaves otherwise, provided the API server names the pods it creates
  (\<open>names_pods\<close>): one of six phases, a finish time in every terminal phase, a start time when running,
  no pod name when pending; and no pod name otherwise only in a task failed as \<^verbatim>\<open>Invalid state\<close>. If moreover nobody
  else writes statuses (\<open>owns_status\<close>), there is a pod name exactly from Provisioning on, and so the
  Invalid-state branch is never taken.
\<close>

theorem statuses_well_formed:
  assumes "reachable env h" "names_pods env" "UpdateStatus t a \<in> set h"
  shows "status_shape (task_status t) \<and> (owns_status env \<longrightarrow> status_ok (task_status t))"
proof -
  have "status_shape (task_status t)" by (rule shaped_status [OF assms])
  with owned_status [OF assms(1,2) _ assms(3)] show ?thesis by blast
qed

section \<open>One pod for a task\<close>

definition key_of :: "object_meta \<Rightarrow> key" where
  "key_of m = (om_namespace m, om_name m)"

text \<open>The last status written to a task, and the pods created for it.\<close>

fun note_status :: "key \<Rightarrow> agent_task_status option \<Rightarrow> call \<Rightarrow> agent_task_status option" where
  "note_status k old (UpdateStatus t (Inr _)) = (if key_of (task_meta t) = k then Some (task_status t) else old)"
| "note_status k old _ = old"

definition last_status :: "key \<Rightarrow> history \<Rightarrow> agent_task_status option" where
  "last_status k h = foldl (note_status k) None h"

fun pod_for :: "key \<Rightarrow> call \<Rightarrow> bool" where
  "pod_for k (CreatePod p (Inr _)) =
     (om_namespace (pod_meta p) = fst k \<and> om_labels (pod_meta p) = [(lit ''agenttask'', snd k)])"
| "pod_for k _ = False"

definition pods_created :: "key \<Rightarrow> history \<Rightarrow> nat" where
  "pods_created k h = length (filter (pod_for k) h)"

text \<open>
  Reads are current (the task read is the one asked for, with the status last written to it), and no status
  update is refused.
\<close>

definition reads_current :: "kube_env \<Rightarrow> bool" where
  "reads_current env \<longleftrightarrow> (\<forall>h k task. k_task env h k = Inr task \<longrightarrow>
     key_of (task_meta task) = k \<and> (\<forall>st. last_status k h = Some st \<longrightarrow> task_status task = st))"

definition accepts_status :: "kube_env \<Rightarrow> bool" where
  "accepts_status env \<longleftrightarrow> (\<forall>h t. \<not> isl (k_update_status env h t))"

lemma reads_currentD:
  assumes "reads_current env" "k_task env h k = Inr task"
  shows "key_of (task_meta task) = k" "last_status k h = Some st \<Longrightarrow> task_status task = st"
  using assms unfolding reads_current_def by blast+

lemma auxiliary_quiet: "auxiliary c \<Longrightarrow> note_status k old c = old" "auxiliary c \<Longrightarrow> \<not> pod_for k c"
  by (cases c; cases k; simp add: auxiliary_def)+

lemma helpers_quiet:
  assumes "list_all auxiliary cs"
  shows "foldl (note_status k) old cs = old" "filter (pod_for k) cs = []"
  using assms by (induction cs) (auto simp: auxiliary_quiet)

context provision
begin

lemma quiet:
  assumes "calls task cs ok"
  shows "foldl (note_status k) old cs = old" "filter (pod_for k) cs = []"
  using helpers_quiet [OF helper [OF assms]] .

end

definition one_pod :: "key \<Rightarrow> history \<Rightarrow> bool" where
  "one_pod k h \<longleftrightarrow> pods_created k h = 0 \<or>
     pods_created k h = 1 \<and> (\<exists>st. last_status k h = Some st \<and> st_pod_name st \<noteq> [] \<and> st_phase st \<noteq> NoPhase)"

lemma status_step_named:
  "status_step c st st' \<Longrightarrow> (\<And>p. c \<noteq> Created p) \<Longrightarrow> st_pod_name st \<noteq> [] \<Longrightarrow> st_phase st \<noteq> NoPhase \<Longrightarrow>
     st_pod_name st' \<noteq> [] \<and> st_phase st' \<noteq> NoPhase"
  by (erule status_step.cases) (use sync_ok in \<open>fastforce simp: status_ok_def\<close>)+

lemma one_pod_quiet:
  "foldl (note_status k) (last_status k h) cs = last_status k h \<Longrightarrow> filter (pod_for k) cs = [] \<Longrightarrow>
     one_pod k (h @ cs) \<longleftrightarrow> one_pod k h"
  by (simp add: one_pod_def pods_created_def last_status_def)

text \<open>A status written over the one read keeps the pod's name.\<close>

lemma one_pod_write:
  assumes "reads_current env" "k_task env h req = Inr task" "status_step c (task_status task) st" "one_pod k h" "\<And>p. c \<noteq> Created p"
    and "foldl (note_status k) (last_status k h) cs = last_status k h" "filter (pod_for k) cs = []"
  shows "one_pod k (h @ cs @ [UpdateStatus (task\<lparr>task_status := st\<rparr>) a])"
proof (cases "k = req \<and> \<not> isl a \<and> pods_created k h \<noteq> 0")
  case True
  then obtain old where old: "last_status k h = Some old" "st_pod_name old \<noteq> []" "st_phase old \<noteq> NoPhase"
    using assms(4) by (auto simp: one_pod_def)
  with reads_currentD [OF assms(1,2)] True have "task_status task = old" "key_of (task_meta task) = k" by simp_all
  with status_step_named [OF assms(3,5)] old have "st_pod_name st \<noteq> []" "st_phase st \<noteq> NoPhase" by auto
  moreover have "last_status k (h @ cs @ [UpdateStatus (task\<lparr>task_status := st\<rparr>) a]) = Some st"
    using True \<open>key_of (task_meta task) = k\<close> by (cases a) (auto simp: last_status_def)
  ultimately show ?thesis using assms(4,7) True by (auto simp: one_pod_def pods_created_def)
next
  case False
  have "key_of (task_meta task) = req" by (rule reads_currentD [OF assms(1,2)])
  with False assms(6) have "pods_created k h = 0 \<or>
      last_status k (h @ cs @ [UpdateStatus (task\<lparr>task_status := st\<rparr>) a]) = last_status k h"
    by (cases a) (auto simp: last_status_def)
  with assms(4,7) show ?thesis by (auto simp: one_pod_def pods_created_def)
qed

lemma one_pod_launch:
  assumes "reads_current env" "names_pods env" "owner_only env"
    and t: "k_task env h req = Inr task" and l: "launchable (task_status task)"
    and m: "k_set_owner env task (pod_meta (build_pod env task)) = Inr m"
    and p: "k_create_pod env g ((build_pod env task)\<lparr>pod_meta := m\<rparr>) = Inr p"
    and st: "status_step (Created p) (task_status task) st" and one: "one_pod k h"
    and cs: "foldl (note_status k) (last_status k h) cs = last_status k h" "filter (pod_for k) cs = []"
  shows "one_pod k (h @ cs @ [CreatePod ((build_pod env task)\<lparr>pod_meta := m\<rparr>) (Inr p),
    UpdateStatus (task\<lparr>task_status := st\<rparr>) (Inr a)])"
proof -
  have key: "key_of (task_meta task) = req" by (rule reads_currentD [OF assms(1) t])
  have pod: "pod_for k (CreatePod ((build_pod env task)\<lparr>pod_meta := m\<rparr>) (Inr p)) \<longleftrightarrow> k = req"
    using owner_onlyD [OF assms(3) m] key
    by (cases k) (auto simp: build_pod_def new_meta_def key_of_def simp del: lit_Cons)
  show ?thesis
  proof (cases "k = req")
    case False
    then show ?thesis using one pod cs key
      by (intro iffD2 [OF one_pod_quiet]) (auto simp del: pod_for.simps(1))
  next
    case True
    have "pods_created k h = 0"
    proof (rule ccontr)
      assume "pods_created k h \<noteq> 0"
      with one obtain old where "last_status k h = Some old" "st_pod_name old \<noteq> []" by (auto simp: one_pod_def)
      with reads_currentD(2) [OF assms(1) t] l True show False by (simp add: launchable_def)
    qed
    moreover have "st_pod_name st \<noteq> []" "st_phase st \<noteq> NoPhase"
      using st p assms(2) by (auto simp: names_pods_def elim: status_step.cases)
    ultimately show ?thesis using True pod cs key
      by (auto simp: one_pod_def pods_created_def last_status_def simp del: pod_for.simps(1))
  qed
qed

lemma session_one_pod:
  assumes env: "reads_current env" "names_pods env" "owner_only env" "accepts_status env"
    and cs: "session env req cs" "served env h cs" and one: "one_pod k h"
  shows "one_pod k (h @ cs)"
  using cs(1)
proof cases
  case (wrote task st a)
  with one_pod_write [OF env(1) _ _ one, of req task Unseen st "[GetTask req (Inr task)]" a] cs(2) show ?thesis by simp
next
  case (look_wrote r task st a)
  with one_pod_write [OF env(1) _ _ one, of req task "Seen r" st "[GetTask req (Inr task), GetPod (pod_key task) r]" a] cs(2)
  show ?thesis by simp
next
  case (launch task xs ys m p st a)
  have "\<exists>g. answered env g (UpdateStatus (task\<lparr>task_status := st\<rparr>) a)"
    by (rule served_in [OF cs(2)]) (simp add: launch(1))
  then have "\<not> isl a" using env(4) by (auto simp: accepts_status_def)
  then obtain b where a: "a = Inr b" by (cases a) auto
  have t: "k_task env h req = Inr task" using cs(2) launch(1) by simp
  have p: "k_create_pod env (h @ GetTask req (Inr task) # xs @ ys) ((build_pod env task)\<lparr>pod_meta := m\<rparr>) = Inr p"
    using cs(2) launch(1) by (simp add: served_append)
  from one_pod_launch [OF env(1-3) t launch(2,5) p launch(6) one, of "GetTask req (Inr task) # xs @ ys" b]
  show ?thesis using launch(1) a cm.quiet [OF launch(3)]
      np.quiet [OF launch(4)] by simp
next
  case (stop_cm task xs ok)
  with cm.quiet [OF stop_cm(3)] one show ?thesis
    by (intro iffD2 [OF one_pod_quiet]) simp_all
next
  case (stop_np task xs ys ok)
  with cm.quiet [OF stop_np(3)] np.quiet [OF stop_np(4)] one
  show ?thesis by (intro iffD2 [OF one_pod_quiet]) simp_all
next
  case (stop_pod task xs ys m e)
  with cm.quiet [OF stop_pod(3)] np.quiet [OF stop_pod(4)] one
  show ?thesis by (intro iffD2 [OF one_pod_quiet]) simp_all
qed (use one in \<open>auto intro!: iffD2 [OF one_pod_quiet]\<close>)

text \<open>
  C10: a task gets at most one pod, however often and in whatever order tasks are reconciled, as long as reads
  are current and no status update is refused.
\<close>

theorem at_most_one_pod:
  assumes "reachable env h" "reads_current env" "names_pods env" "owner_only env" "accepts_status env"
  shows "pods_created k h \<le> 1"
proof -
  from assms(1) have "one_pod k h"
  proof induction
    case started
    show ?case by (simp add: one_pod_def pods_created_def)
  next
    case (reconciled h req y h')
    obtain cs where "h' = h @ cs" "session env req cs" "served env h cs"
      using reconcile_calls [OF reconciled.hyps(2)] by blast
    with session_one_pod [OF assms(2-5)] reconciled.IH show ?case by blast
  qed
  then show ?thesis by (auto simp: one_pod_def)
qed

section \<open>A task gets its pod\<close>

text \<open>The API server and \<^verbatim>\<open>SetControllerReference\<close> refuse nothing; what is asked for may not exist yet.\<close>

definition grants :: "kube_env \<Rightarrow> bool" where
  "grants env \<longleftrightarrow> accepts_status env \<and> (\<forall>h k e. k_config_map env h k = Inl e \<longrightarrow> e = NotFound) \<and>
     (\<forall>h k e. k_network_policy env h k = Inl e \<longrightarrow> e = NotFound) \<and> (\<forall>task m. \<not> isl (k_set_owner env task m)) \<and>
     (\<forall>h x. \<not> isl (k_create_config_map env h x)) \<and> (\<forall>h x. \<not> isl (k_create_network_policy env h x)) \<and>
     (\<forall>h x. \<not> isl (k_create_pod env h x))"

lemma bindE_returned: "m h = (Inr x, u) \<Longrightarrow> bindE m f h = f x u"
  by (simp add: bindE_def)

lemma not_isl: "\<not> isl z \<Longrightarrow> \<exists>x. z = Inr x"
  by (cases z) auto

lemma grantsD:
  assumes "grants env"
  shows "\<exists>a. k_update_status env h t = Inr a" "k_config_map env h k = Inl e \<Longrightarrow> e = NotFound"
    "k_network_policy env h k = Inl e \<Longrightarrow> e = NotFound" "\<exists>m'. k_set_owner env task m = Inr m'"
    "\<exists>x. k_create_config_map env h c = Inr x" "\<exists>x. k_create_network_policy env h n = Inr x"
    "\<exists>x. k_create_pod env h p = Inr x"
  using assms unfolding grants_def accepts_status_def by (blast intro: not_isl)+

lemma config_map_granted:
  assumes "grants env" "st_pod_name (task_status task) = []"
  shows "\<exists>h'. ensure_config_map env task h = (Inr (), h')"
proof (cases "k_config_map env h (cm_key env task)")
  case (Inl e)
  note e = Inl [unfolded grantsD(2) [OF assms(1) Inl]]
  show ?thesis
  proof (cases "build_config_map env task")
    case (Some c)
    obtain m where "k_set_owner env task (cm_meta c) = Inr m" using grantsD(4) [OF assms(1)] by blast
    moreover obtain x where "k_create_config_map env (h @ [GetConfigMap (cm_key env task) (Inl NotFound)])
        (c\<lparr>cm_meta := m\<rparr>) = Inr x" using grantsD(5) [OF assms(1)] by blast
    ultimately show ?thesis using e Some assms(2) by (simp add: ensure_config_map_def go_run)
  qed (use e assms(2) in \<open>simp add: ensure_config_map_def go_run\<close>)
qed (simp add: ensure_config_map_def go_run)

lemma network_policy_granted:
  assumes "grants env"
  shows "\<exists>h'. ensure_network_policy env task h = (Inr (), h')"
proof -
  let ?np = "task_policy task"
  let ?k = "(om_namespace (np_meta ?np), om_name (np_meta ?np))"
  show ?thesis
  proof (cases "k_network_policy env h ?k")
    case (Inl e)
    note e = Inl [unfolded grantsD(3) [OF assms(1) Inl]]
    obtain m where "k_set_owner env task (np_meta ?np) = Inr m" using grantsD(4) [OF assms(1)] by blast
    moreover obtain x where "k_create_network_policy env (h @ [GetNetworkPolicy ?k (Inl NotFound)])
        (?np\<lparr>np_meta := m\<rparr>) = Inr x" using grantsD(6) [OF assms(1)] by blast
    ultimately show ?thesis using e by (simp add: ensure_network_policy_def go_run Let_def)
  qed (simp add: ensure_network_policy_def go_run Let_def)
qed

lemma start_granted:
  assumes "grants env" "launchable (task_status task)"
  shows "\<exists>cs m p a. start_pod env task h = (Inr (), h @ cs @ [CreatePod ((build_pod env task)\<lparr>pod_meta := m\<rparr>) (Inr p),
      UpdateStatus (task\<lparr>task_status := (task_status task)
        \<lparr>st_pod_name := om_name (pod_meta p), st_phase := Provisioning\<rparr>\<rparr>) (Inr a)]) \<and>
    list_all auxiliary cs \<and> k_set_owner env task (pod_meta (build_pod env task)) = Inr m \<and>
    k_create_pod env (h @ cs) ((build_pod env task)\<lparr>pod_meta := m\<rparr>) = Inr p"
proof -
  obtain h1 where 1: "ensure_config_map env task h = (Inr (), h1)"
    using config_map_granted [OF assms(1)] assms(2) by (auto simp: launchable_def)
  obtain h2 where 2: "ensure_network_policy env task h1 = (Inr (), h2)" using network_policy_granted [OF assms(1)] by blast
  obtain cs where cs: "h1 = h @ cs" "list_all auxiliary cs" using cm.requests [OF assms(2) 1] by (auto dest: cm.helper)
  obtain ds where ds: "h2 = h1 @ ds" "list_all auxiliary ds" using np.requests [OF assms(2) 2] by (auto dest: np.helper)
  obtain m where m: "k_set_owner env task (pod_meta (build_pod env task)) = Inr m" using grantsD(4) [OF assms(1)] by blast
  obtain p where p: "k_create_pod env h2 ((build_pod env task)\<lparr>pod_meta := m\<rparr>) = Inr p" using grantsD(7) [OF assms(1)] by blast
  let ?st = "(task_status task)\<lparr>st_pod_name := om_name (pod_meta p), st_phase := Provisioning\<rparr>"
  let ?h3 = "h2 @ [CreatePod ((build_pod env task)\<lparr>pod_meta := m\<rparr>) (Inr p)]"
  obtain a where a: "k_update_status env ?h3 (task\<lparr>task_status := ?st\<rparr>) = Inr a" using grantsD(1) [OF assms(1)] by blast
  have "start_pod env task h = (Inr (), ?h3 @ [UpdateStatus (task\<lparr>task_status := ?st\<rparr>) (Inr a)])"
    unfolding start_pod_def thenE_def Let_def
    by (simp only: bindE_returned [of "ensure_config_map env task", OF 1]
        bindE_returned [of "ensure_network_policy env task", OF 2]) (simp add: go_run m p a)
  with m p show ?thesis unfolding ds(1) cs(1) append.assoc using cs(2) ds(2)
    by (intro exI [of _ "cs @ ds"] exI [of _ m] exI [of _ p] exI [of _ a]) simp
qed

text \<open>
  C11: a new task gets its pod: with an API server that refuses nothing and returns what was written, two
  reconciliations of a task without a status, which is not deleted meanwhile, return without error, create exactly one
  pod for it and leave it in phase Provisioning with the name of that pod.
\<close>

theorem task_gets_pod:
  assumes "grants env" "reads_current env" "owner_only env" "k_task env h req = Inr task"
    "st_phase (task_status task) = NoPhase" "\<And>g. \<exists>t. k_task env g req = Inr t \<and> om_deleted (task_meta t) = None"
  shows "\<exists>h1 h2 g p q st. reconcile env req h = (Inr (), h1) \<and> reconcile env req h1 = (Inr (), h2) \<and>
    pods_created req h2 = pods_created req h + 1 \<and> k_create_pod env g p = Inr q \<and> CreatePod p (Inr q) \<in> set h2 \<and>
    last_status req h2 = Some st \<and> st_phase st = Provisioning \<and> st_pod_name st = om_name (pod_meta q)"
proof -
  let ?pending = "(task_status task)\<lparr>st_phase := Pending, st_pod_name := []\<rparr>"
  let ?t1 = "task\<lparr>task_status := ?pending\<rparr>" and ?g = "h @ [GetTask req (Inr task)]"
  obtain a where a: "k_update_status env ?g ?t1 = Inr a" using grantsD(1) [OF assms(1)] by blast
  define h1 where "h1 = ?g @ [UpdateStatus ?t1 (Inr a)]"
  have "om_deleted (task_meta task) = None" using assms(4) assms(6) [of h] by auto
  with assms(4,5) a have 1: "reconcile env req h = (Inr (), h1)"
    by (simp add: reconcile_def go_run Let_def h1_def)
  have key: "key_of (task_meta task) = req" using reads_currentD(1) [OF assms(2,4)] .
  obtain t where t: "k_task env h1 req = Inr t" "om_deleted (task_meta t) = None" using assms(6) by blast
  have "last_status req h1 = Some ?pending" by (simp add: h1_def last_status_def key)
  with reads_currentD [OF assms(2) t(1)] have st: "task_status t = ?pending" "key_of (task_meta t) = req" by auto
  then have l: "launchable (task_status t)" by (simp add: launchable_def)
  let ?h = "h1 @ [GetTask req (Inr t)]"
  from start_granted [OF assms(1) l, of ?h] obtain cs m q b where s: "start_pod env t ?h = (Inr (), ?h @ cs @
      [CreatePod ((build_pod env t)\<lparr>pod_meta := m\<rparr>) (Inr q), UpdateStatus (t\<lparr>task_status := (task_status t)
        \<lparr>st_pod_name := om_name (pod_meta q), st_phase := Provisioning\<rparr>\<rparr>) (Inr b)])" (is "_ = (_, ?h2)")
    and cs: "list_all auxiliary cs" and m: "k_set_owner env t (pod_meta (build_pod env t)) = Inr m"
    and q: "k_create_pod env (?h @ cs) ((build_pod env t)\<lparr>pod_meta := m\<rparr>) = Inr q"
    by blast
  have 2: "reconcile env req h1 = (Inr (), ?h2)"
    using t st s by (simp add: reconcile_def go_run Let_def)
  have pod: "pod_for req (CreatePod ((build_pod env t)\<lparr>pod_meta := m\<rparr>) (Inr q))"
    using owner_onlyD [OF assms(3) m] st(2) by (cases req) (auto simp: build_pod_def new_meta_def key_of_def simp del: lit_Cons)
  have "pods_created req ?h2 = pods_created req h + 1"
    using pod helpers_quiet(2) [OF cs] by (simp add: pods_created_def h1_def del: pod_for.simps(1))
  moreover have "last_status req ?h2 = Some ((task_status t)\<lparr>st_pod_name := om_name (pod_meta q), st_phase := Provisioning\<rparr>)"
    using st(2) by (simp add: last_status_def)
  moreover have "CreatePod ((build_pod env t)\<lparr>pod_meta := m\<rparr>) (Inr q) \<in> set ?h2" by simp
  moreover have "st_phase ((task_status t)\<lparr>st_pod_name := om_name (pod_meta q), st_phase := Provisioning\<rparr>) = Provisioning"
    "st_pod_name ((task_status t)\<lparr>st_pod_name := om_name (pod_meta q), st_phase := Provisioning\<rparr>) = om_name (pod_meta q)"
    by simp_all
  ultimately show ?thesis using 1 2 q by blast
qed

section \<open>Reconciling again\<close>

lemma sync_settled:
  assumes "pod_status_phase p \<in> {PodPending, PodRunning, PodSucceeded, PodFailed}"
  shows "sync_status t' p (fst (sync_status t p st)) = (fst (sync_status t p st), False)"
proof -
  have "or_now a (or_now b d) = or_now b d" for a b d by (cases d) (simp_all add: or_now_def)
  then show ?thesis using assms by (auto simp: sync_status_def finish_def)
qed

text \<open>The update flag is exact: a status is written only when it differs.\<close>

lemma sync_update_exact:
  assumes "pod_status_phase p \<in> {PodPending, PodRunning, PodSucceeded, PodFailed}"
  shows "snd (sync_status t p st) \<longleftrightarrow> fst (sync_status t p st) \<noteq> st"
  using assms by (cases st) (auto simp: sync_status_def finish_def or_now_def split: option.splits)

text \<open>
  C13: reconciling is idempotent: when the task already has the status that its pod gives (the status a
  reconciliation has written for this pod, with any earlier status and at any time), reconciling reads the task
  and the pod and writes nothing, in every phase that Kubernetes documents except Unknown.
\<close>

theorem reconcile_idempotent:
  assumes "k_task env h req = Inr task" "om_deleted (task_meta task) = None" "st_pod_name (task_status task) \<noteq> []"
    "k_pod env (h @ [GetTask req (Inr task)]) (task_namespace task, st_pod_name (task_status task)) = Inr p"
    "pod_status_phase p \<in> {PodPending, PodRunning, PodSucceeded, PodFailed}"
    "config_map_of_pod p (lit ''task'') (lit ''task.yaml'') (lit ''task.yaml'') \<noteq> None"
    "task_status task = fst (sync_status t p st)"
  shows "reconcile env req h = (Inr (), h @ [GetTask req (Inr task),
    GetPod (task_namespace task, st_pod_name (task_status task)) (Inr p)])"
proof -
  have s: "sync_status t' p (task_status task) = (task_status task, False)" for t'
    using sync_settled [OF assms(5)] assms(7) by simp
  have "st_phase (task_status task) \<noteq> NoPhase"
    using assms(5) unfolding assms(7) by (auto simp: sync_status_def finish_def)
  then show ?thesis
    using assms(1-4,6) s by (simp add: reconcile_def follow_pod_def go_run Let_def del: lit_Cons)
qed

end
