(* ===== verification/ControllerLife.thy ===== *)
theory ControllerLife
  imports ControllerRuns
begin

text \<open>
  The end of a task: when the API server and the pods behave as Kubernetes documents, the operator never touches
  the status of a finished task again.
\<close>

section \<open>Later reconciliations\<close>

inductive later :: "kube_env \<Rightarrow> history \<Rightarrow> history \<Rightarrow> bool" for env h where
  now: "later env h h"
| reconciled_later: "later env h g \<Longrightarrow> reconcile env req g = (y, h') \<Longrightarrow> later env h h'"

lemma later_reachable: "later env h h' \<Longrightarrow> reachable env h \<Longrightarrow> reachable env h'"
  by (induction rule: later.induct) (auto intro: reconciled)

lemma reachable_served: "reachable env h \<Longrightarrow> served env [] h"
proof (induction rule: reachable.induct)
  case (reconciled h req y h')
  then show ?case using reconcile_calls [OF reconciled.hyps(2)] by (auto simp: served_append)
qed simp

section \<open>What Kubernetes documents\<close>

text \<open>
  A task has no phase before the operator writes one. A pod is reported in one of four phases, never as Unknown
  (\<open>pods_known\<close>); one that has succeeded, failed or gone missing stays so: no later answer contradicts a final one
  (\<open>pods_final\<close>).
\<close>

definition starts_new :: "kube_env \<Rightarrow> bool" where
  "starts_new env \<longleftrightarrow> (\<forall>h k task. k_task env h k = Inr task \<and> last_status k h = None \<longrightarrow>
     st_phase (task_status task) = NoPhase)"

fun final :: "go_error + pod \<Rightarrow> bool" where
  "final (Inl e) = (e = NotFound)"
| "final (Inr p) = (pod_status_phase p \<in> {PodSucceeded, PodFailed})"

fun upholds :: "go_error + pod \<Rightarrow> go_error + pod \<Rightarrow> bool" where
  "upholds (Inl _) r = isl r"
| "upholds (Inr p) (Inl _) = True"
| "upholds (Inr p) (Inr q) = (pod_status_phase q = pod_status_phase p \<and> pod_status_reason q = pod_status_reason p)"

definition pods_final :: "kube_env \<Rightarrow> bool" where
  "pods_final env \<longleftrightarrow> (\<forall>h k r. served env [] h \<and> GetPod k r \<in> set h \<and> final r \<longrightarrow> upholds r (k_pod env h k))"

definition pods_known :: "kube_env \<Rightarrow> bool" where
  "pods_known env \<longleftrightarrow>
     (\<forall>h k p. k_pod env h k = Inr p \<longrightarrow> pod_status_phase p \<in> {PodPending, PodRunning, PodSucceeded, PodFailed})"

lemma pods_finalD:
  "pods_final env \<Longrightarrow> served env [] h \<Longrightarrow> GetPod k r \<in> set h \<Longrightarrow> final r \<Longrightarrow> upholds r (k_pod env h k)"
  unfolding pods_final_def by blast

lemma pods_knownD:
  "pods_known env \<Longrightarrow> k_pod env h k = Inr p \<Longrightarrow> pod_status_phase p \<in> {PodPending, PodRunning, PodSucceeded, PodFailed}"
  unfolding pods_known_def by blast

section \<open>What one reconciliation writes\<close>

text \<open>\<open>written\<close>: the reconciliation of \<open>k\<close> has read \<open>task\<close> and written \<open>st\<close> over its status, after seeing \<open>c\<close>.\<close>

definition written :: "kube_env \<Rightarrow> history \<Rightarrow> key \<Rightarrow> call list \<Rightarrow> agent_task \<Rightarrow> seen \<Rightarrow> agent_task_status \<Rightarrow> bool" where
  "written env h k cs task c st \<longleftrightarrow> k_task env h k = Inr task \<and> status_step c (task_status task) st \<and>
     (\<forall>r. c = Seen r \<longrightarrow> GetPod (pod_key task) r \<in> set cs \<and> r = k_pod env (h @ [GetTask k (Inr task)]) (pod_key task)) \<and>
     (\<forall>p. c = Created p \<longrightarrow> (\<exists>g x. k_create_pod env g x = Inr p))"

lemma session_last:
  assumes "session env req cs" "served env h cs" "reads_current env"
  shows "last_status k (h @ cs) = last_status k h \<or>
    (k = req \<and> (\<exists>task c st. written env h k cs task c st \<and> last_status k (h @ cs) = Some st))"
  using assms(1)
proof cases
  case (wrote task st a)
  then have t: "k_task env h req = Inr task" using assms(2) by simp
  with wrote reads_currentD(1) [OF assms(3) t] show ?thesis
    by (cases a) (auto simp: last_status_def written_def)
next
  case (look_wrote r task st a)
  then have t: "k_task env h req = Inr task" and r: "r = k_pod env (h @ [GetTask req (Inr task)]) (pod_key task)"
    using assms(2) by simp_all
  with look_wrote have w: "written env h req cs task (Seen r) st" by (simp add: written_def)
  have "last_status k (h @ cs) = last_status k h \<or> k = req \<and> last_status k (h @ cs) = Some st"
    using look_wrote(1) reads_currentD(1) [OF assms(3) t] by (cases a) (auto simp: last_status_def)
  with w show ?thesis by blast
next
  case (launch task xs ys m p st a)
  then have t: "k_task env h req = Inr task" using assms(2) by simp
  have "\<exists>g. answered env g (CreatePod ((build_pod env task)\<lparr>pod_meta := m\<rparr>) (Inr p))"
    by (rule served_in [OF assms(2)]) (simp add: launch(1))
  then have "\<exists>g x. k_create_pod env g x = Inr p" by (metis answered.simps(7))
  then have w: "written env h req cs task (Created p) st" using t launch(6) by (simp add: written_def)
  have "last_status k (h @ cs) = last_status k h \<or> k = req \<and> last_status k (h @ cs) = Some st"
    using launch(1) cm.quiet(1) [OF launch(3)] np.quiet(1) [OF launch(4)] reads_currentD(1) [OF assms(3) t]
    by (cases a) (auto simp: last_status_def)
  with w show ?thesis by blast
next
  case (stop_cm task xs ok)
  with cm.quiet(1) [OF stop_cm(3)] show ?thesis by (simp add: last_status_def)
next
  case (stop_np task xs ys ok)
  with cm.quiet(1) [OF stop_np(3)] np.quiet(1) [OF stop_np(4)] show ?thesis by (simp add: last_status_def)
next
  case (stop_pod task xs ys m e)
  with cm.quiet(1) [OF stop_pod(3)] np.quiet(1) [OF stop_pod(4)] show ?thesis by (simp add: last_status_def)
qed (auto simp: last_status_def)

section \<open>A finished task has a finished pod\<close>

text \<open>
  \<open>settled\<close>: a well-formed status, and when it is a final one, the pod it names was seen gone, or seen finished
  with this status as the one that the pod gives.
\<close>

definition settled :: "key \<Rightarrow> history \<Rightarrow> agent_task_status \<Rightarrow> bool" where
  "settled k h st \<longleftrightarrow> status_ok st \<and> (terminal (st_phase st) \<longrightarrow>
     (\<exists>r. GetPod (fst k, st_pod_name st) r \<in> set h \<and> final r \<and> (\<forall>p. r = Inr p \<longrightarrow> (\<exists>t old. st = fst (sync_status t p old)))))"

lemma settled_mono: "settled k h st \<Longrightarrow> settled k (h @ cs) st"
  unfolding settled_def by auto

text \<open>What a pod gives depends on its phase and its reason only, and giving it twice changes nothing.\<close>

lemma sync_same:
  assumes "pod_status_phase q = pod_status_phase p" "pod_status_reason q = pod_status_reason p" "final (Inr p)"
  shows "sync_status t' q (fst (sync_status t p st)) = (fst (sync_status t p st), False)"
proof -
  have "sync_status t' q = sync_status t' p" using assms(1,2) by (simp add: sync_status_def fun_eq_iff)
  with sync_settled [of p t' t st] assms(3) show ?thesis by auto
qed

lemma sync_terminal:
  assumes "pod_status_phase p \<in> {PodPending, PodRunning, PodSucceeded, PodFailed}" "sync_status t p st = (st', b)"
    "terminal (st_phase st')"
  shows "final (Inr p)"
  using assms by (auto simp: sync_status_def terminal_def)

text \<open>The environment of the theorems below.\<close>

definition orderly :: "kube_env \<Rightarrow> bool" where
  "orderly env \<longleftrightarrow> reads_current env \<and> starts_new env \<and> names_pods env \<and> pods_final env \<and> pods_known env"

lemma orderlyD:
  "orderly env \<Longrightarrow> reads_current env" "orderly env \<Longrightarrow> starts_new env" "orderly env \<Longrightarrow> names_pods env"
  "orderly env \<Longrightarrow> pods_final env" "orderly env \<Longrightarrow> pods_known env"
  by (simp_all add: orderly_def)

lemma written_old:
  assumes "orderly env" "written env h k cs task c st" "\<And>old. last_status k h = Some old \<Longrightarrow> settled k h old"
  shows "st_phase (task_status task) = NoPhase \<or> last_status k h = Some (task_status task) \<and> settled k h (task_status task)"
proof (cases "last_status k h")
  case None
  with assms(1,2) show ?thesis unfolding orderly_def starts_new_def written_def by blast
next
  case (Some old)
  moreover have "k_task env h k = Inr task" using assms(2) by (simp add: written_def)
  ultimately show ?thesis using reads_currentD(2) [OF orderlyD(1) [OF assms(1)]] assms(3) by blast
qed

lemma written_ok:
  assumes "orderly env" "written env h k cs task c st" "\<And>old. last_status k h = Some old \<Longrightarrow> settled k h old"
  shows "status_ok st"
proof (rule status_step_ok)
  show "status_step c (task_status task) st" using assms(2) by (simp add: written_def)
  show "st_phase (task_status task) = NoPhase \<or> status_ok (task_status task)"
    using written_old [OF assms] by (auto simp: settled_def)
  show "om_name (pod_meta p) \<noteq> []" if "c = Created p" for p
    using assms(2) that orderlyD(3) [OF assms(1)] unfolding written_def names_pods_def by blast
qed

lemma written_settled:
  assumes "orderly env" "written env h k cs task c st" "\<And>old. last_status k h = Some old \<Longrightarrow> settled k h old"
    and "served env [] h"
  shows "settled k (h @ cs) st"
proof -
  have w: "k_task env h k = Inr task" "status_step c (task_status task) st"
    "\<And>r. c = Seen r \<Longrightarrow> GetPod (pod_key task) r \<in> set cs \<and> r = k_pod env (h @ [GetTask k (Inr task)]) (pod_key task)"
    using assms(2) by (simp_all add: written_def)
  have ns: "task_namespace task = fst k" using reads_currentD(1) [OF orderlyD(1) [OF assms(1)] w(1)] by (auto simp: key_of_def)
  have sv: "served env [] (h @ [GetTask k (Inr task)])" using assms(4) w(1) by (simp add: served_append)
  have "\<exists>r. GetPod (fst k, st_pod_name st) r \<in> set (h @ cs) \<and> final r \<and> (\<forall>p. r = Inr p \<longrightarrow> (\<exists>t old. st = fst (sync_status t p old)))"
    if "terminal (st_phase st)"
    using w(2)
  proof cases
    case (invalid t)
    with written_old [OF assms(1-3)] show ?thesis by (auto simp: settled_def status_ok_def)
  next
    case (lost t)
    have "GetPod (pod_key task) (Inl NotFound) \<in> set cs" using w(3) [OF lost(1)] by blast
    with lost(2) ns show ?thesis by (intro exI [of _ "Inl NotFound"]) simp
  next
    case (synced t p)
    then have n: "st_pod_name st = st_pod_name (task_status task)" using sync_ok by blast
    have "pod_status_phase p \<in> {PodPending, PodRunning, PodSucceeded, PodFailed}"
      using pods_knownD [OF orderlyD(5) [OF assms(1)]] w(3) [OF synced(1)] by metis
    from sync_terminal [OF this synced(4) that] have "final (Inr p)" .
    moreover have "st = fst (sync_status t p (task_status task))" using synced(4) by simp
    moreover have "GetPod (fst k, st_pod_name st) (Inr p) \<in> set cs" using w(3) [OF synced(1)] unfolding ns n by (rule conjunct1)
    ultimately show ?thesis by (metis Inr_inject UnI2 set_append)
  qed (use that in \<open>auto simp: terminal_def\<close>)
  with written_ok [OF assms(1-3)] show ?thesis by (simp add: settled_def)
qed

lemma reachable_settled:
  assumes "reachable env h" "orderly env" "last_status k h = Some st"
  shows "settled k h st"
  using assms(1,3)
proof (induction arbitrary: st)
  case (reconciled h req y h')
  obtain cs where cs: "h' = h @ cs" "session env req cs" "served env h cs"
    using reconcile_calls [OF reconciled.hyps(2)] by blast
  from session_last [OF cs(2,3) orderlyD(1) [OF assms(2)], of k] show ?case
  proof (elim disjE conjE exE)
    assume "last_status k (h @ cs) = last_status k h"
    with reconciled.IH reconciled.prems settled_mono show ?thesis by (simp add: cs(1))
  next
    fix task c st'
    assume w: "written env h k cs task c st'" "last_status k (h @ cs) = Some st'"
    from written_settled [OF assms(2) w(1) reconciled.IH reachable_served [OF reconciled.hyps(1)]]
    show ?thesis using w(2) reconciled.prems by (simp add: cs(1))
  qed
qed (simp add: last_status_def)

section \<open>Nothing is written over the end of a task\<close>

lemma finished_unwritten:
  assumes "orderly env" "reachable env h" "last_status k h = Some st" "terminal (st_phase st)" "written env h k cs task c st'"
  shows False
proof -
  have s: "settled k h st" by (rule reachable_settled [OF assms(2,1,3)])
  have w: "k_task env h k = Inr task" "status_step c (task_status task) st'"
    "\<And>r. c = Seen r \<Longrightarrow> r = k_pod env (h @ [GetTask k (Inr task)]) (pod_key task)"
    using assms(5) by (simp_all add: written_def)
  note rc = reads_currentD [OF orderlyD(1) [OF assms(1)] w(1)]
  have old: "task_status task = st" using rc(2) assms(3) .
  have k: "pod_key task = (fst k, st_pod_name st)" using rc(1) old by (auto simp: key_of_def)
  have sv: "served env [] (h @ [GetTask k (Inr task)])" using reachable_served [OF assms(2)] w(1) by (simp add: served_append)
  from w(2)[unfolded old] show False
  proof cases
    case (synced t p)
    obtain r where r: "GetPod (fst k, st_pod_name st) r \<in> set h" "final r"
      "\<And>p. r = Inr p \<Longrightarrow> \<exists>t old. st = fst (sync_status t p old)"
      using s assms(4) unfolding settled_def by blast
    have "upholds r (Inr p)"
      using pods_finalD [OF orderlyD(4) [OF assms(1)] sv, of "(fst k, st_pod_name st)" r] r(1,2) w(3) [OF synced(1)] k by simp
    then obtain q where q: "r = Inr q" "pod_status_phase p = pod_status_phase q" "pod_status_reason p = pod_status_reason q"
      by (cases r) auto
    with r(3) obtain t' old' where "st = fst (sync_status t' q old')" by blast
    with sync_same [OF q(2,3), of t t' old'] r(2) q(1) synced(4) show False by simp
  qed (use assms(4) s in \<open>auto simp: terminal_def launchable_def settled_def status_ok_def\<close>)
qed

lemma later_finished:
  assumes "later env h h'" "reachable env h" "orderly env" "last_status k h = Some st" "terminal (st_phase st)"
  shows "last_status k h' = Some st"
  using assms(1)
proof induction
  case (reconciled_later g req y h')
  obtain cs where cs: "h' = g @ cs" "session env req cs" "served env g cs"
    using reconcile_calls [OF reconciled_later.hyps(2)] by blast
  have r: "reachable env g" by (rule later_reachable [OF reconciled_later.hyps(1) assms(2)])
  from session_last [OF cs(2,3) orderlyD(1) [OF assms(3)], of k]
    finished_unwritten [OF assms(3) r reconciled_later.IH assms(5)] reconciled_later.IH
  show ?case by (auto simp: cs(1))
qed (rule assms(4))

text \<open>
  C12: a finished task stays as it is. Once the operator has written a status of Completed, Failed or Evicted to a
  task, that status (phase, reason, times and pod name) is the task's status in every later state, whatever
  is reconciled in between, as long as reads of tasks are current, tasks start without a phase, created pods have names,
  no pod is reported in phase Unknown (or another undocumented one), and what was seen of a pod that is finished or gone
  holds from then on (\<open>orderly\<close>). A pod that is Unknown for a while does bring a failed task back
  (\<open>unknown_pod_revives\<close>), and so does one that is missing for a while (\<open>lost_pod_revives\<close>).
\<close>

theorem finished_is_final:
  assumes "reachable env h" "later env h h'" "orderly env" "last_status k h = Some st" "terminal (st_phase st)"
  shows "last_status k h' = Some st"
  by (rule later_finished [OF assms(2,1,3-5)])

end
