(* ===== verification/ControllerObjects.thy ===== *)
theory ControllerObjects
  imports ControllerRuns
begin

text \<open>
  The objects a pod needs. A reconciliation takes the network policy and the ConfigMap it finds under their names
  as they are; that the policy isolates the pod and the ConfigMap holds the task is a property of the
  whole history, in which the operator is the only one to make objects of these names.
\<close>

section \<open>What the objects are to be\<close>

text \<open>The policy selects the pods of the task, is about egress, and allows none.\<close>

definition isolates :: "agent_task \<Rightarrow> network_policy \<Rightarrow> bool" where
  "isolates task np \<longleftrightarrow> np_selector np = [(lit ''agenttask'', task_name task)] \<and> np_types np = [lit ''Egress''] \<and> np_egress np = []"

definition policy_in_place :: "agent_task \<Rightarrow> call list \<Rightarrow> bool" where
  "policy_in_place task cs \<longleftrightarrow> (\<exists>np. isolates task np \<and> (GetNetworkPolicy (np_key task) (Inr np) \<in> set cs \<or>
     (\<exists>a. CreateNetworkPolicy np (Inr a) \<in> set cs \<and> key_of (np_meta np) = np_key task)))"

text \<open>The ConfigMap holds, as \<^verbatim>\<open>task.yaml\<close>, a document with the SHA-256 digest of the marshalled spec.\<close>

definition holds_spec :: "kube_env \<Rightarrow> agent_task \<Rightarrow> config_map \<Rightarrow> bool" where
  "holds_spec env task cm \<longleftrightarrow> (\<exists>b b'. yaml_marshal env (task_spec task) = Inr b \<and> cm_data cm = [(lit ''task.yaml'', b')] \<and>
     hexdigest b' = hexdigest b)"

definition config_in_place :: "kube_env \<Rightarrow> agent_task \<Rightarrow> call list \<Rightarrow> bool" where
  "config_in_place env task cs \<longleftrightarrow> (\<exists>cm. holds_spec env task cm \<and> (GetConfigMap (cm_key env task) (Inr cm) \<in> set cs \<or>
     (\<exists>a. CreateConfigMap cm (Inr a) \<in> set cs \<and> key_of (cm_meta cm) = cm_key env task)))"

text \<open>
  What is relied on: a policy or ConfigMap that the API server answers with is one that the operator asked it to create
  under that name, and its content is still what was asked for: nobody else makes or edits objects of these names.
\<close>

definition own_objects :: "kube_env \<Rightarrow> bool" where
  "own_objects env \<longleftrightarrow>
     (\<forall>h k np. k_network_policy env h k = Inr np \<longrightarrow> (\<exists>x a. CreateNetworkPolicy x (Inr a) \<in> set h \<and> key_of (np_meta x) = k \<and>
        np_selector np = np_selector x \<and> np_types np = np_types x \<and> np_egress np = np_egress x)) \<and>
     (\<forall>h k cm. k_config_map env h k = Inr cm \<longrightarrow> (\<exists>x a. CreateConfigMap x (Inr a) \<in> set h \<and> key_of (cm_meta x) = k \<and>
        cm_data cm = cm_data x))"

section \<open>What the operator creates\<close>

fun built :: "kube_env \<Rightarrow> call \<Rightarrow> bool" where
  "built env (CreateNetworkPolicy x _) = (\<exists>task. key_of (np_meta x) = np_key task \<and> isolates task x)"
| "built env (CreateConfigMap x _) = (\<exists>task b. key_of (cm_meta x) = cm_key env task \<and>
     yaml_marshal env (task_spec task) = Inr b \<and> cm_data x = [(lit ''task.yaml'', b)])"
| "built env _ = True"

lemma helpers_built:
  assumes "owner_only env"
  shows "cm_calls env task cs ok \<Longrightarrow> list_all (built env) cs" "np_calls env task ds ok \<Longrightarrow> list_all (built env) ds"
proof -
  assume "cm_calls env task cs ok"
  then show "list_all (built env) cs"
  proof cases
    case (cm_created cm m a)
    then have "key_of m = cm_key env task"
      using owner_onlyD(1,2) [OF assms, of task "cm_meta cm" m]
      by (auto simp: build_config_map_def new_meta_def key_of_def split: sum.splits)
    moreover have "\<exists>b. yaml_marshal env (task_spec task) = Inr b \<and> cm_data cm = [(lit ''task.yaml'', b)]"
      using cm_created(3) by (auto simp: build_config_map_def split: sum.splits)
    ultimately show ?thesis using cm_created(1) by auto
  qed simp_all
next
  assume "np_calls env task ds ok"
  then show "list_all (built env) ds"
  proof cases
    case (np_created m a)
    then have "key_of m = np_key task"
      using owner_onlyD(1,2) [OF assms, of task "np_meta (task_policy task)" m]
      by (auto simp: build_network_policy_def new_meta_def key_of_def)
    moreover have "isolates task ((task_policy task)\<lparr>np_meta := m\<rparr>)" by (simp add: isolates_def build_network_policy_def)
    ultimately show ?thesis using np_created(1) by auto
  qed simp_all
qed

lemma session_built:
  assumes "owner_only env" "session env req cs"
  shows "list_all (built env) cs"
  using assms(2) by cases (auto dest: helpers_built [OF assms(1)])

lemma reachable_built:
  assumes "owner_only env" "reachable env h"
  shows "list_all (built env) h"
  using assms(2)
proof induction
  case (reconciled h req y h')
  then show ?case using reconcile_session [OF reconciled.hyps(2)] session_built [OF assms(1)] by fastforce
qed simp

section \<open>What is found under a name\<close>

lemma served_at:
  "served env h cs \<Longrightarrow> c \<in> set cs \<Longrightarrow> \<exists>g. set g \<subseteq> set cs \<and> answered env (h @ g) c"
proof (induction cs arbitrary: h)
  case (Cons x cs)
  show ?case
  proof (cases "c = x")
    case True
    with Cons.prems show ?thesis by (intro exI [of _ "[]"]) simp
  next
    case False
    with Cons obtain g where "set g \<subseteq> set cs" "answered env ((h @ [x]) @ g) c" by fastforce
    then show ?thesis by (intro exI [of _ "x # g"]) auto
  qed
qed simp

lemma np_key_name: "np_key task' = np_key task \<Longrightarrow> task_name task' = task_name task"
  by simp

lemma cm_key_spec:
  assumes "cm_key env task' = cm_key env task" "yaml_marshal env (task_spec task') = Inr b'" "yaml_marshal env (task_spec task) = Inr b"
  shows "hexdigest b' = hexdigest b"
proof -
  have "(task_name task' @ hexdigest b') @ lit ''-config'' = (task_name task @ hexdigest b) @ lit ''-config''"
    using assms by (simp add: build_config_map_name_def calculate_spec_hash_def)
  then have "task_name task' @ hexdigest b' = task_name task @ hexdigest b" by simp
  then show ?thesis by (simp add: append_eq_append_conv length_hexdigest)
qed

lemma found_policy_isolates:
  assumes "owner_only env" "own_objects env" "reachable env (h @ cs)" "served env h cs"
    "GetNetworkPolicy (np_key task) (Inr np) \<in> set cs"
  shows "isolates task np"
proof -
  obtain g where g: "set g \<subseteq> set cs" "k_network_policy env (h @ g) (np_key task) = Inr np"
    using served_at [OF assms(4,5)] by auto
  from assms(2) g(2) obtain x a where x: "CreateNetworkPolicy x (Inr a) \<in> set (h @ g)" "key_of (np_meta x) = np_key task"
    "np_selector np = np_selector x" "np_types np = np_types x" "np_egress np = np_egress x"
    unfolding own_objects_def by blast
  have "CreateNetworkPolicy x (Inr a) \<in> set (h @ cs)" using x(1) g(1) by auto
  with reachable_built [OF assms(1,3)] obtain task' where "key_of (np_meta x) = np_key task'" "isolates task' x"
    unfolding list_all_iff by fastforce
  moreover from this x(2) have "task_name task' = task_name task" by (intro np_key_name) simp
  ultimately show ?thesis using x(3-5) by (simp add: isolates_def)
qed

lemma found_config_holds:
  assumes "owner_only env" "own_objects env" "reachable env (h @ cs)" "served env h cs"
    "GetConfigMap (cm_key env task) (Inr cm) \<in> set cs" "yaml_marshal env (task_spec task) = Inr b"
  shows "holds_spec env task cm"
proof -
  obtain g where g: "set g \<subseteq> set cs" "k_config_map env (h @ g) (cm_key env task) = Inr cm"
    using served_at [OF assms(4,5)] by auto
  from assms(2) g(2) obtain x a where x: "CreateConfigMap x (Inr a) \<in> set (h @ g)" "key_of (cm_meta x) = cm_key env task"
    "cm_data cm = cm_data x"
    unfolding own_objects_def by blast
  have "CreateConfigMap x (Inr a) \<in> set (h @ cs)" using x(1) g(1) by auto
  with reachable_built [OF assms(1,3)] obtain task' b' where "key_of (cm_meta x) = cm_key env task'"
    "yaml_marshal env (task_spec task') = Inr b'" "cm_data x = [(lit ''task.yaml'', b')]"
    unfolding list_all_iff by fastforce
  with cm_key_spec [OF _ _ assms(6), of task' b'] assms(6) x(2,3) show ?thesis by (auto simp: holds_spec_def)
qed

section \<open>The network policy and the ConfigMap come first\<close>

text \<open>
  C8: no pod without its network policy and its task file. When a reconciliation, at any point of the
  operator's history, asks the API server for a pod, the task it has read is pending and has no pod; a policy that
  selects the pod and allows no egress was found or created before in the same reconciliation, and so was, under the
  name the pod mounts, a ConfigMap with the task's spec (by its digest), unless the spec cannot be
  marshalled: then the pod is asked for without a ConfigMap. This relies on \<open>own_objects\<close>: the
  operator does not look at what it finds under these names, so that nobody else may make or edit them.
\<close>

theorem pod_behind_policy:
  assumes "owner_only env" "own_objects env" "reachable env h" "reconcile env req h = (y, h @ pre @ CreatePod p a # post)"
  shows "\<exists>task. hd pre = GetTask req (Inr task) \<and> launchable (task_status task) \<and> policy_in_place task pre \<and>
    (config_in_place env task pre \<or> (\<exists>e. yaml_marshal env (task_spec task) = Inl e)) \<and>
    om_namespace (pod_meta p) = task_namespace task \<and> om_labels (pod_meta p) = [(lit ''agenttask'', task_name task)] \<and>
    pod_runtime_class p = Some (lit ''gvisor'') \<and> map_option cp_name (config_map_of_pod p (lit ''task'') (lit ''task.yaml'')
      (lit ''task.yaml'')) = Some (build_config_map_name env task)"
proof -
  let ?cs = "pre @ CreatePod p a # post"
  have r: "reachable env (h @ ?cs)" by (rule reconciled [OF assms(3,4)])
  have sv: "served env h ?cs" using reconcile_calls [OF assms(4)] by auto
  obtain task where t: "hd pre = GetTask req (Inr task)" "launchable (task_status task)" "policy_asked task pre"
    "config_asked env task pre" and pod: "om_namespace (pod_meta p) = task_namespace task"
    "om_labels (pod_meta p) = [(lit ''agenttask'', task_name task)]"
    "pod_runtime_class p = Some (lit ''gvisor'')" "map_option cp_name (config_map_of_pod p (lit ''task'') (lit ''task.yaml'')
      (lit ''task.yaml'')) = Some (build_config_map_name env task)"
    using pod_requests [OF assms(1,4)] by blast
  have "policy_in_place task pre"
    using t(3) found_policy_isolates [OF assms(1,2) r sv] unfolding policy_asked_def policy_in_place_def key_of_def
    by (fastforce simp: isolates_def)
  moreover have "config_in_place env task pre" if "yaml_marshal env (task_spec task) = Inr b" for b
    using t(4) that found_config_holds [OF assms(1,2) r sv _ that]
    unfolding config_asked_def config_in_place_def key_of_def
    by (fastforce simp: holds_spec_def)
  ultimately show ?thesis using t(1,2) pod by (cases "yaml_marshal env (task_spec task)") blast+
qed

section \<open>A spec that cannot be marshalled\<close>

text \<open>
  The helper for the ConfigMap reports success without having made one, and the pod that is created next mounts a
  ConfigMap whose name is empty.
\<close>

lemma unmarshalled_passes:
  assumes "yaml_marshal env (task_spec task) = Inl e" "st_pod_name (task_status task) = []"
    "k_config_map env h (task_namespace task, []) = Inl NotFound"
  shows "ensure_config_map env task h = (Inr (), h @ [GetConfigMap (task_namespace task, []) (Inl NotFound)])"
    "map_option cp_name (config_map_of_pod (build_pod env task) (lit ''task'') (lit ''task.yaml'') (lit ''task.yaml'')) = Some []"
  using assms
  by (simp_all add: ensure_config_map_def go_run build_config_map_def config_map_of_built_pod [OF refl]
      build_config_map_name_def del: lit_Cons)

end
