(* ===== verification/ControllerSamples.thy ===== *)
theory ControllerSamples
  imports ControllerLife ControllerObjects
begin

text \<open>
  A concrete API server for the witnesses: it keeps one task, whose status is the last one written, gives every new
  pod the same name, reports it in a phase or as not found depending on the time, and can refuse one status update as
  a conflict.
\<close>

definition demo_key :: key where "demo_key = (lit ''default'', lit ''demo'')"

definition empty_status :: agent_task_status where
  "empty_status = \<lparr>st_phase = NoPhase, st_current_step = 0, st_started_at = None, st_finished_at = None,
     st_trace_url = [], st_pod_name = [], st_reason = [], st_conditions = []\<rparr>"

definition demo_task :: "agent_task_status \<Rightarrow> agent_task" where
  "demo_task st = \<lparr>task_meta = new_meta (lit ''demo'') (lit ''default''), task_spec = sample_go (Some []) (lit ''Manual''),
     task_status = st\<rparr>"

definition demo_builder :: build_env where
  "demo_builder = \<lparr>yaml_marshal = (\<lambda>_. Inr (lit ''prompt: hi'')), go_getenv = (\<lambda>_. [])\<rparr>"

definition demo_pod :: "pod \<Rightarrow> pod" where
  "demo_pod p = p\<lparr>pod_meta := (pod_meta p)\<lparr>om_name := lit ''demo-pod-x''\<rparr>, pod_status_phase := PodRunning\<rparr>"

type_synonym demo = "nat option \<times> (nat \<Rightarrow> pod_phase option)"

abbreviation calm :: demo where "calm \<equiv> (None, \<lambda>_. Some PodRunning)"

abbreviation conflicting :: demo where "conflicting \<equiv> (Some 8, \<lambda>_. Some PodRunning)"

definition demo_running :: pod where
  "demo_running = demo_pod (build_pod demo_builder (demo_task empty_status))"

definition demo_seen :: "pod_phase option \<Rightarrow> go_error + pod" where
  "demo_seen ph = (case ph of None \<Rightarrow> Inl NotFound
     | Some x \<Rightarrow> Inr (demo_running\<lparr>pod_status_phase := x\<rparr>))"

lemma demo_seen_simps:
  "demo_seen None = Inl NotFound" "demo_seen (Some x) = Inr (demo_running\<lparr>pod_status_phase := x\<rparr>)"
  "demo_running\<lparr>pod_status_phase := PodRunning\<rparr> = demo_running" "pod_status_phase demo_running = PodRunning"
  by (simp_all add: demo_seen_def demo_running_def demo_pod_def)

definition demo_env :: "demo \<Rightarrow> kube_env" where
  "demo_env n = build_env.extend demo_builder (kube_env.fields
     (\<lambda>h k. if k = demo_key then Inr (demo_task (case last_status k h of None \<Rightarrow> empty_status | Some st \<Rightarrow> st))
            else Inl NotFound)
     (\<lambda>_ _. Inl NotFound) (\<lambda>_ _. Inl NotFound)
     (\<lambda>h _. demo_seen (snd n (length h)))
     (\<lambda>_ cm. Inr cm) (\<lambda>_ np. Inr np) (\<lambda>_ p. Inr (demo_pod p))
     (\<lambda>h t. if fst n = Some (length h) then Inl (GoError (lit ''conflict'')) else Inr t)
     (\<lambda>_ m. Inr m) (\<lambda>h. int (length h)))"

lemma demo_env_simps:
  "k_task (demo_env n) h k = (if k = demo_key
     then Inr (demo_task (case last_status k h of None \<Rightarrow> empty_status | Some st \<Rightarrow> st)) else Inl NotFound)"
  "k_config_map (demo_env n) h k = Inl NotFound" "k_network_policy (demo_env n) h k = Inl NotFound"
  "k_pod (demo_env n) h k = demo_seen (snd n (length h))"
  "k_create_config_map (demo_env n) h cm = Inr cm" "k_create_network_policy (demo_env n) h np = Inr np"
  "k_create_pod (demo_env n) h p = Inr (demo_pod p)"
  "k_update_status (demo_env n) h t = (if fst n = Some (length h) then Inl (GoError (lit ''conflict'')) else Inr t)"
  "k_set_owner (demo_env n) task m = Inr m" "k_now (demo_env n) h = int (length h)"
  "yaml_marshal (demo_env n) g = Inr (lit ''prompt: hi'')"
  by (simp_all add: demo_env_def demo_builder_def build_env.defs kube_env.defs del: lit_Cons)

lemma last_status_written:
  "last_status k h = Some st \<Longrightarrow> \<exists>t a. UpdateStatus t (Inr a) \<in> set h \<and> task_status t = st"
proof (induction h rule: rev_induct)
  case (snoc c h)
  have "note_status k old c = Some st \<Longrightarrow> old = Some st \<or> (\<exists>t a. c = UpdateStatus t (Inr a) \<and> task_status t = st)" for old
    by (erule note_status.elims) (auto split: if_splits)
  with snoc show ?case unfolding last_status_def by fastforce
qed (simp add: last_status_def)

lemma demo_laws:
  "owner_only (demo_env n)" "names_pods (demo_env n)" "owns_status (demo_env n)" "reads_current (demo_env n)"
proof -
  show "owner_only (demo_env n)" 
    unfolding owner_only_def demo_env_simps
    by (metis Inr_inject object_meta.surjective object_meta.update_convs(7))
  show "names_pods (demo_env n)" by (simp add: names_pods_def demo_env_simps demo_pod_def) (simp add: lit_def)
  show "owns_status (demo_env n)"
    unfolding owns_status_def demo_env_simps
    by (auto simp: demo_task_def empty_status_def split: if_splits option.splits dest: last_status_written)
  show "reads_current (demo_env n)"
    unfolding reads_current_def demo_env_simps
    by (auto simp: demo_task_def demo_key_def key_of_def new_meta_def split: if_splits simp del: lit_Cons)
qed

section \<open>Three reconciliations\<close>

definition demo_pending :: agent_task_status where
  "demo_pending = empty_status\<lparr>st_phase := Pending, st_pod_name := []\<rparr>"

definition demo_launch :: "demo \<Rightarrow> call list" where
  "demo_launch n =
     (let env = demo_env n; task = demo_task demo_pending; np = task_policy task; cm = the (build_config_map env task) in
      [GetTask demo_key (Inr task), GetConfigMap (cm_key env task) (Inl NotFound), CreateConfigMap cm (Inr cm),
       GetNetworkPolicy (np_key task) (Inl NotFound), CreateNetworkPolicy np (Inr np)])"

definition demo_started :: agent_task where
  "demo_started = demo_task (demo_pending\<lparr>st_pod_name := lit ''demo-pod-x'', st_phase := Provisioning\<rparr>)"

lemma demo_task_fields [simp]:
  "task_meta (demo_task st) = new_meta (lit ''demo'') (lit ''default'')" "task_status (demo_task st) = st"
  "(demo_task st)\<lparr>task_status := st'\<rparr> = demo_task st'"
  by (simp_all add: demo_task_def)

definition demo_created :: "demo \<Rightarrow> call" where
  "demo_created n = (let p = build_pod (demo_env n) (demo_task demo_pending) in CreatePod p (Inr (demo_pod p)))"

definition demo_first_calls :: "call list" where
  "demo_first_calls = [GetTask demo_key (Inr (demo_task empty_status)),
     UpdateStatus (demo_task demo_pending) (Inr (demo_task demo_pending))]"

lemma demo_first: "fst n \<noteq> Some 1 \<Longrightarrow> reconcile (demo_env n) demo_key [] = (Inr (), demo_first_calls)"
  by (simp add: reconcile_def go_run demo_env_simps Let_def last_status_def empty_status_def demo_pending_def new_meta_def
      demo_first_calls_def)

lemma demo_pending_fields [simp]: "st_phase demo_pending = Pending" "st_pod_name demo_pending = []"
  by (simp_all add: demo_pending_def)

lemma demo_helpers:
  "\<exists>cm. build_config_map (demo_env n) (demo_task demo_pending) = Some cm \<and>
     ensure_config_map (demo_env n) (demo_task demo_pending) h = (Inr (),
       h @ [GetConfigMap (cm_key (demo_env n) (demo_task demo_pending)) (Inl NotFound), CreateConfigMap cm (Inr cm)])"
  "ensure_network_policy (demo_env n) (demo_task demo_pending) h = (Inr (),
     h @ [GetNetworkPolicy (np_key (demo_task demo_pending)) (Inl NotFound),
          CreateNetworkPolicy (task_policy (demo_task demo_pending)) (Inr (task_policy (demo_task demo_pending)))])"
  by (simp_all add: ensure_config_map_def ensure_network_policy_def go_run demo_env_simps build_config_map_def Let_def
      build_network_policy_def new_meta_def del: lit_Cons)

lemma demo_second:
  assumes "last_status demo_key h = Some demo_pending"
  shows "\<exists>y. reconcile (demo_env n) demo_key h = (y, h @ demo_launch n @ [demo_created n,
    UpdateStatus demo_started (if fst n = Some (length h + 6) then Inl (GoError (lit ''conflict'')) else Inr demo_started)])"
proof -
  let ?t = "demo_task demo_pending" and ?env = "demo_env n"
  let ?h = "h @ [GetTask demo_key (Inr ?t)]"
  have r: "reconcile ?env demo_key h = start_pod ?env ?t ?h"
    using assms by (simp add: reconcile_def go_run demo_env_simps Let_def new_meta_def)
  obtain cm where cm: "build_config_map ?env ?t = Some cm" "ensure_config_map ?env ?t ?h =
      (Inr (), ?h @ [GetConfigMap (cm_key ?env ?t) (Inl NotFound), CreateConfigMap cm (Inr cm)])"
    using demo_helpers(1) [of n ?h] by (elim exE conjE) (rule that)
  have n: "om_name (pod_meta (demo_pod p)) = lit ''demo-pod-x''" for p by (simp add: demo_pod_def)
  have "start_pod ?env ?t ?h = (bindE (of_sum (k_set_owner ?env ?t (pod_meta (build_pod ?env ?t)))) (\<lambda>m.
     bindE (create_pod ?env ((build_pod ?env ?t)\<lparr>pod_meta := m\<rparr>)) (\<lambda>created.
     update_status ?env ?t (demo_pending\<lparr>st_pod_name := om_name (pod_meta created), st_phase := Provisioning\<rparr>))))
     (h @ demo_launch n)"
    unfolding start_pod_def thenE_def Let_def
    by (simp only: bindE_returned [of "ensure_config_map ?env ?t", OF cm(2)]
        bindE_returned [of "ensure_network_policy ?env ?t", OF demo_helpers(2)] demo_launch_def Let_def cm(1)
        option.sel append.assoc append.simps demo_task_fields)
  moreover have "length (demo_launch n) = 5" by (simp add: demo_launch_def Let_def)
  ultimately show ?thesis unfolding r
    by (simp add: go_run demo_env_simps n demo_started_def demo_created_def Let_def split: if_splits)
qed

lemma demo_meta: "key_of (new_meta (lit ''demo'') (lit ''default'')) = demo_key"
  by (simp add: key_of_def demo_key_def new_meta_def del: lit_Cons)

lemma demo_counts:
  "filter (pod_for demo_key) demo_first_calls = []" "filter (pod_for demo_key) (demo_launch n) = []"
  "pod_for demo_key (demo_created n)"
  by (simp_all add: demo_first_calls_def demo_launch_def demo_created_def demo_key_def build_pod_def new_meta_def Let_def
      del: lit_Cons)

lemma demo_notes:
  "foldl (note_status demo_key) st demo_first_calls = Some demo_pending"
  "foldl (note_status demo_key) st (demo_launch n) = st" "note_status demo_key st (demo_created n) = st"
  by (simp_all add: demo_first_calls_def demo_launch_def demo_created_def Let_def demo_meta)

lemma demo_first_last: "last_status demo_key demo_first_calls = Some demo_pending"
  by (simp add: last_status_def demo_notes)

lemma demo_reachable:
  assumes "fst n \<noteq> Some 1"
  shows "reachable (demo_env n) demo_first_calls" "reachable (demo_env n) (demo_first_calls @ demo_launch n @ [demo_created n,
    UpdateStatus demo_started (if fst n = Some 8 then Inl (GoError (lit ''conflict'')) else Inr demo_started)])"
proof -
  show first: "reachable (demo_env n) demo_first_calls" by (rule reconciled [OF started demo_first [OF assms]])
  have "length demo_first_calls = 2" by (simp add: demo_first_calls_def)
  with demo_second [OF demo_first_last, of n] obtain y where
    "reconcile (demo_env n) demo_key demo_first_calls = (y, demo_first_calls @ demo_launch n @ [demo_created n,
      UpdateStatus demo_started (if fst n = Some 8 then Inl (GoError (lit ''conflict'')) else Inr demo_started)])" by auto
  from reconciled [OF first this] show "reachable (demo_env n) (demo_first_calls @ demo_launch n @ [demo_created n,
    UpdateStatus demo_started (if fst n = Some 8 then Inl (GoError (lit ''conflict'')) else Inr demo_started)])" .
qed

text \<open>The reconciliations after that follow the pod.\<close>

lemma demo_mounts:
  assumes "pod_volumes p = pod_volumes demo_running"
  shows "config_map_of_pod p (lit ''task'') (lit ''task.yaml'') (lit ''task.yaml'') \<noteq> None"
proof -
  have "pod_volumes p = pod_volumes (build_pod demo_builder (demo_task empty_status))"
    using assms by (simp add: demo_running_def demo_pod_def)
  from config_map_of_built_pod [OF this] show ?thesis by simp
qed

lemma demo_follow:
  assumes h: "last_status demo_key h = Some st" "st_phase st \<noteq> NoPhase" "st_pod_name st = lit ''demo-pod-x''"
    and n: "fst n = None" "snd n (length h + 1) = x"
    and st': "case x of None \<Rightarrow> \<not> terminal (st_phase st) \<and> st' = st\<lparr>st_phase := Failed, st_reason := lit ''Pod not found'',
        st_finished_at := Some (int (length h + 2))\<rparr>
      | Some ph \<Rightarrow> sync_status (int (length h + 2)) (demo_running\<lparr>pod_status_phase := ph\<rparr>) st = (st', True)"
  shows "reconcile (demo_env n) demo_key h = (Inr (), h @ [GetTask demo_key (Inr (demo_task st)),
    GetPod (lit ''default'', lit ''demo-pod-x'') (demo_seen x), UpdateStatus (demo_task st') (Inr (demo_task st'))])"
proof -
  let ?h = "h @ [GetTask demo_key (Inr (demo_task st))]"
  have ne: "st_pod_name st \<noteq> []" unfolding h(3) by (simp add: lit_def)
  have "reconcile (demo_env n) demo_key h = follow_pod (demo_env n) (demo_task st) ?h"
    using h(1,2) ne by (simp add: reconcile_def go_run demo_env_simps Let_def new_meta_def)
  also have "\<dots> = (Inr (), ?h @ [GetPod (lit ''default'', lit ''demo-pod-x'') (demo_seen x),
      UpdateStatus (demo_task st') (Inr (demo_task st'))])"
    using n st' h(3) demo_mounts [of "demo_running\<lparr>pod_status_phase := the x\<rparr>"]
    by (cases x) (simp_all add: follow_pod_def fail_with_def go_run demo_env_simps demo_seen_simps new_meta_def add.commute
        del: lit_Cons)
  finally show ?thesis by simp
qed

lemma demo_follow_last:
  "last_status demo_key (h @ [GetTask k a, GetPod l b, UpdateStatus (demo_task st) (Inr c)]) = Some st"
  by (simp add: last_status_def demo_meta)

definition demo_launched :: "demo \<Rightarrow> history" where
  "demo_launched n = demo_first_calls @ demo_launch n @ [demo_created n, UpdateStatus demo_started (Inr demo_started)]"

lemma demo_launched:
  assumes "fst n = None"
  shows "reachable (demo_env n) (demo_launched n)" "last_status demo_key (demo_launched n) = Some (task_status demo_started)"
    "length (demo_launched n) = 9"
  using demo_reachable(2) [of n] assms
  by (simp_all add: demo_launched_def last_status_def demo_notes demo_started_def demo_meta demo_first_calls_def
      demo_launch_def Let_def)

section \<open>Witnesses\<close>

text \<open>A server that keeps the objects it is asked to create.\<close>

fun made_policy :: "key \<Rightarrow> call \<Rightarrow> network_policy option" where
  "made_policy k (CreateNetworkPolicy x (Inr _)) = (if key_of (np_meta x) = k then Some x else None)"
| "made_policy k _ = None"

fun made_config :: "key \<Rightarrow> call \<Rightarrow> config_map option" where
  "made_config k (CreateConfigMap x (Inr _)) = (if key_of (cm_meta x) = k then Some x else None)"
| "made_config k _ = None"

definition kept :: "(call \<Rightarrow> 'a option) \<Rightarrow> history \<Rightarrow> go_error + 'a" where
  "kept f h = (case List.map_filter f h of [] \<Rightarrow> Inl NotFound | xs \<Rightarrow> Inr (last xs))"

definition keeping_env :: kube_env where
  "keeping_env = (demo_env calm)\<lparr>k_network_policy := (\<lambda>h k. kept (made_policy k) h),
     k_config_map := (\<lambda>h k. kept (made_config k) h)\<rparr>"

lemma kept_made: "kept f h = Inr x \<Longrightarrow> \<exists>c \<in> set h. f c = Some x"
proof -
  assume "kept f h = Inr x"
  then have "List.map_filter f h \<noteq> []" "x = last (List.map_filter f h)" by (auto simp: kept_def split: list.splits)
  then have "x \<in> set (List.map_filter f h)" by simp
  then show ?thesis by (auto simp: List.map_filter_def)
qed

lemma kept_refusal: "kept f h = Inl e \<Longrightarrow> e = NotFound"
  by (auto simp: kept_def split: list.splits)

lemma keeping_own: "own_objects keeping_env"
proof -
  have "\<exists>a. c = CreateNetworkPolicy x (Inr a) \<and> key_of (np_meta x) = k" if "made_policy k c = Some x" for k c x
    using that by (cases "(k, c)" rule: made_policy.cases) (auto split: if_splits)
  moreover have "\<exists>a. c = CreateConfigMap x (Inr a) \<and> key_of (cm_meta x) = k" if "made_config k c = Some x" for k c x
    using that by (cases "(k, c)" rule: made_config.cases) (auto split: if_splits)
  ultimately show ?thesis unfolding own_objects_def keeping_env_def by (fastforce dest!: kept_made)
qed

lemma keeping_first: "reconcile keeping_env demo_key [] = (Inr (), demo_first_calls)"
  by (simp add: keeping_env_def reconcile_def go_run demo_env_simps Let_def last_status_def empty_status_def demo_pending_def
      new_meta_def demo_first_calls_def)

theorem pod_behind_policy_witness:
  "\<exists>h pre p a post y. reachable keeping_env h \<and> reconcile keeping_env demo_key h = (y, h @ pre @ CreatePod p a # post) \<and>
     policy_in_place (demo_task demo_pending) pre \<and> config_in_place keeping_env (demo_task demo_pending) pre"
proof -
  let ?t = "demo_task demo_pending" and ?h = "demo_first_calls @ [GetTask demo_key (Inr (demo_task demo_pending))]"
  have o: "owner_only keeping_env" using demo_laws(1) [of calm] by (simp add: owner_only_def keeping_env_def)
  have g: "grants keeping_env"
    by (auto simp: grants_def accepts_status_def keeping_env_def demo_env_simps dest: kept_refusal)
  have r: "reachable keeping_env demo_first_calls" by (rule reconciled [OF started keeping_first])
  have s: "reconcile keeping_env demo_key demo_first_calls = start_pod keeping_env ?t ?h"
    using demo_first_last by (simp add: keeping_env_def reconcile_def go_run demo_env_simps Let_def new_meta_def)
  have l: "launchable (task_status ?t)" by (simp add: launchable_def)
  from start_granted [OF g l, of ?h] obtain cs m p a where
    e: "reconcile keeping_env demo_key demo_first_calls = (Inr (), demo_first_calls @ (GetTask demo_key (Inr ?t) # cs) @
      CreatePod ((build_pod keeping_env ?t)\<lparr>pod_meta := m\<rparr>) (Inr p) # [UpdateStatus (?t\<lparr>task_status := (task_status ?t)
        \<lparr>st_pod_name := om_name (pod_meta p), st_phase := Provisioning\<rparr>\<rparr>) (Inr a)])"
    unfolding s by auto
  have y: "yaml_marshal keeping_env x \<noteq> Inl e" for x e by (simp add: keeping_env_def demo_env_simps)
  from pod_behind_policy [OF o keeping_own r e] obtain task where
    "GetTask demo_key (Inr ?t) = GetTask demo_key (Inr task)" "policy_in_place task (GetTask demo_key (Inr ?t) # cs)"
    "config_in_place keeping_env task (GetTask demo_key (Inr ?t) # cs)"
    using y by (auto simp del: call.inject)
  then have "policy_in_place ?t (GetTask demo_key (Inr ?t) # cs)" "config_in_place keeping_env ?t (GetTask demo_key (Inr ?t) # cs)"
    by simp_all
  with r e show ?thesis by blast
qed

theorem statuses_well_formed_witness:
  "status_shape (task_status demo_started) \<and> status_ok (task_status demo_started) \<and> st_phase (task_status demo_started) = Provisioning"
proof -
  let ?h = "demo_first_calls @ demo_launch calm @ [demo_created calm, UpdateStatus demo_started (Inr demo_started)]"
  have r: "reachable (demo_env calm) ?h" using demo_reachable(2) [of calm] by simp
  have "UpdateStatus demo_started (Inr demo_started) \<in> set ?h" by simp
  from statuses_well_formed [OF r demo_laws(2) this] demo_laws(3) show ?thesis by (simp add: demo_started_def)
qed

theorem at_most_one_pod_witness:
  "\<exists>h. reachable (demo_env calm) h \<and> pods_created demo_key h = 1 \<and> pods_created demo_key h \<le> 1"
proof -
  let ?h = "demo_first_calls @ demo_launch calm @ [demo_created calm, UpdateStatus demo_started (Inr demo_started)]"
  have r: "reachable (demo_env calm) ?h" using demo_reachable(2) [of calm] by simp
  have "accepts_status (demo_env calm)" by (simp add: accepts_status_def demo_env_simps)
  from at_most_one_pod [OF r demo_laws(4,2,1) this, of demo_key]
  show ?thesis by (intro exI [of _ ?h]) (use r in \<open>simp add: pods_created_def demo_counts\<close>)
qed

theorem task_gets_pod_witness:
  "\<exists>h st. reachable (demo_env calm) h \<and> pods_created demo_key h = 1 \<and> last_status demo_key h = Some st \<and>
     st_phase st = Provisioning \<and> st_pod_name st = lit ''demo-pod-x''"
proof -
  have g: "grants (demo_env calm)" by (simp add: grants_def accepts_status_def demo_env_simps)
  have t: "k_task (demo_env calm) [] demo_key = Inr (demo_task empty_status)"
    by (simp add: demo_env_simps last_status_def)
  have "\<exists>t. k_task (demo_env calm) h demo_key = Inr t \<and> om_deleted (task_meta t) = None" for h
    by (simp add: demo_env_simps new_meta_def)
  from task_gets_pod [OF g demo_laws(4,1) t _ this] obtain h1 h2 g' p q st where
    r: "reconcile (demo_env calm) demo_key [] = (Inr (), h1)" "reconcile (demo_env calm) demo_key h1 = (Inr (), h2)"
    and c: "pods_created demo_key h2 = pods_created demo_key [] + 1" and q: "k_create_pod (demo_env calm) g' p = Inr q"
    and st: "last_status demo_key h2 = Some st" "st_phase st = Provisioning" "st_pod_name st = om_name (pod_meta q)"
    by (auto simp: empty_status_def)
  have "om_name (pod_meta q) = lit ''demo-pod-x''" using q by (auto simp: demo_env_simps demo_pod_def simp del: lit_Cons)
  moreover have "reachable (demo_env calm) h2" by (rule reconciled [OF reconciled [OF started r(1)] r(2)])
  ultimately show ?thesis using c st by (auto simp: pods_created_def simp del: lit_Cons)
qed

definition demo_synced :: agent_task where
  "demo_synced = demo_task (fst (sync_status 5 demo_running (task_status demo_started)))"

theorem reconcile_idempotent_witness:
  "let h = [UpdateStatus demo_synced (Inr demo_synced)] in
   reconcile (demo_env calm) demo_key h = (Inr (), h @ [GetTask demo_key (Inr demo_synced),
     GetPod (lit ''default'', lit ''demo-pod-x'') (Inr demo_running)])"
proof -
  let ?h = "[UpdateStatus demo_synced (Inr demo_synced)]"
  have st: "task_status demo_synced = fst (sync_status 5 demo_running (task_status demo_started))"
    and m: "task_meta demo_synced = new_meta (lit ''demo'') (lit ''default'')"
    by (simp_all add: demo_synced_def)
  have t: "k_task (demo_env calm) ?h demo_key = Inr demo_synced"
    by (simp add: demo_env_simps last_status_def demo_synced_def demo_meta)
  have p: "st_pod_name (task_status demo_synced) = lit ''demo-pod-x''"
    by (simp add: st sync_status_def demo_running_def demo_pod_def demo_started_def)
  have ne: "st_pod_name (task_status demo_synced) \<noteq> []" unfolding p by (simp add: lit_def)
  from reconcile_idempotent [OF t _ ne _ _ demo_mounts st] show ?thesis
    unfolding Let_def m p by (simp add: demo_env_simps demo_seen_simps new_meta_def del: lit_Cons)
qed

abbreviation finishing :: demo where "finishing \<equiv> (None, \<lambda>_. Some PodSucceeded)"

lemma finishing_orderly: "orderly (demo_env finishing)"
proof -
  have "starts_new (demo_env n)" for n by (auto simp: starts_new_def demo_env_simps empty_status_def split: if_splits)
  moreover have "pods_known (demo_env finishing)" by (auto simp: pods_known_def demo_env_simps demo_seen_simps)
  moreover have "pods_final (demo_env finishing)"
    unfolding pods_final_def
  proof (intro allI impI, elim conjE)
    fix h k r assume "served (demo_env finishing) [] h" "GetPod k r \<in> set h" "final r"
    then have "r = demo_seen (Some PodSucceeded)" using served_in [of "demo_env finishing" "[]" h "GetPod k r"]
      by (auto simp: demo_env_simps)
    then show "upholds r (k_pod (demo_env finishing) h k)" by (simp add: demo_env_simps demo_seen_simps)
  qed
  ultimately show ?thesis using demo_laws by (simp add: orderly_def)
qed

theorem finished_is_final_witness:
  "\<exists>h st. reachable (demo_env finishing) h \<and> last_status demo_key h = Some st \<and> st_phase st = Completed \<and>
     last_status demo_key (snd (reconcile (demo_env finishing) demo_key h)) = Some st"
proof -
  let ?e = "demo_env finishing" and ?old = "task_status demo_started"
  let ?st = "fst (sync_status 11 (demo_running\<lparr>pod_status_phase := PodSucceeded\<rparr>) ?old)"
  have st: "st_phase ?old = Provisioning" "st_pod_name ?old = lit ''demo-pod-x''" by (simp_all add: demo_started_def)
  have s: "sync_status 11 (demo_running\<lparr>pod_status_phase := PodSucceeded\<rparr>) ?old = (?st, True)" "st_phase ?st = Completed"
    using st(1) by (simp_all add: sync_status_def finish_def)
  obtain h where h: "reconcile ?e demo_key (demo_launched finishing) = (Inr (), h)" "last_status demo_key h = Some ?st"
    using demo_follow [of "demo_launched finishing" ?old finishing "Some PodSucceeded" ?st] demo_launched [of finishing] st s(1)
      demo_follow_last by (simp add: lit_def)
  have r: "reachable ?e h" by (rule reconciled [OF demo_launched(1) h(1)]) simp
  have l: "later ?e h (snd (reconcile ?e demo_key h))" by (rule reconciled_later [OF now prod.collapse [symmetric]])
  from finished_is_final [OF r l finishing_orderly h(2)] s(2) r h(2) show ?thesis by (auto simp: terminal_def)
qed

section \<open>Where the operator is not idempotent\<close>

text \<open>
  A refused status update costs a second pod. There is an API server with current reads that refuses a
  single status update, the one that would have recorded the new pod, and a history of three reconciliations
  in which the task gets two pods: the first one is never looked at again.
\<close>

lemma conflict_makes_second_pod:
  "\<exists>env h. reachable env h \<and> reads_current env \<and> names_pods env \<and> owner_only env \<and> owns_status env \<and>
     {length g | g t. isl (k_update_status env g t)} \<subseteq> {8} \<and> pods_created demo_key h = 2"
proof -
  let ?e = "demo_env conflicting"
  let ?h2 = "demo_first_calls @ demo_launch conflicting @ [demo_created conflicting,
    UpdateStatus demo_started (Inl (GoError (lit ''conflict'')))]"
  have r: "reachable ?e ?h2" using demo_reachable(2) [of conflicting] by simp
  have len: "length ?h2 = 9" by (simp add: demo_first_calls_def demo_launch_def Let_def)
  have "last_status demo_key ?h2 = Some demo_pending" by (simp add: last_status_def demo_notes)
  moreover have "demo_first_calls \<noteq> []" by (simp add: demo_first_calls_def)
  ultimately obtain y where
    "reconcile ?e demo_key ?h2 = (y, ?h2 @ demo_launch conflicting @ [demo_created conflicting,
      UpdateStatus demo_started (Inr demo_started)])" using demo_second [of ?h2 conflicting] len by auto
  from reconciled [OF r this] have
    "reachable ?e (?h2 @ demo_launch conflicting @ [demo_created conflicting, UpdateStatus demo_started (Inr demo_started)])" .
  moreover have "pods_created demo_key (?h2 @ demo_launch conflicting @ [demo_created conflicting,
      UpdateStatus demo_started (Inr demo_started)]) = 2"
    by (simp add: pods_created_def demo_counts)
  moreover have "{length g | g t. isl (k_update_status ?e g t)} \<subseteq> {8}" by (auto simp: demo_env_simps split: if_splits)
  ultimately show ?thesis using demo_laws by blast
qed

text \<open>
  A pod that is missing for a while, as it is right after its creation when pods are read from a cache that lags, takes its
  task through a terminal phase: the third reconciliation writes Failed, the fourth one Running, with the finish
  time and the reason of the failure. Of the hypotheses of \<open>orderly\<close>, only \<open>pods_final\<close> does not hold here.
\<close>

lemma lost_pod_revives:
  "\<exists>env g h st st'. reachable env g \<and> later env g h \<and> reads_current env \<and> starts_new env \<and> names_pods env \<and>
     pods_known env \<and> accepts_status env \<and> last_status demo_key g = Some st \<and> terminal (st_phase st) \<and> last_status demo_key h = Some st' \<and>
     st_phase st' = Running \<and> st_finished_at st' = st_finished_at st \<and> st_reason st' = lit ''Pod not found''"
proof -
  let ?n = "(None, \<lambda>i. if i = 10 then None else Some PodRunning) :: demo"
  let ?e = "demo_env ?n" and ?old = "task_status demo_started"
  let ?st = "?old\<lparr>st_phase := Failed, st_reason := lit ''Pod not found'', st_finished_at := Some 11\<rparr>"
  let ?st' = "fst (sync_status 14 demo_running ?st)"
  have st: "st_phase ?old = Provisioning" "st_pod_name ?old = lit ''demo-pod-x''" by (simp_all add: demo_started_def)
  let ?g = "demo_launched ?n @ [GetTask demo_key (Inr (demo_task ?old)),
    GetPod (lit ''default'', lit ''demo-pod-x'') (demo_seen None), UpdateStatus (demo_task ?st) (Inr (demo_task ?st))]"
  have g: "reconcile ?e demo_key (demo_launched ?n) = (Inr (), ?g)"
    by (rule demo_follow) (simp_all add: demo_launched st terminal_def del: lit_Cons)
  have lg: "last_status demo_key ?g = Some ?st" by (rule demo_follow_last)
  let ?h = "?g @ [GetTask demo_key (Inr (demo_task ?st)), GetPod (lit ''default'', lit ''demo-pod-x'') (demo_seen (Some PodRunning)),
    UpdateStatus (demo_task ?st') (Inr (demo_task ?st'))]"
  have h: "reconcile ?e demo_key ?g = (Inr (), ?h)"
    by (rule demo_follow [OF lg]) (simp_all add: demo_launched(3) st demo_seen_simps sync_status_def del: lit_Cons)
  have lh: "last_status demo_key ?h = Some ?st'" by (rule demo_follow_last)
  have "later ?e ?g ?h" by (rule reconciled_later [OF now h])
  moreover have "reachable ?e ?g" by (rule reconciled [OF demo_launched(1) g]) simp
  moreover have "starts_new ?e" by (auto simp: starts_new_def demo_env_simps empty_status_def split: if_splits)
  moreover have "accepts_status ?e" by (simp add: accepts_status_def demo_env_simps)
  moreover have "pods_known ?e" by (auto simp: pods_known_def demo_env_simps demo_seen_simps split: if_splits)
  moreover have "st_phase ?st' = Running" "st_finished_at ?st' = st_finished_at ?st" "st_reason ?st' = lit ''Pod not found''"
    by (simp_all add: sync_status_def demo_seen_simps del: lit_Cons)
  moreover have "terminal (st_phase ?st)" by (simp add: terminal_def)
  ultimately show ?thesis using lg lh demo_laws(2,4) by blast
qed

text \<open>
  A pod whose phase is Unknown for a while takes its task through a terminal phase: the task is Failed with a
  finish time and, when the pod is seen running again, Running with the finish time and the reason it had.
\<close>

lemma unknown_pod_revives:
  "\<exists>p q st st' st''. pod_status_phase p = PodUnknown \<and> pod_status_phase q = PodRunning \<and>
     sync_status 1 p st = (st', True) \<and> sync_status 2 q st' = (st'', True) \<and> terminal (st_phase st') \<and>
     st_phase st'' = Running \<and> st_finished_at st'' = Some 1 \<and> st_reason st'' = lit ''Pod in unexpected phase''"
proof -
  let ?q = "demo_running" and ?st = "task_status demo_started"
  have q: "st_finished_at ?st = None" "pod_status_phase ?q = PodRunning"
    by (simp_all add: demo_started_def demo_pending_def empty_status_def demo_running_def demo_pod_def)
  show ?thesis
    by (rule exI [of _ "?q\<lparr>pod_status_phase := PodUnknown\<rparr>"], rule exI [of _ ?q], rule exI [of _ ?st])
      (simp add: sync_status_def or_now_def terminal_def q del: lit_Cons)
qed

end
