(* ===== verification/Samples.thy ===== *)
theory Samples
  imports Workspace "HOL-Library.Code_Target_Nat" "HOL-Library.Code_Target_Int"
begin

text \<open>
  A concrete environment, file system and state on which the witnesses evaluate the model. The
  workspace \<^verbatim>\<open>/w\<close> holds a file, a directory, a link to that directory, a link to itself and a link
  to a file outside.
\<close>

definition sample_tree :: "(path \<times> node) list" where
  "sample_tree =
     [([], DirN),
      ([lit ''w''], DirN),
      ([lit ''w'', lit ''f''], FileN (lit ''a'' @ nl # lit ''b'' @ [nl])),
      ([lit ''w'', lit ''d''], DirN),
      ([lit ''w'', lit ''k''], LinkN (lit ''d'')),
      ([lit ''w'', lit ''l''], LinkN (lit ''l'')),
      ([lit ''w'', lit ''s''], LinkN (lit ''/e/x'')),
      ([lit ''e''], DirN),
      ([lit ''e'', lit ''x''], FileN (lit ''old''))]"

definition sample_fs :: fsys where
  "sample_fs = fmap_of_list sample_tree"

definition sample_env :: tool_env where
  "sample_env =
     \<lparr>os_now = (\<lambda>n. \<lparr>dt_year = 2026, dt_month = 5, dt_day = 1, dt_hour = 12, dt_minute = 0,
                     dt_second = 0, dt_microsecond = 0\<rparr>),
      os_mono = (\<lambda>n. int n), os_time = (\<lambda>n. of_nat n),
      fromisoformat = (\<lambda>_. Inl (PyExc ValueError [])),
      model_dump_json = (\<lambda>e. Inr (lit ''{}'')),
      fp_fault = (\<lambda>_ _. None), echo_fault = (\<lambda>_ _. None),
      fs_fault = (\<lambda>_ _ _. None), dir_size = (\<lambda>_ _. 4096),
      write_fault = (\<lambda>_ _ _. None), sh_run = (\<lambda>_ c w n fs. (Inr \<lparr>p_stdout = Some c, p_stderr = None, p_returncode = 0\<rparr>, fs)),
      py_repr = (\<lambda>_. []), str_repr = (\<lambda>s. s), cwd = []\<rparr>"

definition sample_st :: "fsys \<Rightarrow> tool_st" where
  "sample_st fs =
     \<lparr>clk = SystemClock, os_reads = 0, ew_task_id = lit ''t'', ew_step = 0, ew_file = [], ew_buf = [], ew_torn = None,
      ew_closed = False, ew_echo = None, ew_log = [], tfs = fs\<rparr>"

definition sample_ctx :: tool_ctx where
  "sample_ctx = \<lparr>workspace = pure_path (lit ''/w''), timeout_seconds = 60\<rparr>"

section \<open>The sample is a sandbox\<close>

definition wf_tree :: "(path \<times> node) list \<Rightarrow> bool" where
  "wf_tree xs \<longleftrightarrow> map_of xs [] = Some DirN \<and>
     list_all (\<lambda>(q, _). q = [] \<or> map_of xs (butlast q) = Some DirN) xs"

lemma wf_tree_fs: "wf_tree xs \<Longrightarrow> wf_fs (fmap_of_list xs)"
proof -
  assume wf: "wf_tree xs"
  have "map_of xs p = Some DirN" if m: "map_of xs (p @ [n]) \<noteq> None" for p n
  proof -
    from m obtain v where "(p @ [n], v) \<in> set xs" by (auto dest: map_of_SomeD)
    with wf have "p @ [n] = [] \<or> map_of xs (butlast (p @ [n])) = Some DirN"
      unfolding wf_tree_def list_all_iff by blast
    then show ?thesis by simp
  qed
  with wf show ?thesis unfolding wf_fs_def wf_tree_def fmlookup_of_list by blast
qed

lemma sample_sandboxed: "sandboxed sample_env sample_ctx [lit ''w''] sample_fs"
proof -
  have wf: "wf_fs sample_fs" unfolding sample_fs_def by (rule wf_tree_fs) code_simp
  have r: "realpath sample_fs (cwd sample_env) (workspace sample_ctx) = Inr ([lit ''w''], True)" by code_simp
  have "cwd sample_env = []" "fmlookup sample_fs [lit ''w''] = Some DirN" by code_simp+
  with wf r show ?thesis by (simp add: sandboxed_def canonical_root)
qed

lemma tfs_sample_st [simp]: "tfs (sample_st fs) = fs" "ew_log (sample_st fs) = []" "ew_step (sample_st fs) = 0"
  by (simp_all add: sample_st_def)

lemma sample_sandboxed': "sandboxed sample_env sample_ctx [lit ''w''] (tfs (sample_st sample_fs))"
  by (simp only: tfs_sample_st sample_sandboxed)

lemma sample_ok: "kernel_ok sample_env" "writer_ok sample_env (sample_st fs)"
proof -
  show "kernel_ok sample_env" by (simp add: kernel_ok_def sample_env_def)
  have "list_all scalar (lit ''{}'')" by code_simp
  then show "writer_ok sample_env (sample_st fs)" by (simp add: writer_ok_def sample_env_def sample_st_def)
qed

end
