(* ===== verification/CommandLine.thy ===== *)
theory CommandLine
  imports Samples
begin

text \<open>
  The command line of \<^verbatim>\<open>__main__.py\<close>: its six options with their defaults from the environment, and
  \<^verbatim>\<open>argparse\<close> as that parser uses it (CPython 3.12): options with one value, a flag and \<^verbatim>\<open>--help\<close>,
  long options abbreviated to a unique prefix, \<^verbatim>\<open>--option=value\<close>, and exit status 2 for anything else.
\<close>

section \<open>Options\<close>

datatype dest = D_task | D_trace_dir | D_workspace | D_task_id | D_provider

datatype arg_action = Store dest | StoreTrue | Help

record namespace =
  ns_task :: pystr
  ns_trace_dir :: pystr
  ns_workspace :: pystr
  ns_task_id :: pystr
  ns_provider :: "pystr option"
  ns_echo_events :: bool

fun set_dest :: "dest \<Rightarrow> pystr \<Rightarrow> namespace \<Rightarrow> namespace" where
  "set_dest D_task v ns = ns\<lparr>ns_task := v\<rparr>"
| "set_dest D_trace_dir v ns = ns\<lparr>ns_trace_dir := v\<rparr>"
| "set_dest D_workspace v ns = ns\<lparr>ns_workspace := v\<rparr>"
| "set_dest D_task_id v ns = ns\<lparr>ns_task_id := v\<rparr>"
| "set_dest D_provider v ns = ns\<lparr>ns_provider := Some v\<rparr>"

fun option_name :: "dest \<Rightarrow> pystr" where
  "option_name D_task = lit ''--task''"
| "option_name D_trace_dir = lit ''--trace-dir''"
| "option_name D_workspace = lit ''--workspace''"
| "option_name D_task_id = lit ''--task-id''"
| "option_name D_provider = lit ''--provider''"

definition option_strings :: "(pystr \<times> arg_action) list" where
  "option_strings =
     [(lit ''-h'', Help), (lit ''--help'', Help)]
     @ map (\<lambda>d. (option_name d, Store d)) [D_task, D_trace_dir, D_workspace, D_task_id, D_provider]
     @ [(lit ''--echo-events'', StoreTrue)]"

definition DEFAULT_TASK_PATH :: pystr where "DEFAULT_TASK_PATH = lit ''/etc/agent-anvil/task.yaml''"
definition DEFAULT_TRACE_DIR :: pystr where "DEFAULT_TRACE_DIR = lit ''/var/log/agent-anvil''"
definition DEFAULT_WORKSPACE :: pystr where "DEFAULT_WORKSPACE = lit ''/workspace''"

text \<open>
  \<^verbatim>\<open>str.lower\<close> on ASCII; no other character is lowered to a letter of \<^verbatim>\<open>true\<close> or \<^verbatim>\<open>yes\<close>, so the
  membership test below is exact.
\<close>

definition ascii_lower :: "pystr \<Rightarrow> pystr" where
  "ascii_lower s = map (\<lambda>c. if 65 \<le> c \<and> c \<le> 90 then c + 32 else c) s"

text \<open>The defaults of \<^verbatim>\<open>add_argument\<close>; \<open>getenv\<close> is \<^verbatim>\<open>os.environ.get\<close>.\<close>

definition default_args :: "(string \<Rightarrow> pystr option) \<Rightarrow> namespace" where
  "default_args getenv =
     \<lparr>ns_task = case_option DEFAULT_TASK_PATH id (getenv ''AGENT_ANVIL_TASK_FILE''),
      ns_trace_dir = case_option DEFAULT_TRACE_DIR id (getenv ''AGENT_ANVIL_TRACE_DIR''),
      ns_workspace = case_option DEFAULT_WORKSPACE id (getenv ''AGENT_ANVIL_WORKSPACE''),
      ns_task_id = case_option (lit ''local-task'') id (getenv ''AGENT_ANVIL_TASK_ID''),
      ns_provider = getenv ''AGENT_ANVIL_PROVIDER'',
      ns_echo_events =
        ascii_lower (case_option [] id (getenv ''AGENT_ANVIL_ECHO_EVENTS'')) \<in> {lit ''1'', lit ''true'', lit ''yes''}\<rparr>"

section \<open>parse_args\<close>

text \<open>
  How \<^verbatim>\<open>argparse\<close> reads one argument string: a value, the \<^verbatim>\<open>--\<close> separator, an option nobody declared,
  or an option with its explicit value; help carries the exit status it ends with.
\<close>

datatype arg_kind =
    ArgValue
  | ArgEnd
  | ArgUnknown
  | ArgStore dest "pystr option"
  | ArgTrue "pystr option"
  | ArgHelp int

fun of_action :: "arg_action \<Rightarrow> pystr option \<Rightarrow> arg_kind" where
  "of_action (Store d) e = ArgStore d e"
| "of_action StoreTrue e = ArgTrue e"
| "of_action Help e = ArgHelp (if e = None then 0 else 2)"

text \<open>\<^verbatim>\<open>-hREST\<close>, read as a cluster of single-letter options.\<close>

fun glued_help :: "pystr \<Rightarrow> int" where
  "glued_help [] = 0"
| "glued_help (c # cs) =
     (if c = 45 then 2
      else if c = 104 then (if cs \<noteq> [] \<and> hd cs = 61 then 2 else glued_help cs)
      else 0)"

text \<open>\<^verbatim>\<open>^-\d+$|^-\d*\.\d+$\<close>, for ASCII digits.\<close>

definition is_digit :: "nat \<Rightarrow> bool" where
  "is_digit c \<longleftrightarrow> 48 \<le> c \<and> c \<le> 57"

definition negative_number :: "pystr \<Rightarrow> bool" where
  "negative_number s =
     (let b = tl s; b = (if b \<noteq> [] \<and> last b = nl then butlast b else b);
          r = dropWhile is_digit b
      in if r = [] then b \<noteq> [] else hd r = 46 \<and> tl r \<noteq> [] \<and> list_all is_digit (tl r))"

text \<open>\<^verbatim>\<open>_parse_optional\<close>: \<open>None\<close> is the error for an ambiguous abbreviation.\<close>

definition classify :: "pystr \<Rightarrow> arg_kind option" where
  "classify s =
     (if s = [] \<or> hd s \<noteq> 45 then Some ArgValue
      else case map_of option_strings s of
        Some a \<Rightarrow> Some (of_action a None)
      | None \<Rightarrow>
          if length s = 1 then Some ArgValue
          else
            (let key = takeWhile (\<lambda>c. c \<noteq> 61) s;
                 explicit = (if 61 \<in> set s then Some (tl (dropWhile (\<lambda>c. c \<noteq> 61) s)) else None);
                 other = (if negative_number s \<or> 32 \<in> set s then ArgValue else ArgUnknown)
             in case (explicit, map_of option_strings key) of
                  (Some e, Some a) \<Rightarrow> Some (of_action a explicit)
                | _ \<Rightarrow>
                    if s ! 1 = 45
                    then (case filter (\<lambda>(k, _). prefix key k) option_strings of
                            [] \<Rightarrow> Some other
                          | [(_, a)] \<Rightarrow> Some (of_action a explicit)
                          | _ \<Rightarrow> None)
                    else if s ! 1 = 104 then Some (ArgHelp (glued_help (drop 2 s)))
                    else Some other))"

fun classify_all :: "pystr list \<Rightarrow> (arg_kind \<times> pystr) list option" where
  "classify_all [] = Some []"
| "classify_all (s # w) =
     (if s = lit ''--'' then Some ((ArgEnd, s) # map (\<lambda>v. (ArgValue, v)) w)
      else (case classify s of
              None \<Rightarrow> None
            | Some k \<Rightarrow> map_option (Cons (k, s)) (classify_all w)))"

text \<open>
  Options are consumed in order; strings no option takes are collected and refused at the end.
  The left result is the status of \<^verbatim>\<open>SystemExit\<close>.
\<close>

fun consume :: "(arg_kind \<times> pystr) list \<Rightarrow> bool \<Rightarrow> namespace \<Rightarrow> int + namespace" where
  "consume [] extras ns = (if extras then Inl 2 else Inr ns)"
| "consume ((ArgStore d (Some v), _) # w) extras ns = consume w extras (set_dest d v ns)"
| "consume [(ArgStore d None, _)] extras ns = Inl 2"
| "consume ((ArgStore d None, _) # (k, v) # w) extras ns =
     (if k = ArgValue then consume w extras (set_dest d v ns) else Inl 2)"
| "consume ((ArgTrue (Some _), _) # w) extras ns = Inl 2"
| "consume ((ArgTrue None, _) # w) extras ns = consume w extras (ns\<lparr>ns_echo_events := True\<rparr>)"
| "consume ((ArgHelp n, _) # w) extras ns = Inl n"
| "consume ((ArgValue, _) # w) extras ns = consume w True ns"
| "consume ((ArgEnd, _) # w) extras ns = consume w True ns"
| "consume ((ArgUnknown, _) # w) extras ns = consume w True ns"

definition parse_args :: "namespace \<Rightarrow> pystr list \<Rightarrow> int + namespace" where
  "parse_args defaults argv =
     (case classify_all argv of None \<Rightarrow> Inl 2 | Some ks \<Rightarrow> consume ks False defaults)"

section \<open>Properties\<close>

text \<open>
  What a user may write: an option with its value as the next argument or after an equals sign, or the flag.
\<close>

datatype item = Sep string pystr | Glued string pystr | Echo

fun typed :: "item \<Rightarrow> pystr list" where
  "typed (Sep opt v) = [lit opt, v]"
| "typed (Glued opt v) = [lit opt @ [61] @ v]"
| "typed Echo = [lit ''--echo-events'']"

definition plain_value :: "pystr \<Rightarrow> bool" where
  "plain_value v \<longleftrightarrow> v = [] \<or> hd v \<noteq> 45"

abbreviation value_options :: "string list" where
  "value_options \<equiv> [''--task'', ''--trace-dir'', ''--workspace'', ''--task-id'', ''--provider'']"

fun item_ok :: "item \<Rightarrow> bool" where
  "item_ok (Sep opt v) \<longleftrightarrow> opt \<in> set value_options \<and> plain_value v"
| "item_ok (Glued opt v) \<longleftrightarrow> opt \<in> set value_options"
| "item_ok Echo \<longleftrightarrow> True"

text \<open>The last value an option is given.\<close>

fun given :: "string \<Rightarrow> item \<Rightarrow> pystr option" where
  "given opt (Sep opt' v) = (if opt' = opt then Some v else None)"
| "given opt (Glued opt' v) = (if opt' = opt then Some v else None)"
| "given opt Echo = None"

definition last_given :: "string \<Rightarrow> item list \<Rightarrow> pystr option" where
  "last_given opt items = (let vs = List.map_filter (given opt) items in if vs = [] then None else Some (last vs))"

text \<open>What the program is to work with: the option, else the environment variable, else the default.\<close>

definition chosen :: "(string \<Rightarrow> pystr option) \<Rightarrow> item list \<Rightarrow> string \<Rightarrow> string \<Rightarrow> string \<Rightarrow> pystr" where
  "chosen getenv items opt var dflt =
     (case last_given opt items of Some v \<Rightarrow> v | None \<Rightarrow> (case getenv var of Some v \<Rightarrow> v | None \<Rightarrow> lit dflt))"

text \<open>\<open>v\<close> is the word in any mixture of lower and upper case.\<close>

definition any_case :: "string \<Rightarrow> string \<Rightarrow> pystr \<Rightarrow> bool" where
  "any_case lower upper v \<longleftrightarrow> list_all2 (\<lambda>c (x, y). c = x \<or> c = y) v (zip (lit lower) (lit upper))"

definition dests :: "dest list" where
  "dests = [D_task, D_trace_dir, D_workspace, D_task_id, D_provider]"

lemma all_dests: "list_all P dests \<Longrightarrow> P d"
  by (cases d) (simp_all add: dests_def)

lemma option_name_facts:
  "hd (option_name d) = 45" "61 \<notin> set (option_name d)" "option_name d \<noteq> []" "length (option_name d) \<noteq> 1"
  "option_name d \<noteq> lit ''--''" "map_of option_strings (option_name d) = Some (Store d)"
  by (rule all_dests [where P = "\<lambda>d. hd (option_name d) = 45"], code_simp)
    (rule all_dests [where P = "\<lambda>d. 61 \<notin> set (option_name d)"], code_simp,
     rule all_dests [where P = "\<lambda>d. option_name d \<noteq> []"], code_simp,
     rule all_dests [where P = "\<lambda>d. length (option_name d) \<noteq> 1"], code_simp,
     rule all_dests [where P = "\<lambda>d. option_name d \<noteq> lit ''--''"], code_simp,
     rule all_dests [where P = "\<lambda>d. map_of option_strings (option_name d) = Some (Store d)"], code_simp)

lemma classify_option: "classify (option_name d) = Some (ArgStore d None)"
  using option_name_facts [of d] by (simp add: classify_def)

lemma option_strings_eq: "(k, a) \<in> set option_strings \<Longrightarrow> 61 \<notin> set k"
proof -
  have "list_all (\<lambda>(k, a). 61 \<notin> set k) option_strings" by code_simp
  then show "(k, a) \<in> set option_strings \<Longrightarrow> 61 \<notin> set k" by (auto simp: list_all_iff)
qed

lemma before_first:
  "c \<notin> set k \<Longrightarrow> takeWhile (\<lambda>x. x \<noteq> c) (k @ c # v) = k \<and> dropWhile (\<lambda>x. x \<noteq> c) (k @ c # v) = c # v"
  by (induction k) auto

lemma classify_explicit: "classify (option_name d @ [61] @ v) = Some (ArgStore d (Some v))"
proof -
  let ?s = "option_name d @ [61] @ v"
  have "map_of option_strings ?s = None"
    using option_strings_eq [of ?s] by (auto simp: map_of_eq_None_iff)
  moreover have "takeWhile (\<lambda>c. c \<noteq> 61) ?s = option_name d" "dropWhile (\<lambda>c. c \<noteq> 61) ?s = 61 # v"
    using before_first [OF option_name_facts(2)] by simp_all
  ultimately show ?thesis
    using option_name_facts [of d] by (simp add: classify_def Let_def)
qed

lemma classify_plain: "plain_value v \<Longrightarrow> classify v = Some ArgValue \<and> v \<noteq> lit ''--''"
  by (auto simp: plain_value_def classify_def)

lemma explicit_no_end: "option_name d @ [61] @ v \<noteq> lit ''--''"
  by (cases d) simp_all

text \<open>The field an option sets.\<close>

definition assign_option :: "string \<Rightarrow> pystr \<Rightarrow> namespace \<Rightarrow> namespace" where
  "assign_option opt v ns =
     (if opt = ''--task'' then ns\<lparr>ns_task := v\<rparr>
      else if opt = ''--trace-dir'' then ns\<lparr>ns_trace_dir := v\<rparr>
      else if opt = ''--workspace'' then ns\<lparr>ns_workspace := v\<rparr>
      else if opt = ''--task-id'' then ns\<lparr>ns_task_id := v\<rparr>
      else ns\<lparr>ns_provider := Some v\<rparr>)"

fun put :: "item \<Rightarrow> namespace \<Rightarrow> namespace" where
  "put (Sep opt v) ns = assign_option opt v ns"
| "put (Glued opt v) ns = assign_option opt v ns"
| "put Echo ns = ns\<lparr>ns_echo_events := True\<rparr>"

lemma option_dest:
  assumes "opt \<in> set value_options"
  obtains d where "lit opt = option_name d" "set_dest d = assign_option opt"
proof -
  have "list_all (\<lambda>opt. \<exists>d \<in> set dests. lit opt = option_name d \<and> set_dest d = assign_option opt) value_options"
    by (simp add: dests_def assign_option_def fun_eq_iff)
  with assms show thesis unfolding list_all_iff using that by blast
qed

lemma classify_echo: "classify (lit ''--echo-events'') = Some (ArgTrue None)" "lit ''--echo-events'' \<noteq> lit ''--''"
  by code_simp+

lemma parse_typed:
  assumes "list_all item_ok items"
  shows "\<exists>ks. classify_all (concat (map typed items)) = Some ks \<and> (\<forall>ns. consume ks False ns = Inr (fold put items ns))"
  using assms
proof (induction items)
  case (Cons item items)
  then obtain ks where ks: "classify_all (concat (map typed items)) = Some ks"
    "\<And>ns. consume ks False ns = Inr (fold put items ns)" by auto
  show ?case
  proof (cases item)
    case (Sep opt v)
    with Cons.prems have "opt \<in> set value_options" "plain_value v" by simp_all
    from this(1) obtain d where d: "lit opt = option_name d" "set_dest d = assign_option opt"
      by (rule option_dest)
    have "classify_all (concat (map typed (item # items))) = Some ((ArgStore d None, option_name d) # (ArgValue, v) # ks)"
      using Sep d(1) ks(1) classify_option [of d] classify_plain [OF \<open>plain_value v\<close>] option_name_facts(5) [of d]
      by (simp del: lit_Cons)
    with Sep d(2) ks(2) show ?thesis by simp
  next
    case (Glued opt v)
    with Cons.prems have "opt \<in> set value_options" by simp
    then obtain d where d: "lit opt = option_name d" "set_dest d = assign_option opt"
      by (rule option_dest)
    have "classify_all (concat (map typed (item # items))) = Some ((ArgStore d (Some v), option_name d @ [61] @ v) # ks)"
      using Glued d(1) ks(1) classify_explicit [of d v] explicit_no_end [of d v] by simp
    with Glued d(2) ks(2) show ?thesis by simp
  next
    case Echo
    with ks(1) have "classify_all (concat (map typed (item # items))) = Some ((ArgTrue None, lit ''--echo-events'') # ks)"
      using classify_echo by (simp del: lit_Cons)
    with Echo ks(2) show ?thesis by simp
  qed
qed simp

lemma last_given_snoc:
  "last_given opt [] = None"
  "last_given opt (items @ [item]) = (case given opt item of None \<Rightarrow> last_given opt items | Some v \<Rightarrow> Some v)"
  by (simp_all add: last_given_def Let_def map_filter_simps(2) List.map_filter_def split: option.split)

lemma put_all:
  "list_all item_ok items \<Longrightarrow> fold put items ns =
     \<lparr>ns_task = case_option (ns_task ns) id (last_given ''--task'' items),
      ns_trace_dir = case_option (ns_trace_dir ns) id (last_given ''--trace-dir'' items),
      ns_workspace = case_option (ns_workspace ns) id (last_given ''--workspace'' items),
      ns_task_id = case_option (ns_task_id ns) id (last_given ''--task-id'' items),
      ns_provider = case_option (ns_provider ns) Some (last_given ''--provider'' items),
      ns_echo_events = (ns_echo_events ns \<or> Echo \<in> set items)\<rparr>"
proof (induction items rule: rev_induct)
  case (snoc item items)
  then show ?case by (cases item) (auto simp: last_given_snoc assign_option_def)
qed (simp add: last_given_snoc)

lemma chosen_default:
  "chosen getenv items opt var dflt = case_option (case_option (lit dflt) id (getenv var)) id (last_given opt items)"
  by (simp add: chosen_def split: option.split)

lemma lower_letters:
  assumes "list_all2 (\<lambda>x y. 97 \<le> x \<and> x \<le> 122 \<and> x = y + 32) a b"
  shows "list_all2 (\<lambda>c (x, y). c = x \<or> c = y) v (zip a b) \<longleftrightarrow> ascii_lower v = a"
  using assms
proof (induction arbitrary: v rule: list_all2_induct)
  case (Cons x a y b)
  then show ?case by (cases v) (auto simp: ascii_lower_def)
qed (simp add: ascii_lower_def)

lemma any_case_lower:
  "any_case ''true'' ''TRUE'' v \<longleftrightarrow> ascii_lower v = lit ''true''"
  "any_case ''yes'' ''YES'' v \<longleftrightarrow> ascii_lower v = lit ''yes''"
  unfolding any_case_def by (rule lower_letters, code_simp)+

lemma lower_digit: "ascii_lower v = lit ''1'' \<longleftrightarrow> v = lit ''1''"
  by (cases v) (auto simp: ascii_lower_def)

text \<open>
  C37: what the program works with. Whatever options the command line gives, in both spellings (\<^verbatim>\<open>--option value\<close> for
  values that do not begin with a dash, and \<^verbatim>\<open>--option=value\<close>), in any order and repeated at will: the task file, the
  trace directory, the workspace and the task id are the last value given to \<^verbatim>\<open>--task\<close>, \<^verbatim>\<open>--trace-dir\<close>,
  \<^verbatim>\<open>--workspace\<close> and \<^verbatim>\<open>--task-id\<close>, else the environment's, else the documented default; the provider is the last
  value of \<^verbatim>\<open>--provider\<close>, else the environment's, if any; events are echoed if the flag is given or the environment
  says 1, true or yes in any case.
\<close>

theorem parse_args_assigns:
  assumes "list_all item_ok items"
  shows "parse_args (default_args getenv) (concat (map typed items)) = Inr
    \<lparr>ns_task = chosen getenv items ''--task'' ''AGENT_ANVIL_TASK_FILE'' ''/etc/agent-anvil/task.yaml'',
     ns_trace_dir = chosen getenv items ''--trace-dir'' ''AGENT_ANVIL_TRACE_DIR'' ''/var/log/agent-anvil'',
     ns_workspace = chosen getenv items ''--workspace'' ''AGENT_ANVIL_WORKSPACE'' ''/workspace'',
     ns_task_id = chosen getenv items ''--task-id'' ''AGENT_ANVIL_TASK_ID'' ''local-task'',
     ns_provider = (case last_given ''--provider'' items of Some v \<Rightarrow> Some v | None \<Rightarrow> getenv ''AGENT_ANVIL_PROVIDER''),
     ns_echo_events = (Echo \<in> set items \<or> (\<exists>v. getenv ''AGENT_ANVIL_ECHO_EVENTS'' = Some v \<and>
       (v = lit ''1'' \<or> any_case ''true'' ''TRUE'' v \<or> any_case ''yes'' ''YES'' v)))\<rparr>"
proof -
  have "ns_echo_events (default_args getenv) \<longleftrightarrow> (\<exists>v. getenv ''AGENT_ANVIL_ECHO_EVENTS'' = Some v \<and>
       (v = lit ''1'' \<or> any_case ''true'' ''TRUE'' v \<or> any_case ''yes'' ''YES'' v))"
    by (cases "getenv ''AGENT_ANVIL_ECHO_EVENTS''") (auto simp: any_case_lower lower_digit [simplified] default_args_def ascii_lower_def [of "[]"])
  moreover have "parse_args (default_args getenv) (concat (map typed items)) = Inr (fold put items (default_args getenv))"
    using parse_typed [OF assms] by (auto simp: parse_args_def)
  moreover have "ns_task (default_args getenv) = case_option (lit ''/etc/agent-anvil/task.yaml'') id (getenv ''AGENT_ANVIL_TASK_FILE'')"
    "ns_trace_dir (default_args getenv) = case_option (lit ''/var/log/agent-anvil'') id (getenv ''AGENT_ANVIL_TRACE_DIR'')"
    "ns_workspace (default_args getenv) = case_option (lit ''/workspace'') id (getenv ''AGENT_ANVIL_WORKSPACE'')"
    "ns_task_id (default_args getenv) = case_option (lit ''local-task'') id (getenv ''AGENT_ANVIL_TASK_ID'')"
    "ns_provider (default_args getenv) = getenv ''AGENT_ANVIL_PROVIDER''"
    by (simp_all only: default_args_def namespace.simps DEFAULT_TASK_PATH_def DEFAULT_TRACE_DIR_def DEFAULT_WORKSPACE_def)
  ultimately show ?thesis by (simp only: put_all [OF assms] chosen_default disj_commute)
qed

theorem parse_args_assigns_witness:
  "parse_args (default_args (\<lambda>k. if k = ''AGENT_ANVIL_ECHO_EVENTS'' then Some (lit ''Yes'') else None))
     [lit ''--task'', lit ''a.yaml'', lit ''--provider=-x'', lit ''--task'', lit ''b.yaml'']
   = Inr \<lparr>ns_task = lit ''b.yaml'', ns_trace_dir = lit ''/var/log/agent-anvil'', ns_workspace = lit ''/workspace'',
       ns_task_id = lit ''local-task'', ns_provider = Some (lit ''-x''), ns_echo_events = True\<rparr>"
proof -
  let ?items = "[Sep ''--task'' (lit ''a.yaml''), Glued ''--provider'' (lit ''-x''), Sep ''--task'' (lit ''b.yaml'')]"
  have ok: "list_all item_ok ?items" by code_simp
  have "any_case ''yes'' ''YES'' (lit ''Yes'')" by code_simp
  moreover have "last_given ''--task'' ?items = Some (lit ''b.yaml'')" "last_given ''--provider'' ?items = Some (lit ''-x'')"
    "last_given ''--trace-dir'' ?items = None" "last_given ''--workspace'' ?items = None" "last_given ''--task-id'' ?items = None"
    by code_simp+
  moreover have "concat (map typed ?items) =
      [lit ''--task'', lit ''a.yaml'', lit ''--provider=-x'', lit ''--task'', lit ''b.yaml'']" by code_simp
  ultimately show ?thesis
    using parse_args_assigns [OF ok, of "\<lambda>k. if k = ''AGENT_ANVIL_ECHO_EVENTS'' then Some (lit ''Yes'') else None"]
    by (simp add: chosen_def del: lit_Cons)
qed

end
