(* ===== verification/FileWrite.thy ===== *)
theory FileWrite
  imports FileRead Samples
begin

text \<open>
  The file_write tool (\<^verbatim>\<open>tools/file_write.py\<close>): create or overwrite a file, with its parent
  directories, and record a \<^verbatim>\<open>file_mutation\<close> event.
\<close>

section \<open>The tool\<close>

definition file_write_description :: pystr where
  "file_write_description =
     lit ''Write a file in the workspace. Creates parent directories as needed. '' @
     lit ''Overwrites any existing content.''"

definition file_write_schema :: json where
  "file_write_schema = object_schema
     [(''path'', str_prop ''Workspace-relative file path.''),
      (''content'', str_prop ''Full file content to write.'')]
     [''path'', ''content'']"

definition file_write_at ::
  "'e tool_env_scheme \<Rightarrow> tool_ctx \<Rightarrow> pystr \<Rightarrow> pystr \<Rightarrow> path \<Rightarrow> ('z tool_st_scheme, tool_result) eff" where
  "file_write_at env ctx a text target =
     bindE (path_exists env target) (\<lambda>ex.
     bindE (if ex then st_size env target else ret 0) (\<lambda>size_before.
     bindE (path_exists env target) (\<lambda>ex2.
     thenE (mkdir_parents env (butlast target))
    (bindE (of_sum (utf8_encode text)) (\<lambda>encoded.
     thenE (write_bytes env target encoded)
    (thenE (emit_file_mutation env target (workspace ctx) (if ex2 then ''edit'' else ''create'')
              size_before (length encoded) encoded)
    (ret (tool_ok (lit ''file_write: wrote '' @ show_nat (length encoded) @ lit '' bytes to '' @ a)))))))))"

definition file_write_run ::
  "'e tool_env_scheme \<Rightarrow> tool_ctx \<Rightarrow> pydict \<Rightarrow> ('z tool_st_scheme, tool_result) eff" where
  "file_write_run env ctx args =
     (case path_arg args of
        None \<Rightarrow> ret (usage_error (lit ''file_write: missing '' @ quoted ''path''))
      | Some a \<Rightarrow>
          (case as_str (dget args ''content'') of
             None \<Rightarrow> ret (usage_error (lit ''file_write: '' @ quoted ''content'' @ lit '' must be a string''))
           | Some text \<Rightarrow>
               bindE (get_target env ctx a) (\<lambda>target.
                 case target of
                   None \<Rightarrow> ret (usage_error (lit ''file_write: path escapes workspace: '' @ a))
                 | Some p \<Rightarrow> file_write_at env ctx a text p)))"

section \<open>The contracts\<close>

lemma file_write_at_steps: "keeps (tool_steps env) (file_write_at env ctx a text p)"
  unfolding file_write_at_def
  by (intro tool_step_intros) simp_all

lemma file_write_steps: "keeps (tool_steps env) (file_write_run env ctx args)"
  unfolding file_write_run_def
  by (auto split: option.splits
      intro!: keeps_stateless keeps_bind quiet_steps [OF get_target_frame] file_write_at_steps)

interpretation file_write: tool_impl env "file_write_run env ctx" for env ctx
  by unfold_locales (rule file_write_steps)

lemma file_write_at_sandbox: "preserves (sandbox ws p fs0) (file_write_at env ctx a text p)"
  unfolding file_write_at_def by (intro sandbox_intros mkdir_parents_sandbox) simp

lemma file_write_runs:
  assumes "path_arg args = Some a" "as_str (dget args ''content'') = Some text"
    "workspace_target env ctx a (tfs s) = Inr (Some p)"
  shows "file_write_run env ctx args s = file_write_at env ctx a text p s"
  using assms by (simp add: file_write_run_def get_target_def bindE_def)

lemma file_write_rejects:
  assumes "\<nexists>a text p. path_arg args = Some a \<and> as_str (dget args ''content'') = Some text \<and>
    workspace_target env ctx a (tfs s) = Inr (Some p)"
  shows "snd (file_write_run env ctx args s) = s"
  using assms
  by (auto simp: file_write_run_def get_target_def bindE_def ret_def split: option.splits sum.splits)

interpretation file_write_ws: workspace_tool env ctx "file_write_run env ctx" for env ctx
proof
  fix args a s p ws fs0 y t
  assume *: "path_arg args = Some a" "workspace_target env ctx a (tfs s) = Inr (Some p)"
    "sandbox ws p fs0 s" "file_write_run env ctx args s = (y, t)"
  show "sandbox ws p fs0 t"
  proof (cases "as_str (dget args ''content'')")
    case None
    with * show ?thesis by (auto simp: file_write_run_def ret_def)
  next
    case (Some c)
    with * have "file_write_at env ctx a c p s = (y, t)" by (simp add: file_write_runs)
    with file_write_at_sandbox *(3) show ?thesis by (rule preservesD)
  qed
next
  fix args s y t
  assume "file_write_run env ctx args s = (y, t)"
    "\<nexists>a p. path_arg args = Some a \<and> workspace_target env ctx a (tfs s) = Inr (Some p)"
  then show "tfs t = tfs s" using file_write_rejects [of args env ctx s] by auto
qed

section \<open>What a successful write does\<close>

lemma file_write_at_Inr:
  assumes wf: "wf_fs (tfs s)" and c: "canonical (tfs s) p"
    and run: "file_write_at env ctx a text p s = (Inr r, t)"
  shows "\<exists>fs1 e. grown (butlast p) (tfs s) fs1 \<and> tfs t = fmupd p (FileN (enc_all text)) fs1 \<and>
    ew_log t = ew_log s @ [e] \<and> e_type e = file_mutation \<and> e_step e = ew_step s \<and>
    e_data e = mutation_data p (workspace ctx) (if fmlookup (tfs s) p = None then ''create'' else ''edit'')
      (case fmlookup (tfs s) p of Some (FileN b) \<Rightarrow> length b | _ \<Rightarrow> 0)
      (length (enc_all text)) (enc_all text) \<and>
    list_all scalar text \<and> wf_fs (tfs t) \<and> canonical (tfs t) p"
proof -
  let ?ex = "fmlookup (tfs s) p \<noteq> None"
  from run obtain s1 n s2 b s3 m where
    ex: "path_exists env p s = (Inr b, s1)"
    and sz: "(if b then st_size env p else ret 0) s1 = (Inr n, s2)"
    and ex2: "path_exists env p s2 = (Inr m, s3)"
    and rest: "thenE (mkdir_parents env (butlast p))
      (bindE (of_sum (utf8_encode text)) (\<lambda>encoded. thenE (write_bytes env p encoded)
        (thenE (emit_file_mutation env p (workspace ctx) (if m then ''edit'' else ''create'')
           n (length encoded) encoded)
        (ret (tool_ok (lit ''file_write: wrote '' @ show_nat (length encoded) @ lit '' bytes to '' @ a))))))
      s3 = (Inr r, t)"
    unfolding file_write_at_def bindE_Inr_iff by blast
  have s1: "s1 = s" "b = ?ex" using path_exists_Inr [OF wf c ex] by auto
  have s2: "s2 = s" using sz s1 by (auto simp: st_size_def kcall_Inr_iff ret_def split: if_splits)
  with ex2 have s3: "s3 = s" "m = ?ex" using path_exists_Inr [OF wf c] by auto
  from rest [unfolded thenE_def bindE_Inr_iff of_sum_def ret_def] s3 obtain s4 u v s5 w where
    mk: "mkdir_parents env (butlast p) s = (Inr u, s4)" and enc: "utf8_encode text = Inr v"
    and wr: "write_bytes env p v s4 = (Inr w, s5)"
    and em: "emit_file_mutation env p (workspace ctx) (if ?ex then ''edit'' else ''create'')
      n (length v) v s5 = (Inr (), t)"
    by fastforce
  have v: "v = enc_all text" "list_all scalar text" using enc by (auto simp: utf8_encode_def split: if_splits)
  note g = mkdir_parents_grown [OF wf c mk]
  have w: "s5 = s4\<lparr>tfs := fmupd p (FileN v) (tfs s4)\<rparr>" "fmlookup (tfs s4) p \<noteq> Some DirN"
    using write_bytes_Inr [OF _ _ wr] g by auto
  have k: "sandbox [] p (tfs s) s5"
    using preservesD [OF write_bytes_sandbox _ wr, of "[]" "tfs s"] g grown_links [of "butlast p" "tfs s" "tfs s4"]
    by (auto simp: sandbox_def wf_fs_def)
  have "fmlookup (tfs s) p \<noteq> Some DirN" using g w(2) unfolding grown_def by (metis option.distinct(1))
  moreover have "\<not> (\<exists>l. fmlookup (tfs s) p = Some (LinkN l))" using c by (auto simp: canonical_def)
  ultimately have n: "n = (case fmlookup (tfs s) p of Some (FileN b) \<Rightarrow> length b | _ \<Rightarrow> 0)"
    using sz s1 by (auto simp: ret_def split: option.splits node.splits dest: st_size_Inr [OF wf c])
  have l: "ew_log s5 = ew_log s" "ew_step s5 = ew_step s" using same_trace_log g w(1) by auto
  from emit_file_mutation_Inr [OF em] l n v g w(1) k show ?thesis
    by (intro exI [of _ "tfs s4"]) (auto simp: sandbox_def)
qed

lemma file_write_Inr:
  assumes "path_arg args = Some a" "as_str (dget args ''content'') = Some text"
    and "file_write_run env ctx args s = (Inr r, t)" "exit_code r = 0"
  obtains p where "workspace_target env ctx a (tfs s) = Inr (Some p)"
    "file_write_at env ctx a text p s = (Inr r, t)"
  using assms
  by (auto simp: file_write_run_def get_target_def bindE_def ret_def usage_error_def
      split: option.splits sum.splits)

section \<open>A write that nothing refuses succeeds\<close>

lemma file_write_at_total:
  assumes k: "kernel_ok env" and w: "writer_ok env s" and wf: "wf_fs (tfs s)" and c: "canonical (tfs s) p"
    and p: "p \<noteq> []" "open_path (tfs s) (butlast p)" "fmlookup (tfs s) p \<noteq> Some DirN"
    and enc: "list_all scalar body"
  shows "\<exists>t. file_write_at env ctx a body p s =
    (Inr (tool_ok (lit ''file_write: wrote '' @ show_nat (length (enc_all body)) @ lit '' bytes to '' @ a)), t)"
proof -
  have ex: "path_exists env p s = (Inr (fmlookup (tfs s) p \<noteq> None), s)"
    using k lookup_at_canonical [OF wf c] by (simp add: path_exists_def kernel_ok_kcall)
  have "\<exists>n. (if fmlookup (tfs s) p \<noteq> None then st_size env p else ret 0) s = (Inr n, s)"
    using k kstat_present [OF wf c] by (auto simp: st_size_def kernel_ok_kcall ret_def)
  then obtain n where n: "(if fmlookup (tfs s) p \<noteq> None then st_size env p else ret 0) s = (Inr n, s)" by blast
  obtain u where u: "mkdir_parents env (butlast p) s = (Inr (), u)" "fmlookup (tfs u) (butlast p) = Some DirN"
    using mkdir_parents_total [OF k wf canonical_butlast [OF c] p(2)] by blast
  note g = mkdir_parents_grown [OF wf c u(1)]
  have "\<not> prefix p (butlast p)" using p(1) prefix_length_le [of p "butlast p"] by (cases p) auto
  then have "fmlookup (tfs u) p = fmlookup (tfs s) p" using g unfolding grown_def by blast
  then obtain v where v: "write_bytes env p (enc_all body) u = (Inr (), v)"
    using write_bytes_total [OF k, of u p "enc_all body"] g p u(2) by auto
  have "same_trace u v" using write_bytes_frame v by (rule keepsD)
  then have "writer_ok env v"
    using w g by (simp add: writer_ok_def same_trace_def writer_view_def)
  from emit_total [OF this] obtain e t where
    "emit env file_mutation (mutation_data p (workspace ctx) (if fmlookup (tfs s) p \<noteq> None then ''edit'' else ''create'')
       n (length (enc_all body)) (enc_all body)) v = (Inr e, t)" by blast
  with ex n u(1) v enc show ?thesis
    by (simp add: file_write_at_def bindE_def thenE_def of_sum_def ret_def utf8_encode_def emit_file_mutation_def
        split del: if_split)
qed

section \<open>Properties\<close>

definition write_args :: "string \<Rightarrow> string \<Rightarrow> pydict" where
  "write_args p c = [(lit ''path'', JStr (lit p)), (lit ''content'', JStr (lit c))]"

definition sample_target :: path where
  "sample_target = [lit ''w'', lit ''d'', lit ''n'', lit ''x'']"

lemma sample_write_facts:
  "path_arg (write_args ''k/n/x'' ''hi'') = Some (lit ''k/n/x'')"
  "as_str (dget (write_args ''k/n/x'' ''hi'') ''content'') = Some (lit ''hi'')"
  "list_all scalar (lit ''hi'')"
  "loop_free sample_env sample_ctx (tfs (sample_st sample_fs)) (lit ''k/n/x'')"
  "workspace_target sample_env sample_ctx (lit ''k/n/x'') (tfs (sample_st sample_fs)) = Inr (Some sample_target)"
  "sample_target \<noteq> []" "fmlookup (tfs (sample_st sample_fs)) sample_target \<noteq> Some DirN"
  unfolding tfs_sample_st by code_simp+

lemma sample_write_open: "open_path (tfs (sample_st sample_fs)) (butlast sample_target)"
proof -
  have b: "butlast sample_target = [lit ''w'', lit ''d'', lit ''n'']" by code_simp
  have "fmlookup sample_fs [] = Some DirN" "fmlookup sample_fs [lit ''w''] = Some DirN"
    "fmlookup sample_fs [lit ''w'', lit ''d''] = Some DirN"
    "fmlookup sample_fs [lit ''w'', lit ''d'', lit ''n''] = None"
    by code_simp+
  then show ?thesis unfolding tfs_sample_st b open_path_def prefix_Cons by auto
qed

lemma sample_write:
  obtains r t where "file_write_run sample_env sample_ctx (write_args ''k/n/x'' ''hi'') (sample_st sample_fs)
    = (Inr r, t)" "exit_code r = 0"
proof -
  have c: "canonical (tfs (sample_st sample_fs)) sample_target"
    by (rule target_canonical [OF sample_sandboxed' sample_write_facts(4,5)])
  have wf: "wf_fs (tfs (sample_st sample_fs))" using sample_sandboxed' unfolding sandboxed_def by blast
  from file_write_at_total [OF sample_ok wf c sample_write_facts(6) sample_write_open sample_write_facts(7,3)]
  obtain t r where "file_write_run sample_env sample_ctx (write_args ''k/n/x'' ''hi'') (sample_st sample_fs)
      = (Inr (tool_ok r), t)"
    unfolding file_write_runs [OF sample_write_facts(1,2,5)] by blast
  then show thesis by (rule that) (simp add: tool_ok_def)
qed

text \<open>
  C24: a write that the kernel and the writer do not refuse succeeds: with encodable text and a
  target that is not a directory and whose existing ancestors are directories, file_write
  creates the missing parents and returns its success message.
\<close>

theorem file_write_total:
  assumes "kernel_ok env" "writer_ok env s" "sandboxed env ctx ws (tfs s)" "path_arg args = Some a"
    "loop_free env ctx (tfs s) a" "as_str (dget args ''content'') = Some body" "list_all scalar body"
    "workspace_target env ctx a (tfs s) = Inr (Some p)" "p \<noteq> []" "open_path (tfs s) (butlast p)"
    "fmlookup (tfs s) p \<noteq> Some DirN"
  shows "\<exists>t. file_write_run env ctx args s =
    (Inr (tool_ok (lit ''file_write: wrote '' @ show_nat (length (enc_all body)) @ lit '' bytes to '' @ a)), t)"
proof -
  have wf: "wf_fs (tfs s)" using assms(3) by (simp add: sandboxed_def)
  have "canonical (tfs s) p" by (rule target_canonical [OF assms(3,5,8)])
  from file_write_at_total [OF assms(1,2) wf this assms(9-11,7)] file_write_runs [OF assms(4,6,8)]
  show ?thesis by simp
qed

theorem file_write_total_witness:
  "\<exists>t. file_write_run sample_env sample_ctx (write_args ''k/n/x'' ''hi'') (sample_st sample_fs) =
    (Inr (tool_ok (lit ''file_write: wrote '' @ show_nat (length (enc_all (lit ''hi'')))
       @ lit '' bytes to '' @ lit ''k/n/x'')), t)"
  by (rule file_write_total [OF sample_ok sample_sandboxed' sample_write_facts(1,4,2,3,5,6) sample_write_open
        sample_write_facts(7)])



text \<open>
  C19: writing a text file and reading it back: after a successful file_write, file_read of the
  same path returns the requested lines of exactly the text written (with the newline
  translation of text mode), provided the text is within the read limit and the kernel does not
  refuse the read.
\<close>

theorem write_then_read:
  assumes "sandboxed env ctx ws (tfs s)" "path_arg args = Some a" "loop_free env ctx (tfs s) a"
    "as_str (dget args ''content'') = Some text"
    "file_write_run env ctx args s = (Inr r, t)" "exit_code r = 0"
    "length (enc_all text) \<le> MAX_FILE_BYTES" "\<And>op p. fs_fault env op p (tfs t) = None"
    "path_arg rargs = Some a"
  shows "file_read_run env ctx rargs t =
    (Inr (read_range rargs (splitlines (universal_newlines text))), t)"
proof -
  from assms(2,4,5,6) obtain p where p: "workspace_target env ctx a (tfs s) = Inr (Some p)"
    "file_write_at env ctx a text p s = (Inr r, t)"
    by (rule file_write_Inr)
  have wf: "wf_fs (tfs s)" using assms(1) by (simp add: sandboxed_def)
  have c: "canonical (tfs s) p" by (rule target_canonical [OF assms(1,3) p(1)])
  from file_write_at_Inr [OF wf c p(2)] obtain fs1 where fs1: "grown (butlast p) (tfs s) fs1"
    "tfs t = fmupd p (FileN (enc_all text)) fs1" "list_all scalar text" "wf_fs (tfs t)" "canonical (tfs t) p"
    by blast
  have "canonical fs1 p" using fs1(1) c by (rule grown_canonical)
  then have "workspace_target env ctx a (tfs t) = Inr (Some p)"
    using workspace_target_links [OF assms(1,3) p(1)] link_at_written [OF fs1(1)] fs1(2) by simp
  then have "file_read_run env ctx rargs t = file_read_at env rargs a p t"
    using assms(9) by (simp add: file_read_runs)
  also have "\<dots> = (Inr (read_range rargs (splitlines (universal_newlines text))), t)"
    using fs1 assms(7,8) by (intro file_read_at_text) simp_all
  finally show ?thesis .
qed

theorem write_then_read_witness:
  "\<exists>t r. file_write_run sample_env sample_ctx (write_args ''k/n/x'' ''hi'') (sample_st sample_fs) = (Inr r, t) \<and>
     file_read_run sample_env sample_ctx (write_args ''k/n/x'' []) t = (Inr (tool_ok (lit ''1: hi'')), t)"
proof -
  obtain r t where rt: "file_write_run sample_env sample_ctx (write_args ''k/n/x'' ''hi'') (sample_st sample_fs)
    = (Inr r, t)" "exit_code r = 0"
    by (rule sample_write)
  have e: "read_range (write_args ''k/n/x'' []) (splitlines (universal_newlines (lit ''hi'')))
      = tool_ok (lit ''1: hi'')"
    "length (enc_all (lit ''hi'')) \<le> MAX_FILE_BYTES"
    "path_arg (write_args ''k/n/x'' []) = Some (lit ''k/n/x'')"
    by code_simp+
  have "fs_fault sample_env op p (tfs t) = None" for op p using sample_ok(1) by (simp add: kernel_ok_def)
  from write_then_read [OF sample_sandboxed' sample_write_facts(1,4,2) rt e(2) this e(3)]
  show ?thesis unfolding e(1) using rt(1) by blast
qed

text \<open>
  C22: file_write is confined to the workspace: whatever the arguments, and whether the call
  returns or raises, no path outside the resolved workspace changes, as long as resolving the
  argument meets no link loop.
\<close>

theorem file_write_confined:
  assumes "sandboxed env ctx ws (tfs s)"
    "\<And>a. path_arg args = Some a \<Longrightarrow> loop_free env ctx (tfs s) a"
    "file_write_run env ctx args s = (y, t)" "\<not> prefix ws q"
  shows "fmlookup (tfs t) q = fmlookup (tfs s) q"
  using assms by (rule file_write_ws.confined)

theorem file_write_confined_witness:
  "fmlookup (tfs (snd (file_write_run sample_env sample_ctx (write_args ''k/n/x'' ''hi'') (sample_st sample_fs))))
     [lit ''e'', lit ''x''] = fmlookup sample_fs [lit ''e'', lit ''x'']"
proof -
  have p: "\<not> prefix [lit ''w''] [lit ''e'', lit ''x'']" by code_simp
  have l: "loop_free sample_env sample_ctx (tfs (sample_st sample_fs)) a"
    if "path_arg (write_args ''k/n/x'' ''hi'') = Some a" for a
    using that sample_write_facts(1,4) by (simp only: option.inject)
  show ?thesis
    using file_write_confined [OF sample_sandboxed' l prod.collapse [symmetric] p] by (simp only: tfs_sample_st)
qed

text \<open>
  C40: the guard does not hold against link loops. With a link \<^verbatim>\<open>l\<close> to itself and a link \<^verbatim>\<open>s\<close> to
  \<^verbatim>\<open>/e/x\<close> in the workspace, the argument \<^verbatim>\<open>l/../s\<close> passes the check as \<^verbatim>\<open>/w/s\<close>, and the write
  follows the link and overwrites \<^verbatim>\<open>/e/x\<close>.
\<close>

theorem file_write_escape:
  "workspace_target sample_env sample_ctx (lit ''l/../s'') sample_fs = Inr (Some [lit ''w'', lit ''s'']) \<and>
   fmlookup sample_fs [lit ''e'', lit ''x''] = Some (FileN (lit ''old'')) \<and>
   fmlookup (tfs (snd (file_write_run sample_env sample_ctx (write_args ''l/../s'' ''new'') (sample_st sample_fs))))
     [lit ''e'', lit ''x''] = Some (FileN (lit ''new''))"
proof -
  define p x a new where "p = [lit ''w'', lit ''s'']" and "x = [lit ''e'', lit ''x'']"
    and "a = lit ''l/../s''" and "new = lit ''new''"
  note defs = p_def x_def a_def new_def
  have t: "workspace_target sample_env sample_ctx a (tfs (sample_st sample_fs)) = Inr (Some p)"
    and x: "fmlookup sample_fs x = Some (FileN (lit ''old''))"
    and f: "kstat sample_fs p = Found x" "kmkdir sample_fs (butlast p) = Inl EEXIST"
      "lookup_at sample_fs (butlast p) = Some DirN"
    and a: "path_arg (write_args ''l/../s'' ''new'') = Some a"
      "as_str (dget (write_args ''l/../s'' ''new'') ''content'') = Some new"
    and e: "utf8_encode new = Inr new"
    unfolding tfs_sample_st defs by code_simp+
  have ok: "kernel_ok sample_env" by (rule sample_ok)
  define v where "v = (sample_st sample_fs)\<lparr>tfs := fmupd x (FileN new) sample_fs\<rparr>"
  have l: "lookup_at sample_fs p = Some (FileN (lit ''old''))" using f x by (simp add: lookup_at_def)
  have mk: "mkdir_parents sample_env (butlast p) (sample_st sample_fs) = (Inr (), sample_st sample_fs)"
    using f ok by (simp add: mkdir_parents.simps os_mkdir_def unless_dir_def path_is_dir_def kernel_ok_kcall
        kernel_ok_def bindE_def ret_def)
  have wr: "write_bytes sample_env p new (sample_st sample_fs) = (Inr (), v)"
    using f x ok by (simp add: write_bytes_def kernel_ok_kcall kwrite_def eff_defs sample_env_def [THEN arg_cong, of write_fault] v_def)
  obtain n where run: "file_write_run sample_env sample_ctx (write_args ''l/../s'' ''new'') (sample_st sample_fs) =
    thenE (emit_file_mutation sample_env p (workspace sample_ctx) ''edit'' n (length new) new)
      (ret (tool_ok (lit ''file_write: wrote '' @ show_nat (length new) @ lit '' bytes to '' @ a))) v"
    using file_write_runs [OF a t] l mk wr e f x ok
    by (simp add: file_write_at_def path_exists_def st_size_def kernel_ok_kcall bindE_def thenE_def of_sum_def)
  have "keeps (\<lambda>s t. tfs t = tfs s)
      (thenE (emit_file_mutation sample_env p (workspace sample_ctx) ''edit'' n (length new) new) (ret r))" for r
    by (intro keeps_then keeps_stateless emit_file_mutation_tfs) simp_all
  then have "tfs (snd (file_write_run sample_env sample_ctx (write_args ''l/../s'' ''new'') (sample_st sample_fs))) = tfs v"
    unfolding run keeps_def by metis
  then have "fmlookup (tfs (snd (file_write_run sample_env sample_ctx (write_args ''l/../s'' ''new'')
      (sample_st sample_fs)))) x = Some (FileN new)"
    by (simp add: v_def)
  with t x show ?thesis unfolding defs tfs_sample_st by blast
qed

end
