(* ===== verification/FileEdit.thy ===== *)
theory FileEdit
  imports FileRead Samples
begin

text \<open>
  The file_edit tool (\<^verbatim>\<open>tools/file_edit.py\<close>): replace a closed range of lines, or append after
  the last line, and record a \<^verbatim>\<open>file_mutation\<close> event. Lines are those of \<^verbatim>\<open>split("\n")\<close> without the
  empty element after a final newline (\<open>nl_lines\<close>).
\<close>

section \<open>Editing text\<close>

text \<open>\<^verbatim>\<open>new_content.split("\n") if new_content else []\<close>\<close>

definition new_lines :: "pystr \<Rightarrow> pystr list" where
  "new_lines c = (if c = [] then [] else split_on nl c)"

definition edit_lines :: "pystr list \<Rightarrow> int \<Rightarrow> int \<Rightarrow> pystr \<Rightarrow> pystr list" where
  "edit_lines lines start stop c =
     (let n = int (length lines)
      in if n < start then lines @ new_lines c
         else take (nat (start - 1)) lines @ new_lines c @ drop (nat (min stop n)) lines)"

definition edited_text :: "pystr \<Rightarrow> int \<Rightarrow> int \<Rightarrow> pystr \<Rightarrow> pystr" where
  "edited_text original start stop c =
     (let t = join_with [nl] (edit_lines (nl_lines original) start stop c)
      in if ends_with nl original \<and> \<not> ends_with nl t then t @ [nl] else t)"

section \<open>The tool\<close>

definition file_edit_description :: pystr where
  "file_edit_description =
     lit ''Replace lines in a file with new content. Line numbers are 1-indexed '' @
     lit ''and the range is inclusive on both ends. Pass new_content='' @ [39, 39] @ lit '' to delete '' @
     lit ''the range. Append to EOF by setting start_line to (current line count + 1).''"

definition file_edit_schema :: json where
  "file_edit_schema = object_schema
     [(''path'', str_prop ''Workspace-relative file path.''),
      (''start_line'', line_prop ''1-indexed first line to replace (inclusive).''),
      (''end_line'', line_prop ''1-indexed last line to replace (inclusive).''),
      (''new_content'', str_prop ''Replacement text. May be empty to delete the range.'')]
     [''path'', ''start_line'', ''end_line'', ''new_content'']"

definition int_arg :: "pydict \<Rightarrow> string \<Rightarrow> int option" where
  "int_arg args k = Option.bind (dget args k) as_int"

definition show_arg :: "pydict \<Rightarrow> string \<Rightarrow> pystr" where
  "show_arg args k = (case dget args k of Some v \<Rightarrow> show_intlike v | None \<Rightarrow> [])"

definition edit_report :: "pydict \<Rightarrow> int \<Rightarrow> int \<Rightarrow> nat \<Rightarrow> nat \<Rightarrow> nat \<Rightarrow> pystr" where
  "edit_report args start stop n size_before size_after =
     lit ''file_edit: replaced lines '' @ show_arg args ''start_line'' @ lit ''-''
     @ (if start \<le> int n \<and> int n < stop then show_nat n else show_arg args ''end_line'')
     @ lit '' ('' @ show_nat size_before @ lit '' -> '' @ show_nat size_after @ lit '' bytes)''"

definition file_edit_text ::
  "'e tool_env_scheme \<Rightarrow> tool_ctx \<Rightarrow> pydict \<Rightarrow> int \<Rightarrow> int \<Rightarrow> pystr \<Rightarrow> path \<Rightarrow> nat \<Rightarrow> pystr \<Rightarrow>
     ('z tool_st_scheme, tool_result) eff" where
  "file_edit_text env ctx args start stop c target size_before original =
     (let n = length (nl_lines original)
      in if int n + 1 < start
         then ret (usage_error (lit ''file_edit: start_line '' @ show_arg args ''start_line''
                @ lit '' is past EOF (file has '' @ show_nat n @ lit '' lines). To append, use start_line=''
                @ show_nat (n + 1) @ lit ''.''))
         else if int n < start \<and> stop < start
         then ret (usage_error (lit ''file_edit: end_line '' @ show_arg args ''end_line''
                @ lit '' < start_line '' @ show_arg args ''start_line''))
         else
           bindE (of_sum (utf8_encode (edited_text original start stop c))) (\<lambda>encoded.
           thenE (write_bytes env target encoded)
          (thenE (emit_file_mutation env target (workspace ctx) ''edit'' size_before (length encoded) encoded)
          (ret (tool_ok (edit_report args start stop n size_before (length encoded)))))))"

definition file_edit_at ::
  "'e tool_env_scheme \<Rightarrow> tool_ctx \<Rightarrow> pydict \<Rightarrow> int \<Rightarrow> int \<Rightarrow> pystr \<Rightarrow> pystr \<Rightarrow> path \<Rightarrow>
     ('z tool_st_scheme, tool_result) eff" where
  "file_edit_at env ctx args start stop c a target =
     bindE (path_exists env target) (\<lambda>ex.
     if \<not> ex then ret (usage_error (lit ''file_edit: not found: '' @ a)) else
     bindE (read_bytes env target) (\<lambda>original_bytes.
     case utf8_decode original_bytes of
       Inl x \<Rightarrow> ret (usage_error (lit ''file_edit: not utf-8 decodable: '' @ exc_str x))
     | Inr original \<Rightarrow>
         file_edit_text env ctx args start stop c target (length original_bytes) original))"

definition file_edit_run ::
  "'e tool_env_scheme \<Rightarrow> tool_ctx \<Rightarrow> pydict \<Rightarrow> ('z tool_st_scheme, tool_result) eff" where
  "file_edit_run env ctx args =
     (case path_arg args of
        None \<Rightarrow> ret (usage_error (lit ''file_edit: missing '' @ quoted ''path''))
      | Some a \<Rightarrow>
          (case (int_arg args ''start_line'', int_arg args ''end_line'') of
             (Some start, Some stop) \<Rightarrow>
               (case as_str (dget args ''new_content'') of
                  None \<Rightarrow> ret (usage_error (lit ''file_edit: '' @ quoted ''new_content''
                             @ lit '' must be a string''))
                | Some c \<Rightarrow>
                    if start < 1 \<or> stop < start
                    then ret (usage_error (lit ''file_edit: invalid range start_line=''
                           @ show_arg args ''start_line'' @ lit '' end_line='' @ show_arg args ''end_line''))
                    else
                      bindE (get_target env ctx a) (\<lambda>target.
                        case target of
                          None \<Rightarrow> ret (usage_error (lit ''file_edit: path escapes workspace: '' @ a))
                        | Some p \<Rightarrow> file_edit_at env ctx args start stop c a p))
           | _ \<Rightarrow> ret (usage_error (lit ''file_edit: start_line / end_line must be integers''))))"

section \<open>The contracts\<close>

lemma file_edit_at_steps: "keeps (tool_steps env) (file_edit_at env ctx args i j c a p)"
  unfolding file_edit_at_def file_edit_text_def Let_def
  by (auto intro!: tool_step_intros split: sum.splits)

lemma file_edit_steps: "keeps (tool_steps env) (file_edit_run env ctx args)"
  unfolding file_edit_run_def
  by (auto split: option.splits
      intro!: keeps_stateless keeps_bind quiet_steps [OF get_target_frame] file_edit_at_steps)

interpretation file_edit: tool_impl env "file_edit_run env ctx" for env ctx
  by unfold_locales (rule file_edit_steps)

lemma file_edit_at_sandbox: "preserves (sandbox ws p fs0) (file_edit_at env ctx args i j c a p)"
  unfolding file_edit_at_def file_edit_text_def Let_def
  by (auto intro!: sandbox_intros split: sum.splits)

text \<open>Either the call is turned down before it touches anything, or it reaches the resolved target.\<close>

lemma file_edit_cases:
  assumes "file_edit_run env ctx args s = (y, t)"
  obtains (rejected) "t = s" "\<And>r. y = Inr r \<Longrightarrow> exit_code r = 2"
  | (accepted) a i j c p where "path_arg args = Some a" "int_arg args ''start_line'' = Some i"
      "int_arg args ''end_line'' = Some j" "as_str (dget args ''new_content'') = Some c" "1 \<le> i" "i \<le> j"
      "workspace_target env ctx a (tfs s) = Inr (Some p)" "file_edit_at env ctx args i j c a p s = (y, t)"
  using assms
  by (force simp: file_edit_run_def get_target_def bindE_def ret_def usage_error_def
      split: option.splits sum.splits prod.splits if_splits)

interpretation file_edit_ws: workspace_tool env ctx "file_edit_run env ctx" for env ctx
proof
  fix args a s p ws fs0 y t
  assume *: "path_arg args = Some a" "workspace_target env ctx a (tfs s) = Inr (Some p)"
    "sandbox ws p fs0 s" "file_edit_run env ctx args s = (y, t)"
  from *(4) show "sandbox ws p fs0 t"
  proof (cases rule: file_edit_cases)
    case rejected
    with * show ?thesis by simp
  next
    case (accepted a' i j c p')
    with * have "p' = p" by simp
    with accepted *(3) show ?thesis using preservesD [OF file_edit_at_sandbox] by blast
  qed
next
  fix args s y t
  assume "file_edit_run env ctx args s = (y, t)"
    "\<nexists>a p. path_arg args = Some a \<and> workspace_target env ctx a (tfs s) = Inr (Some p)"
  then show "tfs t = tfs s" by (cases rule: file_edit_cases) auto
qed

section \<open>Lines of the edited text\<close>

lemma nl_lines_clean: "l \<in> set (nl_lines s) \<Longrightarrow> nl \<notin> set l"
  by (auto simp: nl_lines_def dest: in_set_butlastD split_on_no_sep split: if_splits)

lemma new_lines_clean: "l \<in> set (new_lines c) \<Longrightarrow> nl \<notin> set l"
  by (auto simp: new_lines_def dest: split_on_no_sep split: if_splits)

lemma edit_lines_clean: "l \<in> set (edit_lines (nl_lines s) i j c) \<Longrightarrow> nl \<notin> set l"
  by (auto simp: edit_lines_def Let_def dest!: nl_lines_clean new_lines_clean in_set_takeD in_set_dropD
      split: if_splits)

lemma nl_lines_join:
  assumes "ls \<noteq> []" "\<And>l. l \<in> set ls \<Longrightarrow> nl \<notin> set l" "last ls \<noteq> [] \<or> length ls = 1"
  shows "nl_lines (join_with [nl] ls) = ls" "nl_lines (join_with [nl] ls @ [nl]) = ls"
    "\<not> ends_with nl (join_with [nl] ls)"
proof -
  have sp: "split_on nl (join_with [nl] ls) = ls" using assms(1,2) by (intro split_join) auto
  show e: "\<not> ends_with nl (join_with [nl] ls)"
    using ends_with_join [of ls nl] assms by (auto simp: last_in_set)
  show "nl_lines (join_with [nl] ls) = ls" using sp e by (simp add: nl_lines_def)
  have "split_on nl (join_with [nl] ls @ [nl]) = ls @ [[]]"
    using split_on_append_sep [of nl "join_with [nl] ls" "[]"] sp by simp
  then show "nl_lines (join_with [nl] ls @ [nl]) = ls" by (simp add: nl_lines_def ends_with_def)
qed

text \<open>
  The specification of an edit speaks of texts only: a text of lines with or without a final newline, the lines before the
  range, in it and after it, and the lines of the new content. Without a final newline a text of several lines
  does not end in a blank one, and the empty text has one line, as file_edit counts them.
\<close>

definition text_of :: "pystr list \<Rightarrow> bool \<Rightarrow> pystr" where
  "text_of ls final = join_with [nl] ls @ (if final then [nl] else [])"

definition single_lines :: "pystr list \<Rightarrow> bool" where
  "single_lines ls \<longleftrightarrow> (\<forall>l \<in> set ls. nl \<notin> set l)"

definition has_range ::
  "pystr \<Rightarrow> bool \<Rightarrow> pystr list \<Rightarrow> pystr list \<Rightarrow> pystr list \<Rightarrow> int \<Rightarrow> int \<Rightarrow> bool" where
  "has_range text final before inside after i j \<longleftrightarrow>
     (let ls = before @ inside @ after
      in text = text_of ls final \<and> single_lines ls \<and> ls \<noteq> [] \<and> (final \<or> last ls \<noteq> [] \<or> length ls = 1) \<and>
         i = int (length before) + 1 \<and> i \<le> j \<and> int (length (before @ inside)) = min j (int (length ls)))"

definition has_lines :: "pystr \<Rightarrow> pystr list \<Rightarrow> bool" where
  "has_lines c ls \<longleftrightarrow> c = join_with [nl] ls \<and> single_lines ls \<and> (ls = [] \<longleftrightarrow> c = [])"

lemma nl_lines_text:
  assumes "single_lines ls" "ls \<noteq> []" "final \<or> last ls \<noteq> [] \<or> length ls = 1"
  shows "nl_lines (text_of ls final) = ls \<and> ends_with nl (text_of ls final) = final"
proof (cases final)
  case True
  have "split_on nl (join_with [nl] ls) = ls" using assms(1,2) by (intro split_join) (auto simp: single_lines_def)
  then have "split_on nl (join_with [nl] ls @ [nl]) = ls @ [[]]"
    using split_on_append_sep [of nl "join_with [nl] ls" "[]"] by simp
  with True show ?thesis by (simp add: text_of_def nl_lines_def ends_with_def)
next
  case False
  with assms nl_lines_join [of ls] show ?thesis by (auto simp: text_of_def single_lines_def)
qed

lemma new_lines_join: "has_lines c ls \<Longrightarrow> new_lines c = ls"
  by (auto simp: has_lines_def new_lines_def single_lines_def intro!: split_join)

lemma edit_lines_range:
  assumes "i = int (length before) + 1" "i \<le> j"
    "int (length (before @ inside)) = min j (int (length (before @ inside @ after)))"
  shows "edit_lines (before @ inside @ after) i j c = before @ new_lines c @ after"
proof (cases "int (length (before @ inside @ after)) < i")
  case True
  with assms(1) have "length inside + length after = 0" by (simp only: length_append of_nat_add)
  then have "inside = []" "after = []" by simp_all
  with True show ?thesis by (simp add: edit_lines_def)
next
  case False
  have "take (nat (i - 1)) (before @ inside @ after) = before" using assms(1) by simp
  moreover have "drop (nat (min j (int (length (before @ inside @ after))))) (before @ inside @ after) = after"
    unfolding assms(3) [symmetric] by simp
  ultimately show ?thesis using False by (simp add: edit_lines_def Let_def)
qed

lemma join_blank_last: "length ls > 1 \<Longrightarrow> last ls = [] \<Longrightarrow> join_with [nl] ls = join_with [nl] (butlast ls) @ [nl]"
  by (induction ls rule: induct_list012) auto

lemma join_no_final:
  assumes "single_lines ls" "\<not> (length ls > 1 \<and> last ls = [])"
  shows "\<not> ends_with nl (join_with [nl] ls)"
proof (cases "ls = []")
  case False
  then have "length ls = 1 \<or> last ls \<noteq> []" using assms(2) by (cases ls) auto
  with nl_lines_join(3) [of ls] False assms(1) show ?thesis by (auto simp: single_lines_def)
qed (simp add: ends_with_def)

text \<open>Every outcome of an edit. A blank last line is taken for the final newline.\<close>

lemma edited_text_cases:
  assumes "has_range original final before inside after i j" "has_lines c new"
  shows "edited_text original i j c = (let ls = before @ new @ after
    in if length ls > 1 \<and> last ls = [] then text_of (butlast ls) True else text_of ls final)"
proof -
  let ?old = "before @ inside @ after" and ?ls = "before @ new @ after"
  note r = assms(1) [unfolded has_range_def Let_def]
  have o: "nl_lines original = ?old" "ends_with nl original = final" using r nl_lines_text [of ?old final] by auto
  have n: "new_lines c = new" by (rule new_lines_join [OF assms(2)])
  have e: "edit_lines (nl_lines original) i j c = ?ls" unfolding o n [symmetric] using r by (intro edit_lines_range) auto
  have c: "single_lines ?ls" using r assms(2) by (auto simp: single_lines_def has_lines_def)
  show ?thesis
  proof (cases "length ?ls > 1 \<and> last ?ls = []")
    case True
    with join_blank_last [of ?ls] have "join_with [nl] ?ls = join_with [nl] (butlast ?ls) @ [nl]" by blast
    with True show ?thesis by (simp add: edited_text_def e text_of_def ends_with_def)
  next
    case False
    with join_no_final [OF c False] show ?thesis by (auto simp: edited_text_def e o(2) text_of_def Let_def)
  qed
qed

text \<open>
  C28: file_edit replaces exactly the lines of the range. For a text with the lines before the range, in it (up to the
  last line of the file at most; none when appending) and after it, the edited text consists of the lines
  before, the lines of the new content and the lines after, and keeps the final newline, or its absence,
  with one exception: a blank last line of the result (of more than one line) is lost as a line and becomes the final newline.
\<close>

theorem edited_text_lines:
  assumes "has_range original final before inside after i j" "has_lines c new"
  shows "edited_text original i j c = (let ls = before @ new @ after
    in if length ls > 1 \<and> last ls = [] then text_of (butlast ls) True else text_of ls final)"
  using assms by (rule edited_text_cases)

theorem edited_text_lines_witness:
  "edited_text (lit ''a'' @ nl # lit ''b'' @ nl # lit ''c'' @ [nl]) 2 2 (lit ''X'' @ nl # lit ''Y'')
     = lit ''a'' @ nl # lit ''X'' @ nl # lit ''Y'' @ nl # lit ''c'' @ [nl]"
proof -
  have r: "has_range (lit ''a'' @ nl # lit ''b'' @ nl # lit ''c'' @ [nl]) True [lit ''a''] [lit ''b''] [lit ''c''] 2 2"
    by code_simp
  have l: "has_lines (lit ''X'' @ nl # lit ''Y'') [lit ''X'', lit ''Y'']" by code_simp
  from edited_text_lines [OF r l] show ?thesis by (simp add: text_of_def)
qed

text \<open>
  A newline-terminated file whose edit leaves a blank last line loses that line: replacing
  line 1 of \<^verbatim>\<open>a\<close> followed by a blank line yields a one-line file, because the final newline of
  the joined text is taken for the file's own.
\<close>

lemma edit_drops_blank_line:
  "nl_lines (lit ''a'' @ [nl, nl]) = [lit ''a'', []] \<and>
   edited_text (lit ''a'' @ [nl, nl]) 1 1 (lit ''A'') = lit ''A'' @ [nl] \<and>
   nl_lines (edited_text (lit ''a'' @ [nl, nl]) 1 1 (lit ''A'')) = [lit ''A'']"
  by code_simp

text \<open>
  The numbers file_read shows are not always the numbers file_edit uses: a form feed is a line
  break for \<^verbatim>\<open>splitlines\<close> and not for \<^verbatim>\<open>split("\n")\<close>, so line 2 of the display is inside line 1
  of the edit.
\<close>

lemma read_edit_diverge:
  "read_range [] (splitlines (universal_newlines (lit ''a'' @ 12 # lit ''b'' @ nl # lit ''c'')))
     = tool_ok (lit ''1: a'' @ nl # lit ''2: b'' @ nl # lit ''3: c'') \<and>
   edit_lines (nl_lines (lit ''a'' @ 12 # lit ''b'' @ nl # lit ''c'')) 2 2 (lit ''X'')
     = [lit ''a'' @ 12 # lit ''b'', lit ''X'']"
  by code_simp

section \<open>What a successful edit does\<close>

lemma file_edit_text_Inr:
  assumes wf: "wf_fs (tfs s)" and cp: "canonical (tfs s) p"
    and run: "file_edit_text env ctx args i j c p m original s = (Inr r, t)" "exit_code r = 0"
  shows "i \<le> int (length (nl_lines original)) + 1 \<and> list_all scalar (edited_text original i j c) \<and>
    tfs t = fmupd p (FileN (enc_all (edited_text original i j c))) (tfs s) \<and>
    wf_fs (tfs t) \<and> canonical (tfs t) p \<and>
    (\<exists>e. ew_log t = ew_log s @ [e] \<and> e_type e = file_mutation \<and> e_step e = ew_step s \<and>
       e_data e = mutation_data p (workspace ctx) ''edit'' m
         (length (enc_all (edited_text original i j c))) (enc_all (edited_text original i j c)))"
proof -
  let ?new = "edited_text original i j c"
  have i: "\<not> int (length (nl_lines original)) + 1 < i" "\<not> (int (length (nl_lines original)) < i \<and> j < i)"
    using run by (auto simp: file_edit_text_def Let_def ret_def usage_error_def split: if_splits)
  have "bindE (of_sum (utf8_encode ?new)) (\<lambda>encoded.
      thenE (write_bytes env p encoded)
     (thenE (emit_file_mutation env p (workspace ctx) ''edit'' m (length encoded) encoded)
     (ret (tool_ok (edit_report args i j (length (nl_lines original)) m (length encoded)))))) s = (Inr r, t)"
    using run(1) i by (simp add: file_edit_text_def Let_def)
  from this [unfolded thenE_def bindE_Inr_iff of_sum_def ret_def] obtain v w u where
    enc: "utf8_encode ?new = Inr v" and wr: "write_bytes env p v s = (Inr w, u)"
    and em: "emit_file_mutation env p (workspace ctx) ''edit'' m (length v) v u = (Inr (), t)"
    by fastforce
  have v: "v = enc_all ?new" "list_all scalar ?new" using enc by (auto simp: utf8_encode_def split: if_splits)
  have u: "u = s\<lparr>tfs := fmupd p (FileN v) (tfs s)\<rparr>" using write_bytes_Inr [OF wf cp wr] by simp
  have "sandbox [] p (tfs s) u"
    using preservesD [OF write_bytes_sandbox _ wr, of "[]" "tfs s"] wf cp by (auto simp: sandbox_def wf_fs_def)
  with emit_file_mutation_Inr [OF em] v u i show ?thesis by (auto simp: sandbox_def)
qed

lemma file_edit_Inr:
  assumes "file_edit_run env ctx args s = (Inr r, t)" "exit_code r = 0"
    and "path_arg args = Some a" "int_arg args ''start_line'' = Some i" "int_arg args ''end_line'' = Some j"
      "as_str (dget args ''new_content'') = Some c"
    and "sandboxed env ctx ws (tfs s)" "loop_free env ctx (tfs s) a"
  obtains p b original where "workspace_target env ctx a (tfs s) = Inr (Some p)" "prefix ws p"
    "canonical (tfs s) p" "fmlookup (tfs s) p = Some (FileN b)" "utf8_decode b = Inr original"
    "1 \<le> i" "i \<le> j" "file_edit_text env ctx args i j c p (length b) original s = (Inr r, t)"
  using assms(1)
proof (cases rule: file_edit_cases)
  case rejected
  with assms(2) show thesis by simp
next
  case (accepted a' i' j' c' p)
  then have eq: "a' = a" "i' = i" "j' = j" "c' = c" using assms by simp_all
  have wf: "wf_fs (tfs s)" using assms(7) by (simp add: sandboxed_def)
  note cp = target_canonical [OF assms(7,8) accepted(7) [unfolded eq]]
  from accepted(8) [unfolded eq file_edit_at_def bindE_Inr_iff] obtain ex u where
    ex: "path_exists env p s = (Inr ex, u)"
    and rest: "(if \<not> ex then ret (usage_error (lit ''file_edit: not found: '' @ a)) else
      bindE (read_bytes env p) (\<lambda>original_bytes.
      case utf8_decode original_bytes of
        Inl x \<Rightarrow> ret (usage_error (lit ''file_edit: not utf-8 decodable: '' @ exc_str x))
      | Inr original \<Rightarrow>
          file_edit_text env ctx args i j c p (length original_bytes) original)) u = (Inr r, t)"
    by blast
  have u: "u = s" using path_exists_Inr [OF wf cp(1) ex] by simp
  have ex: "ex" using rest assms(2) by (cases ex) (auto simp: ret_def usage_error_def)
  with rest u obtain b w where rd: "read_bytes env p s = (Inr b, w)"
    and rest': "(case utf8_decode b of
        Inl x \<Rightarrow> ret (usage_error (lit ''file_edit: not utf-8 decodable: '' @ exc_str x))
      | Inr original \<Rightarrow> file_edit_text env ctx args i j c p (length b) original) w = (Inr r, t)"
    by (auto simp: bindE_Inr_iff)
  have w: "w = s" "fmlookup (tfs s) p = Some (FileN b)" using read_bytes_Inr [OF cp(1) rd] by auto
  show thesis
  proof (cases "utf8_decode b")
    case (Inl x)
    with rest' assms(2) show thesis by (auto simp: ret_def usage_error_def)
  next
    case (Inr original)
    with rest' w accepted eq cp show thesis by (intro that) auto
  qed
qed

section \<open>Editing by the numbers file_read shows\<close>

text \<open>Text whose only line break is LF.\<close>

definition lf_only :: "pystr \<Rightarrow> bool" where
  "lf_only s \<longleftrightarrow> (\<forall>c \<in> set s. line_break c \<longrightarrow> c = nl)"

lemma lf_only_lines: "lf_only s \<Longrightarrow> s \<noteq> [] \<Longrightarrow> splitlines (universal_newlines s) = nl_lines s"
proof -
  assume s: "lf_only s" "s \<noteq> []"
  then have "cr \<notin> set s" by (auto simp: lf_only_def line_break_def)
  with s show ?thesis by (simp add: universal_newlines_id splitlines_nl_lines lf_only_def)
qed

lemma set_join: "x \<in> set (join_with [d] ls) \<Longrightarrow> x = d \<or> (\<exists>l \<in> set ls. x \<in> set l)"
  by (induction "[d]" ls rule: join_with.induct) auto

lemma lf_only_edited:
  assumes "lf_only original" "lf_only c"
  shows "lf_only (edited_text original i j c)"
proof -
  have o: "lf_only l" if "l \<in> set (nl_lines original)" for l
    using that assms(1) set_split_on [of l nl original]
    by (auto simp: nl_lines_def lf_only_def dest: in_set_butlastD split: if_splits)
  have n: "lf_only l" if "l \<in> set (new_lines c)" for l
    using that assms(2) set_split_on [of l nl c] by (auto simp: new_lines_def lf_only_def split: if_splits)
  have e: "lf_only l" if "l \<in> set (edit_lines (nl_lines original) i j c)" for l
    using that by (auto simp: edit_lines_def Let_def dest: o n in_set_takeD in_set_dropD split: if_splits)
  have "lf_only (join_with [nl] (edit_lines (nl_lines original) i j c))"
    using e unfolding lf_only_def by (blast dest: set_join)
  then show ?thesis by (auto simp: edited_text_def Let_def lf_only_def split: if_splits)
qed

text \<open>The lines file_read shows of the edited text.\<close>

definition shown_lines :: "bool \<Rightarrow> pystr list \<Rightarrow> pystr list" where
  "shown_lines final ls =
     (if ls = [] \<or> ls = [[]] then (if final then [[]] else [])
      else if last ls = [] then butlast ls else ls)"

lemma shown_text:
  assumes "single_lines ls" "lf_only body"
    "body = (if length ls > 1 \<and> last ls = [] then text_of (butlast ls) True else text_of ls final)"
  shows "splitlines (universal_newlines body) = shown_lines final ls"
proof (cases "ls = [] \<or> ls = [[]]")
  case True
  then have "body = (if final then [nl] else [])" using assms(3) by (auto simp: text_of_def)
  moreover have "splitlines (universal_newlines []) = []" "splitlines (universal_newlines [nl]) = [[]]" by code_simp+
  ultimately show ?thesis using True by (simp add: shown_lines_def)
next
  case False
  define ks where "ks = (if last ls = [] then butlast ls else ls)"
  define e where "e = (last ls = [] \<or> final)"
  have long: "length ls > 1" if "last ls = []" using False that by (cases ls) auto
  have body: "body = text_of ks e" using assms(3) long by (auto simp: ks_def e_def)
  have "butlast ls \<noteq> []" if "last ls = []" using long [OF that] by (cases ls rule: rev_cases) auto
  then have ks: "ks \<noteq> []" "single_lines ks" "e \<or> last ks \<noteq> []"
    using False assms(1) by (auto simp: ks_def e_def single_lines_def dest: in_set_butlastD)
  then have n: "nl_lines body = ks" "ends_with nl body = e" using nl_lines_text [OF ks(2,1), of e] body by auto
  have "body \<noteq> []"
  proof
    assume "body = []"
    with n have "ks = [[]]" "\<not> e" by (auto simp: nl_lines_def ends_with_def)
    with ks(3) show False by simp
  qed
  with lf_only_lines [OF assms(2)] n(1) False show ?thesis by (simp add: shown_lines_def ks_def)
qed

lemma shown_edited:
  assumes "has_range original final before inside after i j" "has_lines c new" "lf_only (edited_text original i j c)"
  shows "splitlines (universal_newlines (edited_text original i j c)) = shown_lines final (before @ new @ after)"
proof (rule shown_text [OF _ assms(3)])
  show "single_lines (before @ new @ after)"
    using assms(1,2) by (auto simp: single_lines_def has_lines_def has_range_def Let_def)
qed (rule edited_text_cases [OF assms(1,2), unfolded Let_def])

section \<open>An edit that nothing refuses succeeds\<close>

lemma file_edit_at_total:
  assumes k: "kernel_ok env" and w: "writer_ok env s" and wf: "wf_fs (tfs s)" and cp: "canonical (tfs s) p"
    and f: "fmlookup (tfs s) p = Some (FileN b)" "utf8_decode b = Inr original"
    and ij: "i \<le> j" "i \<le> int (length (nl_lines original)) + 1"
    and enc: "list_all scalar (edited_text original i j c)"
  shows "\<exists>t. file_edit_at env ctx args i j c a p s =
    (Inr (tool_ok (edit_report args i j (length (nl_lines original)) (length b)
       (length (enc_all (edited_text original i j c))))), t)"
proof -
  have k1: "path_exists env p s = (Inr True, s)" "read_bytes env p s = (Inr b, s)"
    using k f lookup_at_canonical [OF wf cp] kstat_present [OF wf cp]
    by (simp_all add: path_exists_def read_bytes_def kernel_ok_kcall)
  have "p \<noteq> []" using f(1) wf_fs_root [OF wf] by auto
  moreover have "fmlookup (tfs s) (butlast p) = Some DirN"
    using wf_fs_ancestor [OF wf, of "butlast p" "[last p]"] f(1) \<open>p \<noteq> []\<close> by simp
  ultimately obtain v where v: "write_bytes env p (enc_all (edited_text original i j c)) s = (Inr (), v)"
    using write_bytes_total [OF k wf cp] f(1) by fastforce
  have "same_trace s v" using write_bytes_frame v by (rule keepsD)
  then have "writer_ok env v"
    using w by (simp add: writer_ok_def same_trace_def writer_view_def)
  from emit_total [OF this] obtain e t where
    "emit env file_mutation (mutation_data p (workspace ctx) ''edit'' (length b)
       (length (enc_all (edited_text original i j c))) (enc_all (edited_text original i j c))) v = (Inr e, t)" by blast
  with k1 f v ij enc show ?thesis
    by (simp add: file_edit_at_def file_edit_text_def bindE_def thenE_def of_sum_def ret_def utf8_encode_def
        emit_file_mutation_def Let_def)
qed

lemma file_edit_runs:
  assumes "path_arg args = Some a" "int_arg args ''start_line'' = Some i" "int_arg args ''end_line'' = Some j"
    "as_str (dget args ''new_content'') = Some c" "1 \<le> i" "i \<le> j"
    "workspace_target env ctx a (tfs s) = Inr (Some p)"
  shows "file_edit_run env ctx args s = file_edit_at env ctx args i j c a p s"
  using assms by (simp add: file_edit_run_def get_target_def bindE_def)

section \<open>Properties\<close>

definition edit_args :: "string \<Rightarrow> int \<Rightarrow> int \<Rightarrow> string \<Rightarrow> pydict" where
  "edit_args p i j c = [(lit ''path'', JStr (lit p)), (lit ''start_line'', JInt i), (lit ''end_line'', JInt j),
     (lit ''new_content'', JStr (lit c))]"

definition sample_file :: path where
  "sample_file = [lit ''w'', lit ''f'']"

definition sample_body :: pystr where
  "sample_body = lit ''a'' @ nl # lit ''b'' @ [nl]"

lemma sample_edit_facts:
  "path_arg (edit_args ''f'' 2 2 ''X'') = Some (lit ''f'')"
  "int_arg (edit_args ''f'' 2 2 ''X'') ''start_line'' = Some 2"
  "int_arg (edit_args ''f'' 2 2 ''X'') ''end_line'' = Some 2"
  "as_str (dget (edit_args ''f'' 2 2 ''X'') ''new_content'') = Some (lit ''X'')"
  "loop_free sample_env sample_ctx (tfs (sample_st sample_fs)) (lit ''f'')"
  "workspace_target sample_env sample_ctx (lit ''f'') (tfs (sample_st sample_fs)) = Inr (Some sample_file)"
  "fmlookup (tfs (sample_st sample_fs)) sample_file = Some (FileN (enc_all sample_body))"
  "list_all scalar sample_body" "utf8_decode (enc_all sample_body) = Inr sample_body"
  "2 \<le> int (length (nl_lines sample_body)) + 1"
  "list_all scalar (edited_text sample_body 2 2 (lit ''X''))"
  unfolding tfs_sample_st by code_simp+

lemma sample_edit:
  obtains r t where "file_edit_run sample_env sample_ctx (edit_args ''f'' 2 2 ''X'') (sample_st sample_fs)
    = (Inr r, t)" "exit_code r = 0"
proof -
  have c: "canonical (tfs (sample_st sample_fs)) sample_file"
    by (rule target_canonical [OF sample_sandboxed' sample_edit_facts(5,6)])
  have wf: "wf_fs (tfs (sample_st sample_fs))" using sample_sandboxed' unfolding sandboxed_def by blast
  have run: "file_edit_run sample_env sample_ctx (edit_args ''f'' 2 2 ''X'') (sample_st sample_fs) =
      file_edit_at sample_env sample_ctx (edit_args ''f'' 2 2 ''X'') 2 2 (lit ''X'') (lit ''f'') sample_file
        (sample_st sample_fs)"
    by (rule file_edit_runs [OF sample_edit_facts(1-4) _ _ sample_edit_facts(6)]) simp_all
  from file_edit_at_total [OF sample_ok wf c sample_edit_facts(7,9) order_refl sample_edit_facts(10,11)]
  obtain t r where "file_edit_run sample_env sample_ctx (edit_args ''f'' 2 2 ''X'') (sample_st sample_fs)
      = (Inr (tool_ok r), t)"
    unfolding run by blast
  then show thesis by (rule that) (simp add: tool_ok_def)
qed

text \<open>
  C25: an edit that the kernel and the writer do not refuse succeeds: for an existing UTF-8 file,
  a range that starts between 1 and one past the last line, and an encodable result, file_edit
  returns its report.
\<close>

theorem file_edit_total:
  assumes "kernel_ok env" "writer_ok env s" "sandboxed env ctx ws (tfs s)" "path_arg args = Some a"
    "loop_free env ctx (tfs s) a" "int_arg args ''start_line'' = Some i" "int_arg args ''end_line'' = Some j"
    "as_str (dget args ''new_content'') = Some c" "workspace_target env ctx a (tfs s) = Inr (Some p)"
    "fmlookup (tfs s) p = Some (FileN b)" "utf8_decode b = Inr original"
    "1 \<le> i" "i \<le> j" "i \<le> int (length (nl_lines original)) + 1"
    "list_all scalar (edited_text original i j c)"
  shows "\<exists>t. file_edit_run env ctx args s =
    (Inr (tool_ok (edit_report args i j (length (nl_lines original)) (length b)
       (length (enc_all (edited_text original i j c))))), t)"
proof -
  have wf: "wf_fs (tfs s)" using assms(3) by (simp add: sandboxed_def)
  have "canonical (tfs s) p" by (rule target_canonical [OF assms(3,5,9)])
  from file_edit_at_total [OF assms(1,2) wf this assms(10,11,13-15)]
    file_edit_runs [OF assms(4,6-8,12,13,9)]
  show ?thesis by simp
qed

theorem file_edit_total_witness:
  "\<exists>t. file_edit_run sample_env sample_ctx (edit_args ''f'' 2 2 ''X'') (sample_st sample_fs) =
    (Inr (tool_ok (edit_report (edit_args ''f'' 2 2 ''X'') 2 2 (length (nl_lines sample_body))
      (length (enc_all sample_body)) (length (enc_all (edited_text sample_body 2 2 (lit ''X'')))))), t)"
  by (rule file_edit_total [OF sample_ok sample_sandboxed' sample_edit_facts(1,5,2-4,6,7,9) _ _
        sample_edit_facts(10,11)]) simp_all



text \<open>
  C16: file_edit and file_read number lines alike on text whose only line break is LF: after a
  successful edit, file_read of the same path, when nothing refuses it and the file is not too large for it, shows
  exactly the lines before the range, the lines of the new content and the lines after the range, except for a blank last line,
  which is lost, and a file without lines, of which it shows a blank line if the file had a final newline.
\<close>

theorem edit_then_read:
  assumes "file_edit_run env ctx args s = (Inr r, t)" "exit_code r = 0"
    "path_arg args = Some a" "int_arg args ''start_line'' = Some i" "int_arg args ''end_line'' = Some j"
    "as_str (dget args ''new_content'') = Some c"
    "sandboxed env ctx ws (tfs s)" "loop_free env ctx (tfs s) a"
    "workspace_target env ctx a (tfs s) = Inr (Some p)"
    "fmlookup (tfs s) p = Some (FileN (enc_all original))" "list_all scalar original"
    "lf_only original" "lf_only c"
    "has_range original final before inside after i j" "has_lines c new"
    "length (enc_all (edited_text original i j c)) \<le> MAX_FILE_BYTES"
    "\<And>op q. fs_fault env op q (tfs t) = None" "path_arg rargs = Some a"
  shows "file_read_run env ctx rargs t = (Inr (read_range rargs (shown_lines final (before @ new @ after))), t)"
proof -
  let ?new = "edited_text original i j c"
  from assms(1-8) obtain p' b orig where p: "workspace_target env ctx a (tfs s) = Inr (Some p')"
    "canonical (tfs s) p'" "fmlookup (tfs s) p' = Some (FileN b)" "utf8_decode b = Inr orig"
    "file_edit_text env ctx args i j c p' (length b) orig s = (Inr r, t)"
    by (rule file_edit_Inr)
  have eq: "p' = p" using p(1) assms(9) by simp
  then have b: "b = enc_all original" using p(3) assms(10) by simp
  have "utf8_encode original = Inr b" using b assms(11) by (simp add: utf8_encode_def)
  then have o: "orig = original" using utf8_decode_encode p(4) by fastforce
  have wf: "wf_fs (tfs s)" using assms(7) by (simp add: sandboxed_def)
  note ed = file_edit_text_Inr [OF wf p(2,5) assms(2), unfolded o eq]
  then have t: "tfs t = fmupd p (FileN (enc_all ?new)) (tfs s)" "list_all scalar ?new"
    "wf_fs (tfs t)" "canonical (tfs t) p" by blast+
  have "link_at (tfs t) = link_at (tfs s)"
    using link_at_written [OF grown_refl p(2)] eq t(1) by simp
  then have "workspace_target env ctx a (tfs t) = Inr (Some p)"
    by (rule workspace_target_links [OF assms(7-9)])
  then have "file_read_run env ctx rargs t = file_read_at env rargs a p t"
    using assms(18) by (simp add: file_read_runs)
  also have "\<dots> = (Inr (read_range rargs (splitlines (universal_newlines ?new))), t)"
    using t assms(16,17) by (intro file_read_at_text) simp_all
  also have "splitlines (universal_newlines ?new) = shown_lines final (before @ new @ after)"
    by (rule shown_edited [OF assms(14,15) lf_only_edited [OF assms(12,13)]])
  finally show ?thesis .
qed

theorem edit_then_read_witness:
  "\<exists>t r. file_edit_run sample_env sample_ctx (edit_args ''f'' 2 2 ''X'') (sample_st sample_fs) = (Inr r, t) \<and>
     file_read_run sample_env sample_ctx [(lit ''path'', JStr (lit ''f''))] t
       = (Inr (tool_ok (lit ''1: a'' @ nl # lit ''2: X'')), t)"
proof -
  obtain r t where rt: "file_edit_run sample_env sample_ctx (edit_args ''f'' 2 2 ''X'') (sample_st sample_fs)
    = (Inr r, t)" "exit_code r = 0"
    by (rule sample_edit)
  have lf: "lf_only sample_body" "lf_only (lit ''X'')" by code_simp+
  have ls: "has_range sample_body True [lit ''a''] [lit ''b''] [] 2 2" "has_lines (lit ''X'') [lit ''X'']"
    "length (enc_all (edited_text sample_body 2 2 (lit ''X''))) \<le> MAX_FILE_BYTES"
    "path_arg [(lit ''path'', JStr (lit ''f''))] = Some (lit ''f'')"
    by code_simp+
  have fault: "fs_fault sample_env op p (tfs t) = None" for op p using sample_ok(1) by (simp add: kernel_ok_def)
  have "read_range [(lit ''path'', JStr (lit ''f''))] (shown_lines True ([lit ''a''] @ [lit ''X''] @ []))
      = tool_ok (lit ''1: a'' @ nl # lit ''2: X'')" by code_simp
  with edit_then_read [OF rt sample_edit_facts(1-4) sample_sandboxed' sample_edit_facts(5-8) lf ls(1-3) fault ls(4)] rt
  show ?thesis by metis
qed

end
