(* ===== verification/ShellTools.thy ===== *)
theory ShellTools
  imports Samples
begin

text \<open>
  The bash tool (\<^verbatim>\<open>tools/bash.py\<close>), whose command is run by the shell, a parameter, and the
  web_search stub (\<^verbatim>\<open>tools/web_search.py\<close>).
\<close>

section \<open>bash\<close>

definition bash_description :: pystr where
  "bash_description =
     lit ''Run a shell command in the agent workspace. Returns combined stdout and '' @
     lit ''stderr along with the exit code. Long-running commands are killed at '' @
     lit ''the configured timeout.''"

definition bash_schema :: json where
  "bash_schema = object_schema
     [(''command'', str_prop ''Shell command to execute. Runs under /bin/sh.'')] [''command'']"

text \<open>\<^verbatim>\<open>subprocess.run(command, shell=True, cwd=..., timeout=...)\<close>\<close>

definition subprocess_run ::
  "'e tool_env_scheme \<Rightarrow> tool_ctx \<Rightarrow> pystr \<Rightarrow> ('z tool_st_scheme, completed_process) eff" where
  "subprocess_run env ctx command = (\<lambda>s.
     let (r, fs) = sh_run env (length (ew_log s)) command (workspace ctx) (timeout_seconds ctx) (tfs s)
     in (r, s\<lparr>tfs := fs\<rparr>))"

text \<open>\<^verbatim>\<open>out = proc.stdout or ""\<close> and the combination of the two streams.\<close>

definition combined_output :: "completed_process \<Rightarrow> pystr" where
  "combined_output proc =
     (let out = (case p_stdout proc of None \<Rightarrow> [] | Some t \<Rightarrow> t);
          err = (case p_stderr proc of None \<Rightarrow> [] | Some t \<Rightarrow> t)
      in if err \<noteq> [] then (if out \<noteq> [] then out @ [nl] @ lit ''[stderr]'' @ [nl] @ err else err) else out)"

definition bash_failure :: "pystr \<Rightarrow> int \<Rightarrow> tool_result" where
  "bash_failure c code = \<lparr>content = lit ''bash: '' @ c, exit_code = code, is_error = True, truncated = False\<rparr>"

definition bash_run ::
  "'e tool_env_scheme \<Rightarrow> tool_ctx \<Rightarrow> pydict \<Rightarrow> ('z tool_st_scheme, tool_result) eff" where
  "bash_run env ctx args =
     (case as_str (dget args ''command'') of
        None \<Rightarrow> ret (bash_failure (lit ''missing or empty '' @ quoted ''command'' @ lit '' argument'') 2)
      | Some command \<Rightarrow>
          if strip command = []
          then ret (bash_failure (lit ''missing or empty '' @ quoted ''command'' @ lit '' argument'') 2)
          else
            bindE (attempt (\<lambda>x. exc_type x \<in> {TimeoutExpired, FileNotFoundError})
                    (subprocess_run env ctx command)) (\<lambda>r.
            ret (case r of
                   Inl x \<Rightarrow>
                     if exc_type x = TimeoutExpired
                     then bash_failure (lit ''command timed out after '' @ show_int (timeout_seconds ctx) @ lit ''s'') 124
                     else bash_failure (exc_str x) 127
                 | Inr proc \<Rightarrow>
                     \<lparr>content = combined_output proc, exit_code = p_returncode proc,
                      is_error = p_returncode proc \<noteq> 0, truncated = False\<rparr>)))"

lemma subprocess_run_frame: "keeps same_trace (subprocess_run env ctx c)"
  by (simp add: keeps_def subprocess_run_def same_trace_def writer_view_def split: prod.splits)

interpretation bash: tool_impl env "bash_run env ctx" for env ctx
  by unfold_locales
    (auto simp: bash_run_def split: option.splits
      intro!: keeps_intros quiet_steps subprocess_run_frame)

text \<open>
  C33: bash reports a failure exactly when something failed: the error flag is set if and only if
  the exit code is not 0, a blank command is never run, a timeout is exit code 124 and a missing
  interpreter or directory is 127.
\<close>

theorem bash_exit_codes:
  assumes "bash_run env ctx args s = (Inr r, t)"
  shows "(is_error r \<longleftrightarrow> exit_code r \<noteq> 0) \<and>
    (case as_str (dget args ''command'') of
       None \<Rightarrow> exit_code r = 2 \<and> t = s
     | Some c \<Rightarrow>
         if strip c = [] then exit_code r = 2 \<and> t = s
         else (case sh_run env (length (ew_log s)) c (workspace ctx) (timeout_seconds ctx) (tfs s) of
             (Inr proc, fs) \<Rightarrow> exit_code r = p_returncode proc \<and> content r = combined_output proc \<and> tfs t = fs
           | (Inl x, fs) \<Rightarrow> exit_code r = (if exc_type x = TimeoutExpired then 124 else 127) \<and> tfs t = fs))"
proof (cases "as_str (dget args ''command'')")
  case None
  with assms show ?thesis by (auto simp: bash_run_def bash_failure_def ret_def)
next
  case (Some c)
  obtain z fs where sh: "sh_run env (length (ew_log s)) c (workspace ctx) (timeout_seconds ctx) (tfs s) = (z, fs)" by fastforce
  with assms Some show ?thesis
    by (cases z) (auto simp: bash_run_def bash_failure_def ret_def subprocess_run_def bindE_Inr_iff
        attempt_Inr_iff split: if_splits)
qed

theorem bash_exit_codes_witness:
  "\<exists>r t. bash_run sample_env sample_ctx [(lit ''command'', JStr (lit ''ls''))] (sample_st sample_fs) = (Inr r, t) \<and>
     exit_code r = 0 \<and> \<not> is_error r \<and> content r = lit ''ls''"
proof -
  have c: "as_str (dget [(lit ''command'', JStr (lit ''ls''))] ''command'') = Some (lit ''ls'')"
    "strip (lit ''ls'') \<noteq> []" by code_simp+
  have sh: "sh_run sample_env i d w n fs = (Inr \<lparr>p_stdout = Some d, p_stderr = None, p_returncode = 0\<rparr>, fs)" for i d w n fs
    by (simp add: sample_env_def)
  obtain r t where "bash_run sample_env sample_ctx [(lit ''command'', JStr (lit ''ls''))] (sample_st sample_fs) = (Inr r, t)"
    using c by (auto simp: bash_run_def subprocess_run_def attempt_def eff_defs sh simp del: lit_Cons)
  with bash_exit_codes [OF this] c sh show ?thesis by (auto simp: combined_output_def simp del: lit_Cons)
qed

section \<open>web_search\<close>

definition web_search_description :: pystr where
  "web_search_description =
     lit ''Search the web. NOTE: this is a stub in v1 of Agent-Anvil; real '' @
     lit ''results require the recording proxy (planned for Phase 2A). Avoid '' @
     lit ''depending on this tool'' @ [39] @ lit ''s output.''"

definition web_search_schema :: json where
  "web_search_schema = object_schema [(''query'', str_prop ''Search query.'')] [''query'']"

definition web_search_run ::
  "'e tool_env_scheme \<Rightarrow> tool_ctx \<Rightarrow> pydict \<Rightarrow> ('z tool_st_scheme, tool_result) eff" where
  "web_search_run env ctx args =
     (let query = (case dget args ''query'' of None \<Rightarrow> JStr [] | Some v \<Rightarrow> v)
      in ret (tool_ok (lit ''web_search is not implemented in v1; query was: '' @ py_repr env query)))"

interpretation web_search: tool_impl env "web_search_run env ctx" for env ctx
  by unfold_locales (simp add: web_search_run_def keeps_stateless Let_def)

end
