(* ===== verification/Registry.thy ===== *)
theory Registry
  imports FileWrite FileEdit ShellTools Config
begin

text \<open>
  The tool registry (\<^verbatim>\<open>tools/registry.py\<close>): the classes by name, the instances a task gets, and
  the dispatch from an instance to its \<^verbatim>\<open>run\<close>.
\<close>

section \<open>Tool classes\<close>

datatype tool_class = BashTool | FileReadTool | FileWriteTool | FileEditTool | WebSearchTool

fun tool_name :: "tool_class \<Rightarrow> string" where
  "tool_name BashTool = ''bash''"
| "tool_name FileReadTool = ''file_read''"
| "tool_name FileWriteTool = ''file_write''"
| "tool_name FileEditTool = ''file_edit''"
| "tool_name WebSearchTool = ''web_search''"

fun class_schema :: "tool_class \<Rightarrow> json" where
  "class_schema BashTool = tool_schema ''bash'' bash_description bash_schema"
| "class_schema FileReadTool = tool_schema ''file_read'' file_read_description file_read_schema"
| "class_schema FileWriteTool = tool_schema ''file_write'' file_write_description file_write_schema"
| "class_schema FileEditTool = tool_schema ''file_edit'' file_edit_description file_edit_schema"
| "class_schema WebSearchTool = tool_schema ''web_search'' web_search_description web_search_schema"

definition registry :: "(pystr \<times> tool_class) list" where
  "registry = map (\<lambda>c. (lit (tool_name c), c))
     [BashTool, FileReadTool, FileWriteTool, FileEditTool, WebSearchTool]"

definition list_available :: "pystr list" where
  "list_available = sort (map fst registry)"

section \<open>Instances\<close>

record tool =
  tool_cls :: tool_class
  tool_context :: tool_ctx

text \<open>The \<^verbatim>\<open>for\<close> loop of \<^verbatim>\<open>build_tools\<close>: an unknown name is skipped with a warning.\<close>

fun build_tools :: "tool_spec list \<Rightarrow> (int \<Rightarrow> tool_ctx) \<Rightarrow> tool list" where
  "build_tools [] ctx_factory = []"
| "build_tools (spec # specs) ctx_factory =
     (case map_of registry (ts_name spec) of
        None \<Rightarrow> build_tools specs ctx_factory
      | Some cls \<Rightarrow>
          \<lparr>tool_cls = cls,
           tool_context = ctx_factory (case ts_timeout_seconds spec of Some t \<Rightarrow> t | None \<Rightarrow> 60)\<rparr>
          # build_tools specs ctx_factory)"

fun class_run ::
  "'e tool_env_scheme \<Rightarrow> tool_class \<Rightarrow> tool_ctx \<Rightarrow> pydict \<Rightarrow> ('z tool_st_scheme, tool_result) eff" where
  "class_run env BashTool ctx = bash_run env ctx"
| "class_run env FileReadTool ctx = file_read_run env ctx"
| "class_run env FileWriteTool ctx = file_write_run env ctx"
| "class_run env FileEditTool ctx = file_edit_run env ctx"
| "class_run env WebSearchTool ctx = web_search_run env ctx"

definition run_tool :: "'e tool_env_scheme \<Rightarrow> tool \<Rightarrow> pydict \<Rightarrow> ('z tool_st_scheme, tool_result) eff" where
  "run_tool env t args = tool_run (class_run env (tool_cls t) (tool_context t)) args"

text \<open>Whatever the class, an instance satisfies the interface of a tool.\<close>

interpretation any_tool: tool_impl env "class_run env cls ctx" for env cls ctx
  by unfold_locales
    (cases cls, simp_all add: bash.impl_steps file_read.impl_steps file_write.impl_steps
      file_edit.impl_steps web_search.impl_steps)

lemma run_tool_steps: "keeps (tool_steps env) (run_tool env t args)"
  unfolding run_tool_def [abs_def] by (rule any_tool.run_steps)

lemma run_tool_frame: "keeps tool_frame (run_tool env t args)"
  unfolding run_tool_def [abs_def] by (rule any_tool.run_frame)

lemma run_tool_invariant: "trace_invariant env P \<Longrightarrow> preserves P (run_tool env t args)"
  unfolding run_tool_def [abs_def] by (rule any_tool.run_invariant)

section \<open>What build_tools builds\<close>

lemma registry_lookup: "map_of registry n = Some c \<longleftrightarrow> n = lit (tool_name c)"
  by (cases c) (auto simp: registry_def lit_eq_iff simp del: lit_Cons)

text \<open>The five names are listed in order, and each selects its own class.\<close>

lemma list_available_names:
  "list_available = [lit ''bash'', lit ''file_edit'', lit ''file_read'', lit ''file_write'', lit ''web_search'']"
  by code_simp

text \<open>
  \<^verbatim>\<open>build_tools\<close> keeps exactly the specs whose name is registered, in order; each instance has
  the class of that name, and a context made with its own timeout or 60 seconds.
\<close>

lemma build_tools_spec:
  "map (\<lambda>t. (lit (tool_name (tool_cls t)), tool_context t)) (build_tools specs ctx_factory) =
   map (\<lambda>spec. (ts_name spec, ctx_factory (case ts_timeout_seconds spec of Some t \<Rightarrow> t | None \<Rightarrow> 60)))
     (filter (\<lambda>spec. ts_name spec \<in> set list_available) specs)"
proof (induction specs)
  case (Cons spec specs)
  have reg: "ts_name spec \<in> set list_available \<longleftrightarrow> map_of registry (ts_name spec) \<noteq> None"
    by (force simp: list_available_def map_of_eq_None_iff)
  show ?case
  proof (cases "map_of registry (ts_name spec)")
    case None
    with Cons.IH reg show ?thesis by simp
  next
    case (Some c)
    then have "ts_name spec = lit (tool_name c)" by (simp only: registry_lookup)
    with Cons.IH reg Some show ?thesis by (simp del: lit_Cons)
  qed
qed simp

end
