(* ===== verification/Client.thy ===== *)
theory Client
  imports Registry
begin

text \<open>
  The LLM clients (\<^verbatim>\<open>client/base.py\<close>, \<^verbatim>\<open>client/mock.py\<close>, \<^verbatim>\<open>client/anthropic.py\<close>): the response type,
  the scripted and echo clients, and the translation around Anthropic's \<^verbatim>\<open>messages.create\<close>, which is
  a parameter.
\<close>

section \<open>Responses\<close>

record tool_use =
  tu_id :: pystr
  tu_name :: pystr
  tu_input :: pydict

record llm_response =
  text_blocks :: "pystr list"
  tool_uses :: "tool_use list"
  stop_reason :: pystr
  input_tokens :: int
  output_tokens :: int
  response_id :: pystr
  raw :: "pydict option"

definition empty_response :: llm_response where
  "empty_response = \<lparr>text_blocks = [], tool_uses = [], stop_reason = lit ''end_turn'', input_tokens = 0,
     output_tokens = 0, response_id = [], raw = None\<rparr>"

section \<open>The Anthropic message\<close>

text \<open>Attributes read with \<^verbatim>\<open>getattr(_, name, default)\<close> are options.\<close>

record api_block =
  b_type :: "pystr option"
  b_text :: "pystr option"
  b_id :: "pystr option"
  b_name :: "pystr option"
  b_input :: "pydict option"

record api_usage =
  u_input_tokens :: "int option"
  u_output_tokens :: "int option"

record api_message =
  msg_content :: "api_block list"
  msg_usage :: "api_usage option"
  msg_stop_reason :: "pystr option"
  msg_id :: "pystr option"

text \<open>
  \<open>messages_create n kwargs\<close> is the outcome of the \<open>n\<close>-th API call; \<open>py_int\<close> and \<open>py_float\<close> are
  \<^verbatim>\<open>int(str)\<close> and \<^verbatim>\<open>float(str)\<close>, and \<open>float_repr\<close> is \<^verbatim>\<open>repr\<close> of a float.
\<close>

record llm_env = tool_env +
  messages_create :: "nat \<Rightarrow> pydict \<Rightarrow> pyexc + api_message"
  py_int :: "pystr \<Rightarrow> pyexc + int"
  py_float :: "pystr \<Rightarrow> pyexc + pyfloat"
  float_repr :: "pyfloat \<Rightarrow> pystr"

datatype client =
    ScriptedClient "llm_response list" nat
  | EchoClient
  | AnthropicClient pystr

text \<open>The client's own state, above the tools' state: the client and the number of API calls made.\<close>

record client_st = tool_st +
  llm_client :: client
  api_calls :: nat

section \<open>ScriptedClient and EchoClient\<close>

definition scripted_client :: "llm_response list \<Rightarrow> client" where
  "scripted_client responses = ScriptedClient responses 0"

definition exhausted_error :: "nat \<Rightarrow> pyexc" where
  "exhausted_error n = PyExc RuntimeError
     (lit ''ScriptedClient exhausted after '' @ show_nat n @ lit '' responses; loop tried to make another LLM call'')"

definition scripted_complete :: "llm_response list \<Rightarrow> nat \<Rightarrow> pyexc + (llm_response \<times> nat)" where
  "scripted_complete responses i =
     (if length responses \<le> i then Inl (exhausted_error i) else Inr (responses ! i, Suc i))"

text \<open>A message is a dict with a role and a content; \<^verbatim>\<open>str\<close> of content that is no string is its \<^verbatim>\<open>repr\<close>.\<close>

fun last_user :: "(json \<Rightarrow> pystr) \<Rightarrow> json list \<Rightarrow> pystr" where
  "last_user str_of [] = []"
| "last_user str_of (JObj msg # msgs) =
     (if dget msg ''role'' = Some (JStr (lit ''user''))
      then (case dget msg ''content'' of
              None \<Rightarrow> []
            | Some (JStr c) \<Rightarrow> c
            | Some v \<Rightarrow> str_of v)
      else last_user str_of msgs)"
| "last_user str_of (_ # msgs) = last_user str_of msgs"

definition echo_complete :: "(json \<Rightarrow> pystr) \<Rightarrow> json list \<Rightarrow> llm_response" where
  "echo_complete str_of messages =
     (let u = last_user str_of (rev messages)
      in empty_response\<lparr>text_blocks := [lit ''echo: '' @ u], stop_reason := lit ''end_turn'',
           input_tokens := int (length (py_words u)), output_tokens := int (length (py_words u)) + 1,
           response_id := lit ''mock-echo''\<rparr>)"

section \<open>AnthropicClient\<close>

definition no_key_error :: pyexc where
  "no_key_error = PyExc RuntimeError
     (lit ''No Anthropic API key. Set ANTHROPIC_API_KEY or pass api_key= '' @
      lit ''or set AGENT_ANVIL_API_KEY_FILE to a file containing the key.'')"

text \<open>\<^verbatim>\<open>a or b\<close> on optional strings.\<close>

definition str_or :: "pystr option \<Rightarrow> pystr option \<Rightarrow> pystr option" where
  "str_or a b = (if a = None \<or> a = Some [] then b else a)"

text \<open>\<^verbatim>\<open>AnthropicClient.__init__\<close>: the explicit key or the environment's, neither absent nor empty.\<close>

definition anthropic_client :: "pystr \<Rightarrow> pystr option \<Rightarrow> pystr option \<Rightarrow> pyexc + client" where
  "anthropic_client model api_key env_key =
     (case str_or api_key env_key of
        None \<Rightarrow> Inl no_key_error
      | Some k \<Rightarrow> if k = [] then Inl no_key_error else Inr (AnthropicClient model))"

definition param :: "(pystr \<times> pystr) list \<Rightarrow> string \<Rightarrow> pystr option" where
  "param params k = map_of params (lit k)"

definition create_kwargs ::
  "'e llm_env_scheme \<Rightarrow> pystr \<Rightarrow> pystr \<Rightarrow> json list \<Rightarrow> json list \<Rightarrow> (pystr \<times> pystr) list \<Rightarrow> pyexc + pydict" where
  "create_kwargs env model system messages tools params =
     (case py_int env (the (str_or (str_or (param params ''maxTokens'') (param params ''max_tokens''))
                              (Some (lit ''4096'')))) of
        Inl x \<Rightarrow> Inl x
      | Inr max_tokens \<Rightarrow>
          (let kwargs = [(lit ''model'', JStr model), (lit ''messages'', JList messages),
                         (lit ''max_tokens'', JInt max_tokens)]
                 @ (if system \<noteq> [] then [(lit ''system'', JStr system)] else [])
                 @ (if tools \<noteq> [] then [(lit ''tools'', JList tools)] else [])
           in case param params ''temperature'' of
                None \<Rightarrow> Inr kwargs
              | Some temp \<Rightarrow>
                  (case py_float env temp of
                     Inl x \<Rightarrow> Inl x
                   | Inr t \<Rightarrow> Inr (kwargs @ [(lit ''temperature'', JFloat t)]))))"

definition default_to :: "'a \<Rightarrow> 'a option \<Rightarrow> 'a" where
  "default_to d v = (case v of None \<Rightarrow> d | Some x \<Rightarrow> x)"

text \<open>The loop over \<^verbatim>\<open>msg.content\<close>: text blocks and tool uses, each in order.\<close>

definition block_texts :: "api_block list \<Rightarrow> pystr list" where
  "block_texts bs =
     map (\<lambda>b. default_to [] (b_text b)) (filter (\<lambda>b. b_type b = Some (lit ''text'')) bs)"

definition block_tool_uses :: "api_block list \<Rightarrow> tool_use list" where
  "block_tool_uses bs =
     map (\<lambda>b. \<lparr>tu_id = default_to [] (b_id b), tu_name = default_to [] (b_name b),
                tu_input = default_to [] (b_input b)\<rparr>)
       (filter (\<lambda>b. b_type b = Some (lit ''tool_use'')) bs)"

definition response_of :: "api_message \<Rightarrow> llm_response" where
  "response_of msg =
     \<lparr>text_blocks = block_texts (msg_content msg), tool_uses = block_tool_uses (msg_content msg),
      stop_reason = the (str_or (msg_stop_reason msg) (Some (lit ''end_turn''))),
      input_tokens = (case msg_usage msg of None \<Rightarrow> 0 | Some u \<Rightarrow> default_to 0 (u_input_tokens u)),
      output_tokens = (case msg_usage msg of None \<Rightarrow> 0 | Some u \<Rightarrow> default_to 0 (u_output_tokens u)),
      response_id = default_to [] (msg_id msg), raw = None\<rparr>"

definition anthropic_complete ::
  "'e llm_env_scheme \<Rightarrow> pystr \<Rightarrow> pystr \<Rightarrow> json list \<Rightarrow> json list \<Rightarrow> (pystr \<times> pystr) list \<Rightarrow>
     ('z client_st_scheme, llm_response) eff" where
  "anthropic_complete env model system messages tools params = (\<lambda>s.
     case create_kwargs env model system messages tools params of
       Inl x \<Rightarrow> (Inl x, s)
     | Inr kwargs \<Rightarrow>
         (map_sum id response_of (messages_create env (api_calls s) kwargs), s\<lparr>api_calls := Suc (api_calls s)\<rparr>))"

section \<open>The client protocol\<close>

definition complete ::
  "'e llm_env_scheme \<Rightarrow> pystr \<Rightarrow> json list \<Rightarrow> json list \<Rightarrow> (pystr \<times> pystr) list \<Rightarrow>
     ('z client_st_scheme, llm_response) eff" where
  "complete env system messages tools params = (\<lambda>s.
     case llm_client s of
       ScriptedClient responses i \<Rightarrow>
         (case scripted_complete responses i of
            Inl x \<Rightarrow> (Inl x, s)
          | Inr (r, i') \<Rightarrow> (Inr r, s\<lparr>llm_client := ScriptedClient responses i'\<rparr>))
     | EchoClient \<Rightarrow> (Inr (echo_complete (py_repr env) messages), s)
     | AnthropicClient model \<Rightarrow> anthropic_complete env model system messages tools params s)"

text \<open>
  What the loop relies on: a completion touches the client's own state only, so the trace, the
  files and the loop's variables are as before.
\<close>

locale llm_protocol =
  fixes ask :: "pystr \<Rightarrow> json list \<Rightarrow> json list \<Rightarrow> (pystr \<times> pystr) list \<Rightarrow>
    ('z client_st_scheme, llm_response) eff"
  assumes ask_frame: "ask system messages tools params s = (y, t) \<Longrightarrow>
    \<exists>c n. t = s\<lparr>llm_client := c, api_calls := n\<rparr>"
begin

lemma ask_log: "keeps (\<lambda>s t. writer_view t = writer_view s \<and> os_reads t = os_reads s \<and>
  ew_step t = ew_step s \<and> client_st.more t = client_st.more s) (ask system messages tools params)"
  by (rule keepsI) (auto dest!: ask_frame simp: writer_view_def)

end

interpretation llm: llm_protocol "complete env" for env
proof
  fix system messages tools params s y t
  assume "complete env system messages tools params s = (y, t)"
  moreover have "\<exists>c n. s = s\<lparr>llm_client := c, api_calls := n\<rparr>"
    by (intro exI [of _ "llm_client s"] exI [of _ "api_calls s"]) simp
  moreover have "\<exists>c n. s\<lparr>llm_client := c'\<rparr> = s\<lparr>llm_client := c, api_calls := n\<rparr>" for c'
    by (intro exI [of _ c'] exI [of _ "api_calls s"]) simp
  moreover have "\<exists>c n. s\<lparr>api_calls := n'\<rparr> = s\<lparr>llm_client := c, api_calls := n\<rparr>" for n'
    by (intro exI [of _ "llm_client s"] exI [of _ n']) simp
  ultimately show "\<exists>c n. t = s\<lparr>llm_client := c, api_calls := n\<rparr>"
    by (auto simp: complete_def anthropic_complete_def split: client.splits sum.splits)
qed

section \<open>Properties of the clients\<close>

text \<open>Repeated completions of a scripted client.\<close>

fun completions :: "'e llm_env_scheme \<Rightarrow> nat \<Rightarrow> ('z client_st_scheme, llm_response list) eff" where
  "completions env 0 = ret []"
| "completions env (Suc n) =
     bindE (complete env [] [] [] []) (\<lambda>r. bindE (completions env n) (\<lambda>rs. ret (r # rs)))"

lemma completions_from:
  assumes "llm_client s = ScriptedClient responses i" "i + n \<le> length responses"
  shows "completions env n s =
    (Inr (take n (drop i responses)), s\<lparr>llm_client := ScriptedClient responses (i + n)\<rparr>)"
  using assms
proof (induction n arbitrary: i s)
  case 0
  then show ?case by (simp add: ret_def)
next
  case (Suc n)
  let ?t = "s\<lparr>llm_client := ScriptedClient responses (Suc i)\<rparr>"
  have "complete env [] [] [] [] s = (Inr (responses ! i), ?t)"
    using Suc.prems by (simp add: complete_def scripted_complete_def)
  moreover have "completions env n ?t =
      (Inr (take n (drop (Suc i) responses)), ?t\<lparr>llm_client := ScriptedClient responses (Suc i + n)\<rparr>)"
    by (rule Suc.IH) (use Suc.prems in simp_all)
  moreover have "take (Suc n) (drop i responses) = responses ! i # take n (drop (Suc i) responses)"
    using Suc.prems(2) by (simp add: Cons_nth_drop_Suc [symmetric])
  ultimately show ?case by (simp add: bindE_def ret_def)
qed

text \<open>
  A scripted client yields its responses in order, one per call and each exactly once; the
  call after the last one raises the exhaustion error and changes nothing.
\<close>

lemma scripted_in_order:
  assumes "llm_client s = scripted_client responses"
  shows "\<exists>t. completions env (length responses) s = (Inr responses, t) \<and>
    complete env system messages tools params t = (Inl (exhausted_error (length responses)), t)"
  using completions_from [of s responses 0 "length responses" env] assms
  by (simp add: scripted_client_def complete_def scripted_complete_def)

definition sample_llm_env :: llm_env where
  "sample_llm_env = tool_env.extend sample_env
     (llm_env.fields (\<lambda>_ _. Inl no_key_error) (\<lambda>_. Inr 4096) (\<lambda>_. Inr 0) (\<lambda>_. lit ''0.0''))"

definition sample_client_st :: "client \<Rightarrow> client_st" where
  "sample_client_st c = tool_st.extend (sample_st sample_fs) (client_st.fields c 0)"

end
