(* ===== verification/Pricing.thy ===== *)
theory Pricing
  imports PyText PyFloat
begin

text \<open>
  The price table and \<^verbatim>\<open>compute_cost\<close> (\<^verbatim>\<open>pricing.py\<close>), in double precision.
\<close>

text \<open>USD per million tokens, input and output. \<^verbatim>\<open>0.80\<close> is the double nearest to 4/5.\<close>

definition PRICES :: "(pystr \<times> (pyfloat \<times> pyfloat)) list" where
  "PRICES =
     [(lit ''claude-opus-4-7'', (15, 75)),
      (lit ''claude-opus-4-6'', (15, 75)),
      (lit ''claude-sonnet-4-6'', (3, 15)),
      (lit ''claude-sonnet-4-5'', (3, 15)),
      (lit ''claude-haiku-4-5'', (fl (4 / 5), 4)),
      (lit ''scripted'', (0, 0)),
      (lit ''echo'', (0, 0))]"

definition compute_cost :: "pystr \<Rightarrow> int \<Rightarrow> int \<Rightarrow> pyfloat" where
  "compute_cost model input_tokens output_tokens =
     (case map_of PRICES model of
        None \<Rightarrow> 0
      | Some (in_price, out_price) \<Rightarrow>
          fl_div (fl_add (fl_mul (fl_of_int input_tokens) in_price)
                         (fl_mul (fl_of_int output_tokens) out_price)) 1000000)"

lemma PRICES_nonneg: "map_of PRICES m = Some (p, q) \<Longrightarrow> 0 \<le> p \<and> 0 \<le> q"
  by (drule map_of_SomeD) (auto simp: PRICES_def fl_nonneg simp del: lit_Cons)

lemma PRICES_gap: "map_of PRICES m = Some (p, q) \<Longrightarrow> (p = 0 \<or> 1 / 2 \<le> p) \<and> (q = 0 \<or> 1 / 2 \<le> q)"
proof -
  have "1 / 2 \<le> fl (4 / 5)" by code_simp
  then show "map_of PRICES m = Some (p, q) \<Longrightarrow> (p = 0 \<or> 1 / 2 \<le> p) \<and> (q = 0 \<or> 1 / 2 \<le> q)"
    using map_of_SomeD [of PRICES m "(p, q)"] by (auto simp: PRICES_def simp del: lit_Cons map_of.simps)
qed

text \<open>
  Token counts that are not negative never cost a negative amount, and a model that is not in
  the table costs 0.
\<close>

lemma compute_cost_nonneg:
  assumes "0 \<le> input_tokens" "0 \<le> output_tokens"
  shows "0 \<le> compute_cost model input_tokens output_tokens \<and>
    (map_of PRICES model = None \<longrightarrow> compute_cost model input_tokens output_tokens = 0)"
  using assms PRICES_nonneg [of model]
  by (auto simp: compute_cost_def intro!: fl_ops_nonneg split: option.splits)

text \<open>
  C36: the reported cost is within five units of relative rounding error \<open>2 ^ -53\<close> of the exact
  price of the tokens, for every model in the table and all token counts below \<open>2 ^ 1000\<close>, where no
  product overflows a double.
\<close>

theorem compute_cost_accurate:
  assumes "0 \<le> input_tokens" "0 \<le> output_tokens" "map_of PRICES model = Some (p, q)"
    "input_tokens < 2 ^ 1000" "output_tokens < 2 ^ 1000"
    "exact = (of_int input_tokens * p + of_int output_tokens * q) / 1000000"
  shows "\<bar>compute_cost model input_tokens output_tokens - exact\<bar> \<le> exact * 5 / 2 ^ 53"
proof -
  have pq: "p = 0 \<or> 1 / 2 \<le> p" "q = 0 \<or> 1 / 2 \<le> q" "0 \<le> p" "0 \<le> q"
    using PRICES_gap [OF assms(3)] PRICES_nonneg [OF assms(3)] by auto
  have int: "near 1 (of_int i) (fl_of_int i)" if "0 \<le> i" for i
    using that near_fl [of 0 "of_int i" "of_int i"]
    by (cases "i = 0") (simp_all add: near_def fl_of_int_def order_trans [of "1 / 2 ^ 29" "1 :: rat"])
  have mul: "near 2 (of_int i * r) (fl_mul (fl_of_int i) r)" "of_int i * r = 0 \<or> 1 / 2 \<le> of_int i * r"
    if "0 \<le> i" "r = 0 \<or> 1 / 2 \<le> r" for i and r :: rat
  proof -
    show g: "of_int i * r = 0 \<or> 1 / 2 \<le> of_int i * r"
    proof (cases "i = 0 \<or> r = 0")
      case False
      then have "1 * (1 / 2) \<le> of_int i * r" using that by (intro mult_mono) auto
      then show ?thesis by simp
    qed auto
    have "0 \<le> r" using that(2) by auto
    from near_scale [OF int [OF that(1)] this] g show "near 2 (of_int i * r) (fl_mul (fl_of_int i) r)"
      using near_fl [of 1 "of_int i * r" "fl_of_int i * r"] by (auto simp: fl_mul_def numeral_2_eq_2)
  qed
  define a b where "a = of_int input_tokens * p" and "b = of_int output_tokens * q"
  have ab: "a = 0 \<or> 1 / 2 \<le> a" "b = 0 \<or> 1 / 2 \<le> b" "0 \<le> a" "0 \<le> b"
    using mul(2) [OF assms(1) pq(1)] mul(2) [OF assms(2) pq(2)] assms(1,2) pq by (auto simp: a_def b_def)
  have "near 2 (a + b) (fl_mul (fl_of_int input_tokens) p + fl_mul (fl_of_int output_tokens) q)"
    unfolding a_def b_def using mul(1) [OF assms(1) pq(1)] mul(1) [OF assms(2) pq(2)] by (rule near_add)
  then have "near 3 (a + b) (fl_add (fl_mul (fl_of_int input_tokens) p) (fl_mul (fl_of_int output_tokens) q))"
    using near_fl [of 2 "a + b"] ab by (auto simp: fl_add_def numeral_3_eq_3 numeral_2_eq_2)
  from near_scale [OF this, of "1 / 1000000"]
  have "near 3 exact (fl_add (fl_mul (fl_of_int input_tokens) p) (fl_mul (fl_of_int output_tokens) q) / 1000000)"
    unfolding assms(6) by (simp add: a_def b_def)
  moreover have "exact = 0 \<or> 1 / 2 ^ 29 \<le> exact" using ab assms(6) by (auto simp: a_def [symmetric] b_def [symmetric])
  ultimately have "near 4 exact (compute_cost model input_tokens output_tokens)"
    using near_fl [of 3 exact] assms(3) by (auto simp: compute_cost_def fl_div_def eval_nat_numeral)
  moreover have "0 \<le> exact" using ab assms(6) by (simp add: a_def b_def)
  moreover have "(1 + 1 / 2 ^ 53 :: rat) ^ 4 \<le> 1 + 5 / 2 ^ 53" "1 - 5 / 2 ^ 53 \<le> (1 - 1 / 2 ^ 53 :: rat) ^ 4"
    by (simp_all add: power_numeral_even field_simps)
  ultimately have "exact * (1 - 5 / 2 ^ 53) \<le> compute_cost model input_tokens output_tokens"
    "compute_cost model input_tokens output_tokens \<le> exact * (1 + 5 / 2 ^ 53)"
    unfolding near_def by (meson mult_left_mono order_trans)+
  then show ?thesis unfolding abs_le_iff by (simp add: algebra_simps)
qed

theorem compute_cost_accurate_witness:
  "\<bar>compute_cost (lit ''claude-sonnet-4-5'') 1000000 200000 - 6\<bar> \<le> 6 * 5 / 2 ^ 53"
  by (rule compute_cost_accurate [where p = 3 and q = 15]) (simp_all add: PRICES_def)

end
