(* ===== verification/Loop.thy ===== *)
theory Loop
  imports Client Pricing
begin

text \<open>
  The agent loop (\<^verbatim>\<open>loop.py\<close>). The local variables of \<^verbatim>\<open>run\<close> that survive an exception (step, token
  and cost totals, messages, outcome) are fields of the state, so that the except branch sees the
  values they had when the exception was raised.
\<close>

section \<open>State and run configuration\<close>

definition DEFAULT_MAX_STEPS :: int where "DEFAULT_MAX_STEPS = 25"

record loop_st = client_st +
  l_step :: int
  l_in :: int
  l_out :: int
  l_cost :: pyfloat
  l_messages :: "json list"
  l_outcome :: pystr

text \<open>\<^verbatim>\<open>LoopRuntime\<close>: its event writer, clock and client are part of the state.\<close>

record loop_runtime =
  rt_task_id :: pystr
  rt_workspace :: purepath

text \<open>The values \<^verbatim>\<open>run\<close> computes from the spec before the first event.\<close>

record run_cfg =
  rc_task_id :: pystr
  rc_prompt :: pystr
  rc_system :: pystr
  rc_provider :: pystr
  rc_model :: pystr
  rc_params :: "(pystr \<times> pystr) list"
  rc_max_steps :: int
  rc_tools :: "tool list"

definition ctx_factory :: "loop_runtime \<Rightarrow> int \<Rightarrow> tool_ctx" where
  "ctx_factory rt timeout = \<lparr>workspace = rt_workspace rt, timeout_seconds = timeout\<rparr>"

definition run_config :: "agent_task_spec \<Rightarrow> loop_runtime \<Rightarrow> run_cfg" where
  "run_config spec rt =
     \<lparr>rc_task_id = rt_task_id rt, rc_prompt = prompt spec, rc_system = system_prompt spec,
      rc_provider = (case spec_model spec of Some m \<Rightarrow> m_provider m | None \<Rightarrow> []),
      rc_model = (case spec_model spec of Some m \<Rightarrow> m_name m | None \<Rightarrow> []),
      rc_params = (case spec_model spec of Some m \<Rightarrow> m_params m | None \<Rightarrow> []),
      rc_max_steps = (case spec_max_steps spec of Some n \<Rightarrow> n | None \<Rightarrow> DEFAULT_MAX_STEPS),
      rc_tools = build_tools (spec_tools spec) (ctx_factory rt)\<rparr>"

text \<open>\<^verbatim>\<open>{t.name: t for t in tools}\<close>: the last tool of a name wins.\<close>

definition tool_map :: "tool list \<Rightarrow> pystr \<rightharpoonup> tool" where
  "tool_map tools = map_of (rev (map (\<lambda>t. (lit (tool_name (tool_cls t)), t)) tools))"

definition tool_schemas :: "tool list \<Rightarrow> json list" where
  "tool_schemas tools = map (\<lambda>t. class_schema (tool_cls t)) tools"

section \<open>Hashes and messages\<close>

definition canonical_json :: "(pyfloat \<Rightarrow> pystr) \<Rightarrow> json \<Rightarrow> pyexc + pybytes" where
  "canonical_json frepr obj = utf8_encode (json_dumps frepr obj)"

definition str_dict :: "(pystr \<times> pystr) list \<Rightarrow> json" where
  "str_dict d = JObj (map (\<lambda>(k, v). (k, JStr v)) d)"

definition hash_request ::
  "(pyfloat \<Rightarrow> pystr) \<Rightarrow> pystr \<Rightarrow> json list \<Rightarrow> json list \<Rightarrow> (pystr \<times> pystr) list \<Rightarrow> pyexc + pystr" where
  "hash_request frepr system messages tools params =
     map_sum id sha256_bytes (canonical_json frepr (JObj
       [(lit ''system'', JStr system), (lit ''messages'', JList messages), (lit ''tools'', JList tools),
        (lit ''params'', str_dict params)]))"

definition tool_use_json :: "tool_use \<Rightarrow> (pystr \<times> json) list" where
  "tool_use_json t = [(lit ''id'', JStr (tu_id t)), (lit ''name'', JStr (tu_name t)), (lit ''input'', JObj (tu_input t))]"

definition hash_response :: "(pyfloat \<Rightarrow> pystr) \<Rightarrow> llm_response \<Rightarrow> pyexc + pystr" where
  "hash_response frepr resp =
     map_sum id sha256_bytes (canonical_json frepr (JObj
       [(lit ''text_blocks'', JList (map JStr (text_blocks resp))),
        (lit ''tool_uses'', JList (map (\<lambda>t. JObj (tool_use_json t)) (tool_uses resp))),
        (lit ''stop_reason'', JStr (stop_reason resp))]))"

definition build_assistant_message :: "llm_response \<Rightarrow> json" where
  "build_assistant_message resp = JObj
     [(lit ''role'', JStr (lit ''assistant'')),
      (lit ''content'', JList
         (map (\<lambda>t. JObj [(lit ''type'', JStr (lit ''text'')), (lit ''text'', JStr t)]) (text_blocks resp)
          @ map (\<lambda>t. JObj ((lit ''type'', JStr (lit ''tool_use'')) # tool_use_json t)) (tool_uses resp)))]"

definition user_message :: "json \<Rightarrow> json" where
  "user_message c = JObj [(lit ''role'', JStr (lit ''user'')), (lit ''content'', c)]"

section \<open>One tool call\<close>

definition latency_ms :: "int \<Rightarrow> int \<Rightarrow> int" where
  "latency_ms t0 t1 = max ((t1 - t0) div 1000000) 0"

definition call_start_data :: "tool_use \<Rightarrow> pydict" where
  "call_start_data tu = [(lit ''tool_name'', JStr (tu_name tu)), (lit ''args'', JObj (tu_input tu)),
     (lit ''tool_call_id'', JStr (tu_id tu))]"

definition call_end_data :: "tool_use \<Rightarrow> pystr \<Rightarrow> bool \<Rightarrow> int \<Rightarrow> int \<Rightarrow> pydict" where
  "call_end_data tu result was_truncated code latency =
     [(lit ''tool_call_id'', JStr (tu_id tu)), (lit ''result'', JStr result),
      (lit ''result_truncated'', JBool was_truncated), (lit ''exit_code'', JInt code),
      (lit ''latency_ms'', JInt latency), (lit ''result_blob_path'', JNull)]"

definition tool_result_block :: "tool_use \<Rightarrow> pystr \<Rightarrow> bool \<Rightarrow> json" where
  "tool_result_block tu c err = JObj
     [(lit ''type'', JStr (lit ''tool_result'')), (lit ''tool_use_id'', JStr (tu_id tu)),
      (lit ''content'', JStr c), (lit ''is_error'', JBool err)]"

definition not_available :: "tool_use \<Rightarrow> pystr" where
  "not_available tu = lit ''Tool not available: '' @ tu_name tu"

definition raised_text :: "tool_use \<Rightarrow> pyexc \<Rightarrow> pystr" where
  "raised_text tu exc = lit ''Tool '' @ tu_name tu @ lit '' raised '' @ class_name (exc_type exc) @ lit '': '' @ exc_str exc"

definition run_one_tool ::
  "'e llm_env_scheme \<Rightarrow> (pystr \<rightharpoonup> tool) \<Rightarrow> tool_use \<Rightarrow> ('z tool_st_scheme, json) eff" where
  "run_one_tool env tools tu =
     thenE (emit env tool_call_start (call_start_data tu))
    (bindE (monotonic_ns env) (\<lambda>t0.
     case tools (tu_name tu) of
       None \<Rightarrow>
         thenE (emit env tool_call_end (call_end_data tu (not_available tu) False 127 0))
        (ret (tool_result_block tu (not_available tu) True))
     | Some tool \<Rightarrow>
         bindE (attempt (\<lambda>_. True) (run_tool env tool (tu_input tu))) (\<lambda>r.
         bindE (monotonic_ns env) (\<lambda>t1.
         case r of
           Inl exc \<Rightarrow>
             thenE (emit env tool_call_end (call_end_data tu (raised_text tu exc) False 1 (latency_ms t0 t1)))
            (ret (tool_result_block tu (raised_text tu exc) True))
         | Inr result \<Rightarrow>
             thenE (emit env tool_call_end
                     (call_end_data tu (content result) (truncated result) (exit_code result) (latency_ms t0 t1)))
            (ret (tool_result_block tu (content result) (is_error result)))))))"

section \<open>One step\<close>

definition step_data :: "int \<Rightarrow> pydict" where
  "step_data n = [(lit ''step'', JInt n)]"

definition llm_start_data :: "run_cfg \<Rightarrow> pystr \<Rightarrow> nat \<Rightarrow> pydict" where
  "llm_start_data rc request_hash n =
     [(lit ''provider'', JStr (rc_provider rc)), (lit ''model'', JStr (rc_model rc)),
      (lit ''request_hash'', JStr request_hash), (lit ''messages_count'', JInt (int n)),
      (lit ''params'', str_dict (rc_params rc))]"

definition llm_end_data :: "pystr \<Rightarrow> pystr \<Rightarrow> llm_response \<Rightarrow> pyfloat \<Rightarrow> int \<Rightarrow> pydict" where
  "llm_end_data request_hash response_hash resp cost latency =
     [(lit ''request_hash'', JStr request_hash), (lit ''response_hash'', JStr response_hash),
      (lit ''input_tokens'', JInt (input_tokens resp)), (lit ''output_tokens'', JInt (output_tokens resp)),
      (lit ''stop_reason'', JStr (stop_reason resp)), (lit ''cost_usd'', JFloat (fl_round cost 6)),
      (lit ''latency_ms'', JInt latency)]"

definition add_usage :: "run_cfg \<Rightarrow> llm_response \<Rightarrow> 'z loop_st_scheme \<Rightarrow> 'z loop_st_scheme" where
  "add_usage rc resp s = s
     \<lparr>l_in := l_in s + input_tokens resp, l_out := l_out s + output_tokens resp,
      l_cost := fl_add (l_cost s) (compute_cost (rc_model rc) (input_tokens resp) (output_tokens resp))\<rparr>"

definition push_message :: "json \<Rightarrow> ('z loop_st_scheme, unit) eff" where
  "push_message m = modify (\<lambda>s. s\<lparr>l_messages := l_messages s @ [m]\<rparr>)"

text \<open>\<^verbatim>\<open>events.emit("agent_step_end", {"step": step}); step += 1\<close>\<close>

definition end_step :: "'e llm_env_scheme \<Rightarrow> int \<Rightarrow> ('z loop_st_scheme, unit) eff" where
  "end_step env n =
     thenE (emit env agent_step_end (step_data n))
           (modify (\<lambda>s. s\<lparr>l_step := l_step s + 1\<rparr>))"

definition final_outcome :: "pystr \<Rightarrow> pystr" where
  "final_outcome stop =
     (if stop = lit ''end_turn'' then lit ''completed''
      else if stop = lit ''max_tokens'' then lit ''failed''
      else if stop = lit ''error'' then lit ''failed''
      else lit ''completed'')"

text \<open>The LLM call of a step, up to \<^verbatim>\<open>messages.append(_build_assistant_message(resp))\<close>.\<close>

definition call_llm :: "'e llm_env_scheme \<Rightarrow> run_cfg \<Rightarrow> ('z loop_st_scheme, llm_response) eff" where
  "call_llm env rc =
     bindE (gets l_messages) (\<lambda>messages.
     bindE (of_sum (hash_request (float_repr env) (rc_system rc) messages (tool_schemas (rc_tools rc)) (rc_params rc)))
       (\<lambda>request_hash.
     thenE (emit env llm_call_start (llm_start_data rc request_hash (length messages)))
    (bindE (monotonic_ns env) (\<lambda>t0.
     bindE (complete env (rc_system rc) messages (tool_schemas (rc_tools rc)) (rc_params rc)) (\<lambda>resp.
     bindE (monotonic_ns env) (\<lambda>t1.
     thenE (modify (add_usage rc resp))
    (bindE (of_sum (hash_response (float_repr env) resp)) (\<lambda>response_hash.
     thenE (emit env llm_call_end (llm_end_data request_hash response_hash resp
              (compute_cost (rc_model rc) (input_tokens resp) (output_tokens resp)) (latency_ms t0 t1)))
    (thenE (push_message (build_assistant_message resp))
    (ret resp))))))))))"

text \<open>The loop body: \<open>True\<close> for \<^verbatim>\<open>continue\<close>, \<open>False\<close> for \<^verbatim>\<open>break\<close>.\<close>

definition loop_body :: "'e llm_env_scheme \<Rightarrow> run_cfg \<Rightarrow> ('z loop_st_scheme, bool) eff" where
  "loop_body env rc =
     bindE (gets l_step) (\<lambda>n.
     thenE (set_step n)
    (thenE (emit env agent_step_start (step_data n))
    (bindE (call_llm env rc) (\<lambda>resp.
     if stop_reason resp = lit ''tool_use'' \<and> tool_uses resp \<noteq> []
     then
       bindE (mapE (run_one_tool env (tool_map (rc_tools rc))) (tool_uses resp)) (\<lambda>results.
       thenE (push_message (user_message (JList results)))
      (thenE (end_step env n)
      (ret True)))
     else
       thenE (end_step env n)
      (thenE (modify (l_outcome_update (\<lambda>_. final_outcome (stop_reason resp))))
      (ret False))))))"

section \<open>The step counter\<close>

text \<open>Everything below the loop leaves the loop's variables alone.\<close>

definition vars :: "'z loop_st_scheme \<Rightarrow> int \<times> int \<times> int \<times> pyfloat \<times> json list \<times> pystr" where
  "vars s = (l_step s, l_in s, l_out s, l_cost s, l_messages s, l_outcome s)"

named_theorems vars_frame \<open>Operations that leave the loop's variables alone\<close>

lemma emit_vars [vars_frame]: "keeps (\<lambda>s t. vars t = vars s) (emit env ty data)"
proof (rule keepsI)
  fix s y and t :: "'z loop_st_scheme"
  assume "emit env ty data s = (y, t)"
  then have "emit_frame s t" by (rule emit_spec(1))
  then show "vars t = vars s" by (cases s; cases t) (simp add: emit_frame_def vars_def)
qed

lemma monotonic_vars [vars_frame]: "keeps (\<lambda>s t. vars t = vars s) (monotonic_ns env)"
  by (rule keepsI) (auto dest!: monotonic_ns_frame simp: vars_def)

lemma complete_vars [vars_frame]: "keeps (\<lambda>s t. vars t = vars s) (complete env system messages tools params)"
  by (rule keepsI) (auto dest!: llm.ask_frame simp: vars_def)

lemma set_step_vars [vars_frame]: "keeps (\<lambda>s t. vars t = vars s) (set_step n)"
  by (simp add: set_step_def keeps_modify vars_def)

lemma run_tool_vars [vars_frame]: "keeps (\<lambda>s t. vars t = vars s) (run_tool env tool args)"
proof (rule keepsI)
  fix s y and t :: "'z loop_st_scheme"
  assume "run_tool env tool args s = (y, t)"
  then have "tool_frame s t" by (rule keepsD [OF run_tool_frame])
  then show "vars t = vars s" by (cases s; cases t) (simp add: tool_frame_def vars_def)
qed

lemma run_one_tool_vars [vars_frame]: "keeps (\<lambda>s t. vars t = vars s) (run_one_tool env tools tu)"
  unfolding run_one_tool_def
  by (auto intro!: keeps_intros vars_frame split: option.splits sum.splits)

lemma vars_l_step: "keeps (\<lambda>s t. vars t = vars s) m \<Longrightarrow> keeps (\<lambda>s t. l_step t = l_step s) m"
  by (erule keeps_mono) (simp add: vars_def)

lemma push_message_step: "keeps (\<lambda>s t. l_step t = l_step s) (push_message m)"
  by (simp add: push_message_def keeps_modify)

lemma call_llm_step: "keeps (\<lambda>s t. l_step t = l_step s) (call_llm env rc)"
  unfolding call_llm_def
  by (intro keeps_intros vars_frame [THEN vars_l_step] push_message_step)
    (auto intro!: keeps_modify simp: add_usage_def)

text \<open>\<open>advances k m\<close>: when \<open>m\<close> returns, the step counter is \<open>k\<close> higher; when it raises, it is unchanged.\<close>

definition advances :: "int \<Rightarrow> ('z loop_st_scheme, 'a) eff \<Rightarrow> bool" where
  "advances k m \<longleftrightarrow> (\<forall>n. hoare (\<lambda>s. l_step s = n) m (\<lambda>_ s. l_step s = n + k) (\<lambda>_ s. l_step s = n))"

lemma advances_0: "keeps (\<lambda>s t. l_step t = l_step s) m \<Longrightarrow> advances 0 m"
  unfolding advances_def by (auto intro!: hoareI dest: keepsD)

lemma advancesD:
  "advances k m \<Longrightarrow> hoare (\<lambda>s. l_step s = n) m (\<lambda>_ s. l_step s = n + k) (\<lambda>_ s. l_step s = n)"
  by (simp add: advances_def)

lemma keeps_step_hoare:
  "keeps (\<lambda>s t. l_step t = l_step s) m \<Longrightarrow>
     hoare (\<lambda>s. l_step s = n) m (\<lambda>_ s. l_step s = n) (\<lambda>_ s. l_step s = n)"
  by (auto intro!: hoareI dest: keepsD)

lemma end_step_advances: "advances 1 (end_step env n)"
proof -
  have "hoare (\<lambda>s. l_step s = k) (emit env agent_step_end (step_data n)) (\<lambda>_ s. l_step s = k) (\<lambda>_ s. l_step s = k)"
    for k by (rule keeps_step_hoare [OF vars_l_step [OF emit_vars]])
  moreover have "hoare (\<lambda>s. l_step s = k) (modify (\<lambda>s. s\<lparr>l_step := l_step s + 1\<rparr>))
      (\<lambda>_ s. l_step s = k + 1) (\<lambda>_ s. l_step s = k)" for k
    by (rule hoare_pre [OF hoare_modify]) simp
  ultimately show ?thesis
    unfolding advances_def end_step_def by (intro allI hoare_then)
qed

lemma loop_body_step:
  assumes "loop_body env rc s = (y, t)"
  shows "l_step t = (case y of Inl _ \<Rightarrow> l_step s | Inr _ \<Rightarrow> l_step s + 1)"
proof -
  note z = keeps_step_hoare
  have e: "hoare (\<lambda>s. l_step s = k) (end_step env n) (\<lambda>_ s. l_step s = k + 1) (\<lambda>_ s. l_step s = k)" for k n
    by (rule advancesD [OF end_step_advances])
  have mp: "hoare (\<lambda>s. l_step s = k) (mapE (run_one_tool env tools) us) (\<lambda>_ s. l_step s = k) (\<lambda>_ s. l_step s = k)"
    for k tools us by (intro z keeps_mapE run_one_tool_vars [THEN vars_l_step]) simp_all
  have o: "hoare (\<lambda>s. l_step s = k) (modify (l_outcome_update f)) (\<lambda>_ s. l_step s = k) (\<lambda>_ s. l_step s = k')" for k k' f
    by (rule hoare_pre [OF hoare_modify]) simp
  have r: "hoare (\<lambda>s. l_step s = k) (ret v) (\<lambda>_ s. l_step s = k) E" for k v E
    by (rule hoare_pre [OF hoare_ret]) simp
  have "hoare (\<lambda>s. l_step s = k) (loop_body env rc) (\<lambda>_ s. l_step s = k + 1) (\<lambda>_ s. l_step s = k)" for k
    unfolding loop_body_def
    by (rule hoare_bind [OF z], simp add: keeps_stateless)
      (intro hoare_then [OF z [OF vars_l_step [OF set_step_vars]]] hoare_then [OF z [OF vars_l_step [OF emit_vars]]]
        hoare_bind [OF z [OF call_llm_step]] hoare_if hoare_bind [OF mp]
        hoare_then [OF z [OF push_message_step]] hoare_then [OF e] r hoare_then [OF o])
  then show ?thesis using assms by (cases y) (auto dest: hoare_InrD hoare_InlD)
qed

section \<open>The while loop\<close>

text \<open>
  \<^verbatim>\<open>while step < max_steps: ... else: outcome = "max_steps"\<close>. Each iteration that continues has
  incremented the step, so the loop terminates.
\<close>

function while_loop :: "'e llm_env_scheme \<Rightarrow> run_cfg \<Rightarrow> 'z loop_st_scheme \<Rightarrow> (pyexc + unit) \<times> 'z loop_st_scheme" where
  "while_loop env rc s =
     (if l_step s < rc_max_steps rc
      then (case loop_body env rc s of
              (Inl x, t) \<Rightarrow> (Inl x, t)
            | (Inr True, t) \<Rightarrow> while_loop env rc t
            | (Inr False, t) \<Rightarrow> (Inr (), t))
      else (Inr (), s\<lparr>l_outcome := lit ''max_steps''\<rparr>))"
  by pat_completeness auto
termination
  by (relation "measure (\<lambda>(env, rc, s). nat (rc_max_steps rc - l_step s))")
    (auto dest!: sym [of _ "loop_body _ _ _"] loop_body_step)

declare while_loop.simps [simp del]

section \<open>run\<close>

definition start_data :: "run_cfg \<Rightarrow> pydict" where
  "start_data rc =
     [(lit ''task_id'', JStr (rc_task_id rc)), (lit ''prompt'', JStr (rc_prompt rc)),
      (lit ''model'', JObj [(lit ''provider'', JStr (rc_provider rc)), (lit ''name'', JStr (rc_model rc))]),
      (lit ''tools'', JList (map (\<lambda>t. JStr (lit (tool_name (tool_cls t)))) (rc_tools rc))),
      (lit ''max_steps'', JInt (rc_max_steps rc))]"

definition init_locals :: "run_cfg \<Rightarrow> 'z loop_st_scheme \<Rightarrow> 'z loop_st_scheme" where
  "init_locals rc s = s
     \<lparr>l_messages := [user_message (JStr (rc_prompt rc))], l_in := 0, l_out := 0, l_cost := 0, l_step := 0,
      l_outcome := lit ''completed''\<rparr>"

definition done_data :: "pyfloat \<Rightarrow> pyfloat \<Rightarrow> 'z loop_st_scheme \<Rightarrow> pydict" where
  "done_data wall_start wall_end s =
     [(lit ''outcome'', JStr (l_outcome s)), (lit ''total_steps'', JInt (l_step s)),
      (lit ''total_cost_usd'', JFloat (fl_round (l_cost s) 6)),
      (lit ''total_input_tokens'', JInt (l_in s)), (lit ''total_output_tokens'', JInt (l_out s)),
      (lit ''wall_clock_seconds'', JFloat (fl_round (fl_sub wall_end wall_start) 3))]"

definition error_data :: "pyexc \<Rightarrow> pydict" where
  "error_data exc = [(lit ''type'', JStr (class_name (exc_type exc))), (lit ''message'', JStr (exc_str exc))]"

text \<open>The try statement around the loop.\<close>

definition guarded_loop :: "'e llm_env_scheme \<Rightarrow> run_cfg \<Rightarrow> ('z loop_st_scheme, unit) eff" where
  "guarded_loop env rc =
     catchE (while_loop env rc) (\<lambda>exc.
       thenE (emit env agent_error (error_data exc))
             (modify (l_outcome_update (\<lambda>_. lit ''failed''))))"

definition run :: "'e llm_env_scheme \<Rightarrow> agent_task_spec \<Rightarrow> loop_runtime \<Rightarrow> ('z loop_st_scheme, pydict) eff" where
  "run env spec rt =
     (let rc = run_config spec rt in
      thenE (set_step 0)
     (thenE (emit env agent_start (start_data rc))
     (thenE (modify (init_locals rc))
     (bindE (os_read (os_time env)) (\<lambda>wall_start.
      thenE (guarded_loop env rc)
     (bindE (os_read (os_time env)) (\<lambda>wall_end.
      bindE (gets (done_data wall_start wall_end)) (\<lambda>done.
      thenE (emit env agent_done done)
     (ret done)))))))))"

text \<open>Induction over the iterations: an invariant of the body is one of the loop.\<close>

lemma while_hoare:
  assumes body: "hoare (\<lambda>s. I s \<and> l_step s < rc_max_steps rc) (loop_body env rc)
      (\<lambda>c s. if c then I s else Q s) E"
    and out: "\<And>s. I s \<Longrightarrow> \<not> l_step s < rc_max_steps rc \<Longrightarrow> Q (s\<lparr>l_outcome := lit ''max_steps''\<rparr>)"
  shows "hoare I (while_loop env rc) (\<lambda>_. Q) E"
proof -
  have "case while_loop env rc s of (Inl x, t) \<Rightarrow> E x t | (Inr _, t) \<Rightarrow> Q t" if "I s" for s
    using that
  proof (induction "nat (rc_max_steps rc - l_step s)" arbitrary: s rule: less_induct)
    case (less s)
    show ?case
    proof (cases "l_step s < rc_max_steps rc")
      case False
      with out [OF less.prems] show ?thesis by (simp add: while_loop.simps)
    next
      case True
      obtain y t where b: "loop_body env rc s = (y, t)" by fastforce
      show ?thesis
      proof (cases y)
        case (Inl x)
        with b True less.prems hoare_InlD [OF body] show ?thesis by (simp add: while_loop.simps)
      next
        case (Inr c)
        have q: "if c then I t else Q t" using hoare_InrD [OF body _ b [unfolded Inr]] less.prems True by simp
        have "l_step t = l_step s + 1" using loop_body_step [OF b] Inr by simp
        then have "nat (rc_max_steps rc - l_step t) < nat (rc_max_steps rc - l_step s)" using True by simp
        note IH = less.hyps [OF this]
        show ?thesis using b Inr True q IH by (cases c) (simp_all add: while_loop.simps [of env rc s])
      qed
    qed
  qed
  then show ?thesis unfolding hoare_def by blast
qed

lemma while_preserves:
  assumes "preserves P (loop_body env rc)" "\<And>s v. P s \<Longrightarrow> P (s\<lparr>l_outcome := v\<rparr>)"
  shows "preserves P (while_loop env rc)"
  unfolding preserves_def
proof (rule while_hoare)
  show "hoare (\<lambda>s. P s \<and> l_step s < rc_max_steps rc) (loop_body env rc) (\<lambda>c s. if c then P s else P s) (\<lambda>_. P)"
    using assms(1) unfolding preserves_def by (auto intro: hoare_pre)
qed (rule assms(2))

end
