(* ===== verification/LoopSamples.thy ===== *)
theory LoopSamples
  imports Loop
begin

text \<open>
  A concrete run for the witnesses: the task \<^verbatim>\<open>hi\<close> with a limit of one step on the echo client. Its
  trace is computed once, with the two SHA-256 digests left as names.
\<close>

section \<open>Configuration\<close>

definition sample_loop_st :: "client \<Rightarrow> loop_st" where
  "sample_loop_st c = client_st.extend (sample_client_st c) (loop_st.fields 0 0 0 0 [] [])"

definition sample_rt :: loop_runtime where
  "sample_rt = \<lparr>rt_task_id = lit ''t'', rt_workspace = pure_path (lit ''/w'')\<rparr>"

definition sample_task :: "int \<Rightarrow> agent_task_spec" where
  "sample_task n = default_spec\<lparr>prompt := lit ''hi'', spec_max_steps := Some n\<rparr>"

text \<open>The sample environment with a serialiser of choice.\<close>

definition dumping :: "(envelope \<Rightarrow> pyexc + pystr) \<Rightarrow> llm_env" where
  "dumping dump = sample_llm_env\<lparr>model_dump_json := dump\<rparr>"

section \<open>The expected trace\<close>

definition sample_event :: "nat \<Rightarrow> event_type \<Rightarrow> pydict \<Rightarrow> envelope" where
  "sample_event k ty data = \<lparr>e_schema = SCHEMA, e_task_id = lit ''t'', e_step = 0,
     e_ts = iso_format (os_now sample_env 0), e_mono = int (Suc k), e_type = ty, e_data = data\<rparr>"

definition sample_rc :: run_cfg where "sample_rc = run_config (sample_task 1) sample_rt"

definition echo_reply :: llm_response where
  "echo_reply = echo_complete (py_repr sample_env) [user_message (JStr (lit ''hi''))]"

definition echo_request_hash :: pystr where
  "echo_request_hash = projr (hash_request (float_repr sample_llm_env) [] [user_message (JStr (lit ''hi''))] [] [])"

definition echo_response_hash :: pystr where
  "echo_response_hash = projr (hash_response (float_repr sample_llm_env) echo_reply)"

lemma hash_ok:
  "(case canonical_json f j of Inr _ \<Rightarrow> True | _ \<Rightarrow> False) \<Longrightarrow>
    \<exists>h. map_sum id sha256_bytes (canonical_json f j) = Inr h"
  by (auto split: sum.splits)

lemma echo_request:
  "hash_request (float_repr sample_llm_env) [] [user_message (JStr (lit ''hi''))] [] [] = Inr echo_request_hash"
proof -
  have "\<exists>h. hash_request (float_repr sample_llm_env) [] [user_message (JStr (lit ''hi''))] [] [] = Inr h"
    unfolding hash_request_def by (rule hash_ok) code_simp
  then show ?thesis unfolding echo_request_hash_def by auto
qed

lemma echo_response: "hash_response (float_repr sample_llm_env) echo_reply = Inr echo_response_hash"
proof -
  have "\<exists>h. hash_response (float_repr sample_llm_env) echo_reply = Inr h"
    unfolding hash_response_def by (rule hash_ok) code_simp
  then show ?thesis unfolding echo_response_hash_def by auto
qed

lemma echo_reply_fields:
  "stop_reason echo_reply = lit ''end_turn''" "tool_uses echo_reply = []"
  "input_tokens echo_reply = 1" "output_tokens echo_reply = 2"
  by code_simp+

definition echo_log :: "envelope list" where
  "echo_log =
     [sample_event 0 agent_start (start_data sample_rc),
      sample_event 3 agent_step_start (step_data 0),
      sample_event 5 llm_call_start (llm_start_data sample_rc echo_request_hash 1),
      sample_event 9 llm_call_end (llm_end_data echo_request_hash echo_response_hash echo_reply (compute_cost [] 1 2) 0),
      sample_event 11 agent_step_end (step_data 0),
      sample_event 14 agent_done
        [(lit ''outcome'', JStr (lit ''completed'')), (lit ''total_steps'', JInt 1),
         (lit ''total_cost_usd'', JFloat (fl_round (fl_add 0 (compute_cost [] 1 2)) 6)),
         (lit ''total_input_tokens'', JInt 1), (lit ''total_output_tokens'', JInt 2),
         (lit ''wall_clock_seconds'', JFloat (fl_round (fl_sub 13 2) 3))]]"

lemma sample_rc_simps:
  "run_config (sample_task 1) sample_rt = sample_rc" "rc_max_steps sample_rc = 1" "rc_system sample_rc = []"
  "rc_tools sample_rc = []" "rc_params sample_rc = []" "rc_model sample_rc = []" "rc_prompt sample_rc = lit ''hi''"
  by (simp_all add: sample_rc_def run_config_def sample_task_def default_spec_def)

lemma dumping_simps:
  "os_now (dumping dump) k = os_now sample_env 0" "os_mono (dumping dump) = int" "os_time (dumping dump) = of_nat"
  "model_dump_json (dumping dump) = dump" "fp_fault (dumping dump) = (\<lambda>_ _. None)"
  "py_repr (dumping dump) = py_repr sample_env" "float_repr (dumping dump) = float_repr sample_llm_env"
  by (simp_all add: dumping_def sample_llm_env_def sample_env_def tool_env.defs llm_env.defs fun_eq_iff)

section \<open>The run\<close>

lemma echo_run:
  assumes "\<forall>e \<in> set echo_log. \<exists>js. dump e = Inr js \<and> list_all scalar js"
  shows "\<exists>d t. run (dumping dump) (sample_task 1) sample_rt (sample_loop_st EchoClient) = (Inr d, t) \<and>
    ew_log t = echo_log \<and> ew_torn t = None"
proof -
  obtain j0 j1 j2 j3 j4 j5 where
    "dump (echo_log ! 0) = Inr j0 \<and> list_all scalar j0" "dump (echo_log ! 1) = Inr j1 \<and> list_all scalar j1"
    "dump (echo_log ! 2) = Inr j2 \<and> list_all scalar j2" "dump (echo_log ! 3) = Inr j3 \<and> list_all scalar j3"
    "dump (echo_log ! 4) = Inr j4 \<and> list_all scalar j4" "dump (echo_log ! 5) = Inr j5 \<and> list_all scalar j5"
    using assms by (auto simp: echo_log_def)
  then show ?thesis
    by (simp add: run_def Let_def sample_rc_simps guarded_loop_def while_loop.simps loop_body_def call_llm_def end_step_def
        sample_loop_st_def sample_client_st_def sample_st_def client_st.defs loop_st.defs tool_st.defs
        thenE_def bindE_def ret_def modify_def gets_def catchE_def set_step_def emit_system mk_envelope_def dumping_simps
        echo_log_def sample_event_def os_read_def monotonic_ns_def init_locals_def complete_def of_sum_def
        echo_request echo_response echo_reply_fields echo_reply_def [symmetric] add_usage_def push_message_def
        tool_schemas_def latency_ms_def done_data_def final_outcome_def del: lit_Cons)
qed

lemma sample_loop_st_fields [simp]:
  "ew_log (sample_loop_st c) = []" "ew_file (sample_loop_st c) = []" "ew_buf (sample_loop_st c) = []"
  "ew_torn (sample_loop_st c) = None" "ew_echo (sample_loop_st c) = None"
  "clk (sample_loop_st c) = SystemClock" "tfs (sample_loop_st c) = sample_fs"
  by (simp_all add: sample_loop_st_def sample_client_st_def sample_st_def client_st.defs loop_st.defs tool_st.defs)

section \<open>A serialiser for the trace\<close>

text \<open>Each event of the trace has a line of its own; other events are refused.\<close>

definition sample_lines :: "pystr list" where
  "sample_lines = [lit ''{0}'', lit ''{1}'', lit ''{2}'', lit ''{3}'', lit ''{4}'', lit ''{5}'']"

definition sample_dump :: "envelope \<Rightarrow> pyexc + pystr" where
  "sample_dump e = (case map_of (zip echo_log sample_lines) e of
     None \<Rightarrow> Inl (PyExc ValueError []) | Some l \<Rightarrow> Inr l)"

definition sample_load :: "pystr \<Rightarrow> pyexc + envelope" where
  "sample_load l = (case map_of (zip sample_lines echo_log) l of
     None \<Rightarrow> Inl (PyExc ValueError []) | Some e \<Rightarrow> Inr e)"

lemma sample_lengths: "length sample_lines = 6" "length echo_log = 6"
  by (simp_all add: sample_lines_def echo_log_def)

lemma sample_dump_line:
  assumes "sample_dump e = Inr l"
  shows "\<exists>i < 6. e = echo_log ! i \<and> l = sample_lines ! i"
proof -
  have "(e, l) \<in> set (zip echo_log sample_lines)"
    using assms by (auto simp: sample_dump_def split: option.splits dest: map_of_SomeD)
  then show ?thesis by (auto simp: set_zip sample_lengths)
qed

lemma sample_load_line: "i < 6 \<Longrightarrow> sample_load (sample_lines ! i) = Inr (echo_log ! i)"
proof -
  have "map_of (zip sample_lines xs) (sample_lines ! i) = Some (xs ! i)" if "i < 6" "length xs = 6" for xs :: "envelope list"
  proof (rule map_of_is_SomeI)
    show "distinct (map fst (zip sample_lines xs))" using that by (simp add: sample_lines_def lit_eq_iff del: lit_Cons)
    show "(sample_lines ! i, xs ! i) \<in> set (zip sample_lines xs)"
      using that by (auto simp: set_zip sample_lines_def simp del: lit_Cons)
  qed
  moreover assume "i < 6"
  ultimately show ?thesis by (simp add: sample_load_def echo_log_def)
qed

lemma sample_lines_ok:
  "list_all (\<lambda>l. l \<noteq> [] \<and> nl \<notin> set l \<and> cr \<notin> set l \<and> \<not> is_space (hd l) \<and> \<not> is_space (last l) \<and> list_all scalar l)
     sample_lines"
  by code_simp

lemma sample_dumps: "\<forall>e \<in> set echo_log. \<exists>js. sample_dump e = Inr js \<and> list_all scalar js"
proof
  fix e assume "e \<in> set echo_log"
  moreover have "map fst (zip echo_log sample_lines) = echo_log" by (simp add: echo_log_def sample_lines_def)
  ultimately obtain l where "sample_dump e = Inr l"
    by (cases "map_of (zip echo_log sample_lines) e") (auto simp: sample_dump_def map_of_eq_None_iff simp flip: set_map)
  moreover from sample_dump_line [OF this] have "l \<in> set sample_lines" using nth_mem [of _ sample_lines] by (auto simp: sample_lengths)
  ultimately show "\<exists>js. sample_dump e = Inr js \<and> list_all scalar js"
    using sample_lines_ok by (auto simp: list_all_iff)
qed

lemma sample_codec: "json_lines sample_dump sample_load"
proof -
  have "sample_lines ! i \<in> set sample_lines" if "i < 6" for i
    using that nth_mem [of i sample_lines] by (simp add: sample_lengths)
  then show ?thesis
    using sample_lines_ok unfolding json_lines_def list_all_iff by (auto dest!: sample_dump_line simp: sample_load_line)
qed

lemmas sample_run = echo_run [OF sample_dumps]

end
