(* ===== verification/LoopTrace.thy ===== *)
theory LoopTrace
  imports LoopSamples
begin

text \<open>
  Every trace invariant survives a whole run: the loop touches the trace only through the writer,
  the tools and the clock. What the invariants say of a finished (or aborted) run follows.
\<close>

section \<open>Runs keep every trace invariant\<close>

locale loop_invariant = trace_invariant env P
  for env :: "'e llm_env_scheme" and P :: "'z loop_st_scheme \<Rightarrow> bool"
begin

lemma complete_keeps: "preserves P (complete env system messages tools params)"
  by (rule keeps_view, rule keeps_mono [OF llm.ask_log]) simp

lemma locals_keep:
  "preserves P (push_message m)" "preserves P (modify (add_usage rc resp))"
  "preserves P (modify (\<lambda>s. s\<lparr>l_step := l_step s + 1\<rparr>))" "preserves P (modify (l_outcome_update f))"
  "preserves P (modify (init_locals rc))"
  by (rule keeps_view,
      auto intro!: keeps_modify simp: push_message_def add_usage_def init_locals_def writer_view_def)+

lemma run_tool_keeps: "preserves P (run_tool env tool args)"
  by (rule run_tool_invariant) (rule trace_invariant_axioms)

lemmas inv_intros = preserves_intros emit_keeps clock_reads_keep locals_keep set_step_keeps complete_keeps
  run_tool_keeps

lemma run_one_tool_keeps: "preserves P (run_one_tool env tools tu)"
  unfolding run_one_tool_def by (auto intro!: inv_intros split: option.splits sum.splits)

lemma loop_body_keeps: "preserves P (loop_body env rc)"
  unfolding loop_body_def call_llm_def end_step_def
  by (intro inv_intros run_one_tool_keeps)

lemma run_keeps: "preserves P (run env spec rt)"
proof -
  have "preserves P (while_loop env rc)" for rc
    by (rule while_preserves [OF loop_body_keeps]) (erule view_only, simp_all add: writer_view_def)
  then show ?thesis
    unfolding run_def Let_def guarded_loop_def by (intro inv_intros)
qed

end

interpretation run_envelopes: loop_invariant env "envelopes_ok :: 'z loop_st_scheme \<Rightarrow> bool"
  for env :: "'e llm_env_scheme"
  by (intro loop_invariant.intro envelopes.trace_invariant_axioms)

interpretation run_file: loop_invariant env "file_ok env :: 'z loop_st_scheme \<Rightarrow> bool"
  for env :: "'e llm_env_scheme"
  by (intro loop_invariant.intro trace_file.trace_invariant_axioms)

interpretation run_order: loop_invariant env
  "\<lambda>s :: 'z loop_st_scheme. mono (os_mono env) \<longrightarrow> ordered env s" for env :: "'e llm_env_scheme"
  by (intro loop_invariant.intro event_order.trace_invariant_axioms)

interpretation run_replay: loop_invariant env "replaying pairs :: 'z loop_st_scheme \<Rightarrow> bool"
  for env :: "'e llm_env_scheme" and pairs
  by (intro loop_invariant.intro replay_stamps.trace_invariant_axioms)

section \<open>Properties of a run's trace\<close>

text \<open>A loop state whose trace starts empty, as \<^verbatim>\<open>EventWriter\<close> opens it on a new file.\<close>

definition fresh :: "'z loop_st_scheme \<Rightarrow> bool" where
  "fresh s \<longleftrightarrow> ew_file s = [] \<and> ew_buf s = [] \<and> ew_torn s = None \<and> ew_log s = []"

lemma fresh_file_ok: "fresh s \<Longrightarrow> file_ok env s"
  by (auto simp: fresh_def file_ok_def lines_ok_def whole_def jsonl_def intro!: exI [of _ "[]"])

text \<open>
  C4: whatever happens in a run (tool failures, LLM failures, an exception that escapes, writes of the trace that fail and
  part of a line behind, in the file or in the buffer), the bytes the writer has put into its file begin with the UTF-8 text of
  the events written before the first such write, and reading that text back yields exactly these events, in order, each with
  the schema name and the task's id. If no failed write has left anything behind (\<open>ew_torn\<close> is \<open>None\<close>), these are all
  events of the run and nothing else is in the file.
  (This is about what the writer does to the file; \<open>main_leaves_one_run\<close> has conditions under which no tool changes it.)
\<close>

theorem run_trace_round_trip:
  assumes "json_lines (model_dump_json env) load" "fresh s" "run env spec rt s = (y, t)"
  shows "(\<exists>written rest. ew_file t = enc_all written @ rest \<and> utf8_decode (enc_all written) = Inr written \<and>
      read_events load written = Inr (whole t) \<and> (ew_torn t = None \<longrightarrow> rest = [] \<and> whole t = ew_log t)) \<and>
    list_all (\<lambda>e. e_schema e = SCHEMA \<and> e_task_id e = ew_task_id t) (ew_log t)"
proof -
  have "file_ok env s" "envelopes_ok s" using assms(2) fresh_file_ok by (simp_all add: fresh_def envelopes_ok_def)
  then have "file_ok env t" "envelopes_ok t"
    using run_file.run_keeps run_envelopes.run_keeps assms(3) by (blast dest: preservesD)+
  then show ?thesis using read_back [OF assms(1)] by (simp add: envelopes_ok_def list_all_iff)
qed

lemma sample_fresh: "fresh (sample_loop_st c)"
  by (simp add: fresh_def)

theorem run_trace_round_trip_witness:
  "\<exists>d t written. run (dumping sample_dump) (sample_task 1) sample_rt (sample_loop_st EchoClient) = (Inr d, t) \<and>
     length (ew_log t) = 6 \<and> ew_file t = enc_all written \<and> read_events sample_load written = Inr (ew_log t)"
proof -
  obtain d t where r: "run (dumping sample_dump) (sample_task 1) sample_rt (sample_loop_st EchoClient) = (Inr d, t)"
    and l: "ew_log t = echo_log" "ew_torn t = None" using sample_run by blast
  have "json_lines (model_dump_json (dumping sample_dump)) sample_load" by (simp add: dumping_simps sample_codec)
  from run_trace_round_trip [OF this sample_fresh r] r l show ?thesis by (auto simp: sample_lengths)
qed

text \<open>
  C29: on the system clock, whose monotonic readings do not decrease, the events of a run are in
  the order of their \<^verbatim>\<open>monotonic_ns\<close> stamps.
\<close>

theorem run_trace_ordered:
  assumes "mono (os_mono env)" "clk s = SystemClock" "fresh s" "run env spec rt s = (y, t)"
  shows "sorted (map e_mono (ew_log t))"
proof -
  have "mono (os_mono env) \<longrightarrow> ordered env s" using assms(2,3) by (simp add: ordered_def fresh_def)
  then have "mono (os_mono env) \<longrightarrow> ordered env t"
    using run_order.run_keeps [where env = env] assms(4) by (blast dest: preservesD)
  with assms(1) show ?thesis by (simp add: ordered_def)
qed

theorem run_trace_ordered_witness:
  "\<exists>d t. run (dumping sample_dump) (sample_task 1) sample_rt (sample_loop_st EchoClient) = (Inr d, t) \<and>
     length (ew_log t) = 6 \<and> sorted (map e_mono (ew_log t))"
proof -
  obtain d t where r: "run (dumping sample_dump) (sample_task 1) sample_rt (sample_loop_st EchoClient) = (Inr d, t)"
    and l: "ew_log t = echo_log" using sample_run by blast
  have m: "mono (os_mono (dumping sample_dump))" by (simp add: dumping_simps mono_def)
  from run_trace_ordered [OF m _ sample_fresh r] r l show ?thesis by (simp add: sample_lengths)
qed

text \<open>
  Replay reproduces the recording's time stamps: under a replay clock the events of a run carry
  the recorded pairs one by one in order, and never more events than were recorded are written.
\<close>

lemma run_replays_stamps:
  assumes "clk s = replay_clock pairs" "ew_echo s = None" "fresh s" "run env spec rt s = (y, t)"
  shows "map time_stamp (ew_log t) = take (length (ew_log t)) pairs \<and> length (ew_log t) \<le> length pairs"
proof -
  have "replaying pairs s" using assms(1-3) by (simp add: replaying_def replay_clock_def fresh_def)
  then have "replaying pairs t" using run_replay.run_keeps assms(4) by (blast dest: preservesD)
  then show ?thesis using replaying_length by (auto simp: replaying_def)
qed

text \<open>
  A replay clock with nothing left to replay makes \<^verbatim>\<open>run\<close> raise \<^verbatim>\<open>IndexError\<close> at once, with nothing
  written: neither agent_start nor agent_error nor agent_done, and not the \<^verbatim>\<open>RuntimeError\<close> that
  \<^verbatim>\<open>ReplayClock\<close> reserves for this case.
\<close>

lemma run_replay_exhausted:
  assumes "clk s = ReplayClock pairs i" "length pairs \<le> i"
  shows "run env spec rt s = (Inl index_error, s\<lparr>ew_step := 0\<rparr>)"
proof -
  have "clk (s\<lparr>ew_step := 0\<rparr>) = ReplayClock pairs i" using assms(1) by simp
  from replay_exhausted(1) [OF this assms(2), of env] show ?thesis
    by (simp add: run_def Let_def thenE_def bindE_def set_step_def modify_def emit_def)
qed

end
