(* ===== verification/Protocol.thy ===== *)
theory Protocol
  imports LoopTrace
begin

text \<open>
  The event protocol of INTERFACES.md as a state machine over envelopes, and the proof that the
  trace of every run of the loop is a path of it, whatever the tools, the LLM client and the
  operating system do.
\<close>

section \<open>The state machine\<close>

text \<open>
  Between the events of a run: the number of the current (or next) step, and the input and output
  tokens reported so far. \<open>InTool\<close> also has the id of the open tool call.
\<close>

datatype phase =
    Start
  | Ready int int int
  | Stepping int int int
  | Calling int int int
  | Called int int int
  | InTool int int int pystr
  | Errored
  | Done

fun active :: "phase \<Rightarrow> bool" where
  "active Start = False"
| "active Errored = False"
| "active Done = False"
| "active _ = True"

inductive trace_step :: "phase \<Rightarrow> envelope \<Rightarrow> phase \<Rightarrow> bool" where
  start: "e_type e = agent_start \<Longrightarrow> e_step e = 0 \<Longrightarrow> trace_step Start e (Ready 0 0 0)"
| step_start: "e_type e = agent_step_start \<Longrightarrow> e_step e = n \<Longrightarrow> dget (e_data e) ''step'' = Some (JInt n) \<Longrightarrow>
    trace_step (Ready n i j) e (Stepping n i j)"
| call_start: "e_type e = llm_call_start \<Longrightarrow> e_step e = n \<Longrightarrow> trace_step (Stepping n i j) e (Calling n i j)"
| call_end: "e_type e = llm_call_end \<Longrightarrow> e_step e = n \<Longrightarrow> dget (e_data e) ''input_tokens'' = Some (JInt a) \<Longrightarrow>
    dget (e_data e) ''output_tokens'' = Some (JInt b) \<Longrightarrow>
    trace_step (Calling n i j) e (Called n (i + a) (j + b))"
| tool_start: "e_type e = tool_call_start \<Longrightarrow> e_step e = n \<Longrightarrow> dget (e_data e) ''tool_call_id'' = Some (JStr c) \<Longrightarrow>
    trace_step (Called n i j) e (InTool n i j c)"
| mutation: "e_type e = file_mutation \<Longrightarrow> e_step e = n \<Longrightarrow> trace_step (InTool n i j c) e (InTool n i j c)"
| tool_end: "e_type e = tool_call_end \<Longrightarrow> e_step e = n \<Longrightarrow> dget (e_data e) ''tool_call_id'' = Some (JStr c) \<Longrightarrow>
    trace_step (InTool n i j c) e (Called n i j)"
| step_end: "e_type e = agent_step_end \<Longrightarrow> e_step e = n \<Longrightarrow> dget (e_data e) ''step'' = Some (JInt n) \<Longrightarrow>
    trace_step (Called n i j) e (Ready (n + 1) i j)"
| crash: "e_type e = agent_error \<Longrightarrow> active p \<Longrightarrow> trace_step p e Errored"
| finish: "e_type e = agent_done \<Longrightarrow> e_step e = max 0 (n - 1) \<Longrightarrow> dget (e_data e) ''total_steps'' = Some (JInt n) \<Longrightarrow>
    dget (e_data e) ''total_input_tokens'' = Some (JInt i) \<Longrightarrow>
    dget (e_data e) ''total_output_tokens'' = Some (JInt j) \<Longrightarrow> trace_step (Ready n i j) e Done"
| fail: "e_type e = agent_done \<Longrightarrow> dget (e_data e) ''outcome'' = Some (JStr (lit ''failed'')) \<Longrightarrow>
    trace_step Errored e Done"

inductive trace_path :: "phase \<Rightarrow> envelope list \<Rightarrow> phase \<Rightarrow> bool" where
  empty: "trace_path p [] p"
| snoc: "trace_path p es q \<Longrightarrow> trace_step q e r \<Longrightarrow> trace_path p (es @ [e]) r"

inductive_cases trace_step_DoneE: "trace_step p e Done"
inductive_cases trace_step_fromE: "trace_step Done e q"

section \<open>Conformance as an assertion\<close>

text \<open>The events logged since \<open>L\<close> lead to phase \<open>p\<close>; an \<open>open_run\<close> may still report an error.\<close>

definition conforms :: "envelope list \<Rightarrow> phase \<Rightarrow> 'z writer_st_scheme \<Rightarrow> bool" where
  "conforms L p s \<longleftrightarrow> (\<exists>es. ew_log s = L @ es \<and> trace_path Start es p)"

definition in_phase :: "envelope list \<Rightarrow> phase \<Rightarrow> int \<Rightarrow> 'z writer_st_scheme \<Rightarrow> bool" where
  "in_phase L p k s \<longleftrightarrow> conforms L p s \<and> ew_step s = k"

definition open_run :: "envelope list \<Rightarrow> 'z writer_st_scheme \<Rightarrow> bool" where
  "open_run L s \<longleftrightarrow> (\<exists>p. active p \<and> conforms L p s)"

lemma in_phase_open: "in_phase L p k s \<Longrightarrow> active p \<Longrightarrow> open_run L s"
  by (auto simp: in_phase_def open_run_def)

lemma conforms_snoc:
  "conforms L p s \<Longrightarrow> ew_log t = ew_log s @ [e] \<Longrightarrow> trace_step p e q \<Longrightarrow> conforms L q t"
  unfolding conforms_def by (metis append.assoc trace_path.snoc)

lemma conforms_log: "conforms L p s \<Longrightarrow> ew_log t = ew_log s \<Longrightarrow> conforms L p t"
  by (simp add: conforms_def)

text \<open>One emit moves along one transition, or raises before or after the event was written.\<close>

lemma emit_conforms:
  assumes "\<And>e. e_type e = ty \<Longrightarrow> e_step e = k \<Longrightarrow> e_data e = data \<Longrightarrow> trace_step p e q"
  shows "hoare (in_phase L p k) (emit env ty data) (\<lambda>_. in_phase L q k) (\<lambda>_ s. conforms L p s \<or> conforms L q s)"
proof (rule emitter.sink_hoare)
  fix s t e
  assume s: "in_phase L p k s" "stamped s ty data e" "emit_frame s t" "ew_log t = ew_log s @ [e]"
  then have st: "trace_step p e q" by (intro assms) (auto simp: stamped_def mk_envelope_def in_phase_def)
  with s show "in_phase L q k t" by (auto simp: in_phase_def emit_frame_def intro: conforms_snoc)
next
  fix s t e and x :: pyexc
  assume s: "in_phase L p k s" "stamped s ty data e" "emit_frame s t" "ew_log t = ew_log s @ [e]"
  then have st: "trace_step p e q" by (intro assms) (auto simp: stamped_def mk_envelope_def in_phase_def)
  with s show "conforms L p t \<or> conforms L q t" by (auto simp: in_phase_def intro: conforms_snoc)
next
  fix s t and x :: pyexc
  assume "in_phase L p k s" "ew_log t = ew_log s"
  then show "conforms L p t \<or> conforms L q t" by (auto simp: in_phase_def intro: conforms_log)
qed

lemma emit_moves:
  assumes "\<And>e. e_type e = ty \<Longrightarrow> e_step e = k \<Longrightarrow> e_data e = data \<Longrightarrow> trace_step p e q" "active p" "active q"
  shows "hoare (in_phase L p k) (emit env ty data) (\<lambda>_. in_phase L q k) (\<lambda>_. open_run L)"
  by (rule hoare_post [OF emit_conforms [OF assms(1)]]) (use assms(2,3) in \<open>auto simp: open_run_def\<close>)

text \<open>Calls that leave log and step alone stay in the phase.\<close>

lemma stays:
  assumes "keeps (\<lambda>s t. ew_log t = ew_log s \<and> ew_step t = ew_step s) m" "active p"
  shows "hoare (in_phase L p k) m (\<lambda>_. in_phase L p k) (\<lambda>_. open_run L)"
  by (rule hoareI) (use assms in \<open>auto dest!: keepsD simp: in_phase_def conforms_def open_run_def\<close>)

lemma monotonic_stays: "active p \<Longrightarrow> hoare (in_phase L p k) (monotonic_ns env) (\<lambda>_. in_phase L p k) (\<lambda>_. open_run L)"
  by (rule stays) (auto intro!: keepsI dest!: monotonic_ns_frame)

lemma mutations_path:
  assumes "trace_path Start es (InTool n i j c)" "\<forall>e \<in> set fs. e_type e = file_mutation \<and> e_step e = n"
  shows "trace_path Start (es @ fs) (InTool n i j c)"
  using assms(2)
proof (induction fs rule: rev_induct)
  case Nil
  then show ?case using assms(1) by simp
next
  case (snoc e fs)
  then have "trace_path Start (es @ fs) (InTool n i j c)" "trace_step (InTool n i j c) e (InTool n i j c)"
    by (simp_all add: trace_step.mutation)
  then show ?case using trace_path.snoc [of Start "es @ fs"] by simp
qed

lemma run_tool_stays:
  "hoare (in_phase L (InTool n i j c) n) (attempt (\<lambda>_. True) (run_tool env tool args))
     (\<lambda>_. in_phase L (InTool n i j c) n) (\<lambda>_. open_run L)"
proof -
  have "preserves (in_phase L (InTool n i j c) n) (run_tool env tool args)"
  proof (rule preservesI)
    fix s y t assume s: "in_phase L (InTool n i j c) n s" and r: "run_tool env tool args s = (y, t)"
    from s obtain es where es: "ew_log s = L @ es" "trace_path Start es (InTool n i j c)" "ew_step s = n"
      by (auto simp: in_phase_def conforms_def)
    from keepsD [OF run_tool_frame r] es(3) obtain fs where "ew_log t = ew_log s @ fs" "ew_step t = n"
      "\<forall>e \<in> set fs. e_type e = file_mutation \<and> e_step e = n" by (auto simp: tool_frame_def)
    with mutations_path [OF es(2)] es(1) show "in_phase L (InTool n i j c) n t"
      by (auto simp: in_phase_def conforms_def)
  qed
  then have "preserves (in_phase L (InTool n i j c) n) (attempt (\<lambda>_. True) (run_tool env tool args))"
    by (rule preserves_attempt)
  then show ?thesis unfolding preserves_def by (rule hoare_post) (auto elim: in_phase_open)
qed

section \<open>A tool call\<close>

lemma dget_hit: "dget ((lit k, v) # d) k = Some v"
  by (simp add: dget_def)

lemma dget_skip: "k \<noteq> k' \<Longrightarrow> dget ((lit k', v) # d) k = dget d k"
  by (simp add: dget_def lit_eq_iff)

lemmas dget_simps = dget_hit dget_skip

lemma run_one_tool_conforms:
  "hoare (in_phase L (Called n i j) n) (run_one_tool env tools tu) (\<lambda>_. in_phase L (Called n i j) n) (\<lambda>_. open_run L)"
proof -
  have st: "hoare (in_phase L (Called n i j) n) (emit env tool_call_start (call_start_data tu))
      (\<lambda>_. in_phase L (InTool n i j (tu_id tu)) n) (\<lambda>_. open_run L)"
    by (rule emit_moves) (auto intro!: trace_step.tool_start simp: call_start_data_def dget_simps simp del: lit_Cons)
  have en: "hoare (in_phase L (InTool n i j (tu_id tu)) n) (emit env tool_call_end (call_end_data tu r b code l))
      (\<lambda>_. in_phase L (Called n i j) n) (\<lambda>_. open_run L)" for r b code l
    by (rule emit_moves) (auto intro!: trace_step.tool_end simp: call_end_data_def dget_simps simp del: lit_Cons)
  have rt: "hoare (in_phase L p k) (ret v) (\<lambda>_. in_phase L p k) E" for p k v E
    by (rule hoare_ret)
  show ?thesis
    unfolding run_one_tool_def
    by (intro hoare_then [OF st] hoare_bind [OF monotonic_stays])
      (auto split: option.splits sum.splits
        intro!: hoare_then [OF en] rt hoare_bind [OF run_tool_stays] hoare_bind [OF monotonic_stays])
qed

lemma tool_calls_conform:
  "hoare (in_phase L (Called n i j) n) (mapE (run_one_tool env tools) us) (\<lambda>_. in_phase L (Called n i j) n) (\<lambda>_. open_run L)"
  by (rule hoare_mapE) (rule run_one_tool_conforms)

section \<open>A step\<close>

text \<open>The loop's counters agree with the numbers of the phase.\<close>

definition tally :: "int \<Rightarrow> int \<Rightarrow> int \<Rightarrow> 'z loop_st_scheme \<Rightarrow> bool" where
  "tally n i j s \<longleftrightarrow> l_step s = n \<and> l_in s = i \<and> l_out s = j"

lemma hoare_tally:
  assumes "hoare P m Q E" "keeps (\<lambda>s t. vars t = vars s) m"
  shows "hoare (\<lambda>s. P s \<and> tally n i j s) m (\<lambda>x s. Q x s \<and> tally n i j s) E"
proof -
  have t: "tally n i j t" if "tally n i j s" "m s = (y, t)" for s y t
    using that keepsD [OF assms(2)] by (auto simp: tally_def vars_def)
  show ?thesis by (rule hoareI) (use t assms(1) in \<open>auto dest: hoare_InrD hoare_InlD\<close>)
qed

lemma complete_stays: "active p \<Longrightarrow> hoare (in_phase L p k)
    (complete env system messages tools params :: ('z client_st_scheme, llm_response) eff)
    (\<lambda>_. in_phase L p k) (\<lambda>_. open_run L)"
  by (rule stays, rule keeps_mono [OF llm.ask_log]) (simp_all add: writer_view_def)

lemma of_sum_stays: "active p \<Longrightarrow>
  hoare (\<lambda>s. in_phase L p k s \<and> R s) (of_sum z) (\<lambda>_ s. in_phase L p k s \<and> R s) (\<lambda>_. open_run L)"
  by (rule hoareI) (auto simp: of_sum_def intro: in_phase_open)

lemma usage_stays:
  "hoare (\<lambda>s. in_phase L p k s \<and> tally n i j s) (modify (add_usage rc resp))
     (\<lambda>_ s. in_phase L p k s \<and> tally n (i + input_tokens resp) (j + output_tokens resp) s) E"
  by (rule hoare_pre [OF hoare_modify]) (auto simp: in_phase_def conforms_def tally_def add_usage_def)

lemma push_stays:
  "hoare (\<lambda>s. in_phase L p k s \<and> tally n i j s) (push_message m) (\<lambda>_ s. in_phase L p k s \<and> tally n i j s) E"
  unfolding push_message_def
  by (rule hoare_pre [OF hoare_modify]) (auto simp: in_phase_def conforms_def tally_def)

lemma call_llm_conforms:
  "hoare (\<lambda>s. in_phase L (Stepping n i j) n s \<and> tally n i j s) (call_llm env rc)
     (\<lambda>_ s. \<exists>i j. in_phase L (Called n i j) n s \<and> tally n i j s) (\<lambda>_. open_run L)"
proof -
  have cs: "hoare (\<lambda>s. in_phase L (Stepping n i j) n s \<and> tally n i j s)
      (emit env llm_call_start (llm_start_data rc h m))
      (\<lambda>_ s. in_phase L (Calling n i j) n s \<and> tally n i j s) (\<lambda>_. open_run L)" for h m
    by (rule hoare_tally [OF emit_moves emit_vars]) (auto intro: trace_step.call_start)
  have ce: "hoare (\<lambda>s. in_phase L (Calling n i j) n s \<and>
        tally n (i + input_tokens resp) (j + output_tokens resp) s)
      (emit env llm_call_end (llm_end_data h h' resp c l))
      (\<lambda>_ s. in_phase L (Called n (i + input_tokens resp) (j + output_tokens resp)) n s \<and>
        tally n (i + input_tokens resp) (j + output_tokens resp) s) (\<lambda>_. open_run L)" for h h' resp c l
    by (rule hoare_tally [OF emit_moves emit_vars])
      (auto intro!: trace_step.call_end simp: llm_end_data_def dget_simps simp del: lit_Cons)
  have mo: "hoare (\<lambda>s. in_phase L (Calling n i j) n s \<and> tally n i j s) (monotonic_ns env)
      (\<lambda>_ s. in_phase L (Calling n i j) n s \<and> tally n i j s) (\<lambda>_. open_run L)"
    by (rule hoare_tally [OF monotonic_stays monotonic_vars]) simp
  have co: "hoare (\<lambda>s. in_phase L (Calling n i j) n s \<and> tally n i j s)
      (complete env (rc_system rc) msgs (tool_schemas (rc_tools rc)) (rc_params rc))
      (\<lambda>_ s. in_phase L (Calling n i j) n s \<and> tally n i j s) (\<lambda>_. open_run L)" for msgs
    by (rule hoare_tally [OF complete_stays complete_vars]) simp
  have ge: "hoare (\<lambda>s. in_phase L p k s \<and> tally n i j s) (gets f)
      (\<lambda>_ s. in_phase L p k s \<and> tally n i j s) E" for p k f E
    by (rule hoare_gets)
  have re: "hoare (\<lambda>s. in_phase L (Called n a b) n s \<and> tally n a b s) (ret v)
      (\<lambda>_ s. \<exists>i j. in_phase L (Called n i j) n s \<and> tally n i j s) E" for a b v E
    by (rule hoare_pre [OF hoare_ret]) blast
  show ?thesis
    unfolding call_llm_def
    by (intro hoare_bind [OF ge] hoare_bind [OF of_sum_stays] hoare_then [OF cs] hoare_bind [OF mo]
        hoare_bind [OF co] hoare_then [OF usage_stays] hoare_then [OF ce] hoare_then [OF push_stays] re) simp_all
qed

text \<open>Between steps.\<close>

definition between :: "envelope list \<Rightarrow> 'z loop_st_scheme \<Rightarrow> bool" where
  "between L s \<longleftrightarrow> (\<exists>n i j. conforms L (Ready n i j) s \<and> tally n i j s \<and> 0 \<le> n \<and> ew_step s = max 0 (n - 1))"

lemma hoare_ex:
  assumes "\<And>x. hoare (P x) m Q E"
  shows "hoare (\<lambda>s. \<exists>x. P x s) m Q E"
proof (rule hoareI)
  fix s y t assume "\<exists>x. P x s" and m: "m s = (Inr y, t)"
  then obtain x where "P x s" by blast
  with assms show "Q y t" using m by (rule hoare_InrD)
next
  fix s e t assume "\<exists>x. P x s" and m: "m s = (Inl e, t)"
  then obtain x where "P x s" by blast
  with assms show "E e t" using m by (rule hoare_InlD)
qed

lemma hoare_pure: "(a \<Longrightarrow> hoare P m Q E) \<Longrightarrow> hoare (\<lambda>s. a \<and> P s) m Q E"
  by (cases a) (simp_all add: hoare_def)

lemma end_step_conforms:
  assumes "0 \<le> n"
  shows "hoare (\<lambda>s. in_phase L (Called n i j) n s \<and> tally n i j s) (end_step env n) (\<lambda>_. between L) (\<lambda>_. open_run L)"
proof -
  have "hoare (\<lambda>s. in_phase L (Called n i j) n s \<and> tally n i j s) (emit env agent_step_end (step_data n))
      (\<lambda>_ s. in_phase L (Ready (n + 1) i j) n s \<and> tally n i j s) (\<lambda>_. open_run L)"
    by (rule hoare_tally [OF emit_moves emit_vars])
      (auto intro!: trace_step.step_end simp: step_data_def dget_simps simp del: lit_Cons)
  moreover have "hoare (\<lambda>s. in_phase L (Ready (n + 1) i j) n s \<and> tally n i j s)
      (modify (\<lambda>s. s\<lparr>l_step := l_step s + 1\<rparr>)) (\<lambda>_. between L) (\<lambda>_. open_run L)"
    by (rule hoare_pre [OF hoare_modify]) (use assms in \<open>auto simp: between_def in_phase_def conforms_def tally_def\<close>)
  ultimately show ?thesis unfolding end_step_def by (rule hoare_then)
qed

lemma between_outcome: "between L s \<Longrightarrow> between L (s\<lparr>l_outcome := v\<rparr>)"
  by (simp add: between_def conforms_def tally_def)

lemma loop_body_conforms: "hoare (between L) (loop_body env rc) (\<lambda>_. between L) (\<lambda>_. open_run L)"
proof -
  have g: "hoare (between L) (gets l_step)
      (\<lambda>n s. 0 \<le> n \<and> (\<exists>i j. conforms L (Ready n i j) s \<and> tally n i j s)) E" for E
    by (rule hoare_pre [OF hoare_gets]) (auto simp: between_def tally_def)
  have st: "hoare (\<lambda>s. conforms L (Ready n i j) s \<and> tally n i j s) (set_step n)
      (\<lambda>_ s. in_phase L (Ready n i j) n s \<and> tally n i j s) E" for n i j E
    unfolding set_step_def
    by (rule hoare_pre [OF hoare_modify]) (auto simp: in_phase_def conforms_def tally_def)
  have ss: "hoare (\<lambda>s. in_phase L (Ready n i j) n s \<and> tally n i j s) (emit env agent_step_start (step_data n))
      (\<lambda>_ s. in_phase L (Stepping n i j) n s \<and> tally n i j s) (\<lambda>_. open_run L)" for n i j
    by (rule hoare_tally [OF emit_moves emit_vars])
      (auto intro!: trace_step.step_start simp: step_data_def dget_simps simp del: lit_Cons)
  have tc: "hoare (\<lambda>s. in_phase L (Called n i j) n s \<and> tally n i j s) (mapE (run_one_tool env tools) us)
      (\<lambda>_ s. in_phase L (Called n i j) n s \<and> tally n i j s) (\<lambda>_. open_run L)" for n i j tools us
    by (intro hoare_tally tool_calls_conform keeps_mapE run_one_tool_vars) simp_all
  have oc: "hoare (between L) (modify (l_outcome_update f)) (\<lambda>_. between L) E" for f E
    by (rule hoare_pre [OF hoare_modify]) (simp add: between_def conforms_def tally_def)
  have rt: "hoare (between L) (ret v) (\<lambda>_. between L) E" for v E by (rule hoare_ret)
  show ?thesis
    unfolding loop_body_def
    by (intro hoare_bind [OF g] hoare_pure hoare_ex hoare_then [OF st] hoare_then [OF ss] hoare_bind [OF call_llm_conforms]
        hoare_if hoare_bind [OF tc] hoare_then [OF push_stays] hoare_then [OF end_step_conforms]
        hoare_then [OF oc] rt)
qed

section \<open>A run\<close>

definition after_loop :: "envelope list \<Rightarrow> 'z loop_st_scheme \<Rightarrow> bool" where
  "after_loop L s \<longleftrightarrow> between L s \<or> (conforms L Errored s \<and> l_outcome s = lit ''failed'')"

lemma guarded_loop_conforms:
  "hoare (between L) (guarded_loop env rc) (\<lambda>_. after_loop L) (\<lambda>_ s. \<exists>p. conforms L p s)"
  unfolding guarded_loop_def
proof (rule hoare_catch)
  show "hoare (between L) (while_loop env rc) (\<lambda>_. after_loop L) (\<lambda>_. open_run L)"
  proof (rule while_hoare)
    show "hoare (\<lambda>s. between L s \<and> l_step s < rc_max_steps rc) (loop_body env rc)
        (\<lambda>c s. if c then between L s else after_loop L s) (\<lambda>_. open_run L)"
      by (rule hoare_pre [OF hoare_post [OF loop_body_conforms]]) (auto simp: after_loop_def)
  qed (simp add: after_loop_def between_outcome del: lit_Cons)
next
  fix exc
  have "hoare (in_phase L p k) (emit env agent_error (error_data exc))
      (\<lambda>_. conforms L Errored) (\<lambda>_ s. \<exists>p. conforms L p s)" if "active p" for p k
    by (rule hoare_post [OF emit_conforms [where q = Errored]])
      (use that in \<open>auto intro: trace_step.crash simp: in_phase_def\<close>)
  then have "hoare (\<lambda>s. \<exists>p k. active p \<and> in_phase L p k s) (emit env agent_error (error_data exc))
      (\<lambda>_. conforms L Errored) (\<lambda>_ s. \<exists>p. conforms L p s)"
    by (intro hoare_ex hoare_pure)
  then have "hoare (open_run L) (emit env agent_error (error_data exc))
      (\<lambda>_. conforms L Errored) (\<lambda>_ s. \<exists>p. conforms L p s)"
    by (rule hoare_pre) (auto simp: open_run_def in_phase_def)
  moreover have "hoare (conforms L Errored) (modify (l_outcome_update (\<lambda>_. lit ''failed'')))
      (\<lambda>_. after_loop L) E" for E
    by (rule hoare_pre [OF hoare_modify]) (simp add: after_loop_def conforms_def)
  ultimately show "hoare (open_run L) (thenE (emit env agent_error (error_data exc))
      (modify (l_outcome_update (\<lambda>_. lit ''failed'')))) (\<lambda>_. after_loop L) (\<lambda>_ s. \<exists>p. conforms L p s)"
    by (rule hoare_then)
qed

lemma finish_conforms:
  "hoare (after_loop L) (bindE (gets (done_data w0 w1)) (\<lambda>d. thenE (emit env agent_done d) (ret d)))
     (\<lambda>_. conforms L Done) (\<lambda>_ s. \<exists>p. conforms L p s)"
proof (rule hoareI)
  let ?m = "bindE (gets (done_data w0 w1)) (\<lambda>d. thenE (emit env agent_done d) (ret d))"
  have step: "\<exists>p. conforms L p s \<and>
      (\<forall>e. e_type e = agent_done \<longrightarrow> e_step e = ew_step s \<longrightarrow> e_data e = done_data w0 w1 s \<longrightarrow> trace_step p e Done)"
    if "after_loop L s" for s
    using that unfolding after_loop_def between_def
  proof (elim disjE exE conjE)
    fix n i j assume "conforms L (Ready n i j) s" "tally n i j s" "ew_step s = max 0 (n - 1)"
    then show ?thesis
      by (intro exI [of _ "Ready n i j"])
        (auto intro!: trace_step.finish simp: done_data_def dget_simps tally_def simp del: lit_Cons)
  next
    assume "conforms L Errored s" "l_outcome s = lit ''failed''"
    then show ?thesis
      by (intro exI [of _ Errored]) (auto intro!: trace_step.fail simp: done_data_def dget_simps simp del: lit_Cons)
  qed
  have m: "\<exists>z. emit env agent_done (done_data w0 w1 s) s = (z, t) \<and> ((\<exists>d. y = Inr d) \<longleftrightarrow> (\<exists>e. z = Inr e))"
    if "?m s = (y, t)" for s y t
    using that by (auto simp: bindE_def thenE_def gets_def ret_def split: prod.splits sum.splits)
  { fix s d t assume s: "after_loop L s" "?m s = (Inr d, t)"
    with step obtain p where p: "conforms L p s"
      "\<forall>e. e_type e = agent_done \<longrightarrow> e_step e = ew_step s \<longrightarrow> e_data e = done_data w0 w1 s \<longrightarrow> trace_step p e Done"
      by blast
    from m [OF s(2)] obtain e where e: "emit env agent_done (done_data w0 w1 s) s = (Inr e, t)" by blast
    from emit_spec(2) [OF e] p show "conforms L Done t"
      by (auto simp: stamped_def mk_envelope_def intro: conforms_snoc) }
  { fix s x t assume s: "after_loop L s" "?m s = (Inl x, t)"
    with step obtain p where p: "conforms L p s"
      "\<forall>e. e_type e = agent_done \<longrightarrow> e_step e = ew_step s \<longrightarrow> e_data e = done_data w0 w1 s \<longrightarrow> trace_step p e Done"
      by blast
    from m [OF s(2)] obtain x' where e: "emit env agent_done (done_data w0 w1 s) s = (Inl x', t)"
      by (metis sum.exhaust Inl_Inr_False)
    from emit_spec(3) [OF e, of x'] have "ew_log t = ew_log s \<or> (\<exists>e. e_type e = agent_done \<and> e_step e = ew_step s \<and>
        e_data e = done_data w0 w1 s \<and> ew_log t = ew_log s @ [e])"
      by (auto simp: stamped_def mk_envelope_def)
    with p show "\<exists>p. conforms L p t" by (blast intro: conforms_snoc conforms_log) }
qed

lemma run_conforms_hoare:
  "hoare (\<lambda>s. ew_log s = L) (run env spec rt) (\<lambda>_. conforms L Done) (\<lambda>_ s. \<exists>p. conforms L p s)"
proof -
  have s0: "hoare (\<lambda>s. ew_log s = L) (set_step 0) (\<lambda>_. in_phase L Start 0) E" for E
    unfolding set_step_def
    by (rule hoare_pre [OF hoare_modify]) (auto simp: in_phase_def conforms_def intro: trace_path.empty)
  have st: "hoare (in_phase L Start 0) (emit env agent_start d) (\<lambda>_. in_phase L (Ready 0 0 0) 0)
      (\<lambda>_ s. \<exists>p. conforms L p s)" for d
    by (rule hoare_post [OF emit_conforms]) (auto intro: trace_step.start)
  have il: "hoare (in_phase L (Ready 0 0 0) 0) (modify (init_locals rc)) (\<lambda>_. between L) E" for rc E
    by (rule hoare_pre [OF hoare_modify])
      (auto simp: between_def in_phase_def conforms_def tally_def init_locals_def)
  have t0: "hoare (between L) (os_read f) (\<lambda>_. between L) E" for f E
    by (rule hoareI) (auto simp: os_read_def between_def conforms_def tally_def)
  have t1: "hoare (after_loop L) (os_read f) (\<lambda>_. after_loop L) E" for f E
    by (rule hoareI) (auto simp: os_read_def after_loop_def between_def conforms_def tally_def)
  show ?thesis
    unfolding run_def Let_def
    by (intro hoare_then [OF s0] hoare_then [OF st] hoare_then [OF il] hoare_bind [OF t0]
        hoare_then [OF guarded_loop_conforms] hoare_bind [OF t1] finish_conforms)
qed

section \<open>Properties\<close>

text \<open>
  C2: the trace of every run is a path of the event protocol: agent_start first; then steps numbered
  0, 1, 2, ... of one LLM call and any number of tool calls, each with its own id and its
  file_mutation events between start and end; at most one agent_error; and agent_done last, with the
  number of steps and the token totals of the trace. A run that returns has a complete trace; one
  that an exception leaves has a prefix of a complete one.
\<close>

theorem run_conforms:
  assumes "ew_log s = []" "run env spec rt s = (y, t)"
  shows "\<exists>p. trace_path Start (ew_log t) p \<and> (\<forall>d. y = Inr d \<longrightarrow> p = Done)"
proof (cases y)
  case (Inr d)
  with hoare_InrD [OF run_conforms_hoare assms(1)] assms(2) show ?thesis by (auto simp: conforms_def)
next
  case (Inl x)
  with hoare_InlD [OF run_conforms_hoare assms(1)] assms(2) show ?thesis by (auto simp: conforms_def)
qed

theorem run_conforms_witness: "trace_path Start echo_log Done"
proof -
  obtain d t where r: "run (dumping sample_dump) (sample_task 1) sample_rt (sample_loop_st EchoClient) = (Inr d, t)"
    and l: "ew_log t = echo_log" using sample_run by blast
  from run_conforms [OF _ r] l show ?thesis by auto
qed

end
