(* ===== verification/RunProps.thy ===== *)
theory RunProps
  imports Protocol
begin

text \<open>
  What a run guarantees as a whole: it returns whenever the writer works, it respects the step
  limit, its totals account for the trace, and a failing tool never stops it.
\<close>

section \<open>The writer stays usable\<close>

lemma emit_writer_ok: "preserves (writer_ok env) (emit env ty data)"
proof (rule preservesI)
  fix s y t assume s: "writer_ok env s" and e: "emit env ty data s = (y, t)"
  from emit_total [OF s, of ty data] e show "writer_ok env t" by auto
qed

interpretation usable: trace_invariant env "writer_ok env :: 'z writer_st_scheme \<Rightarrow> bool" for env
  by unfold_locales (simp_all add: emit_writer_ok, simp add: writer_ok_def writer_view_def)

interpretation run_usable: loop_invariant env "writer_ok env :: 'z loop_st_scheme \<Rightarrow> bool"
  for env :: "'e llm_env_scheme"
  by (intro loop_invariant.intro usable.trace_invariant_axioms)

text \<open>A writer that nothing refuses never tears the file.\<close>

lemma emit_untorn: "preserves (\<lambda>s. writer_ok env s \<and> ew_torn s = None) (emit env ty data)"
proof (rule preservesI)
  fix s y t assume s: "writer_ok env s \<and> ew_torn s = None" and e: "emit env ty data s = (y, t)"
  from emit_total [of env s ty data] s e obtain v where v: "y = Inr v" "writer_ok env t" by auto
  from e have "ew_torn t = None"
  proof (cases rule: emit_cases)
    case (written n e js z u b)
    with after_write_cases(1) [OF written(8)] s show ?thesis by simp
  qed (use v in simp_all)
  with v show "writer_ok env t \<and> ew_torn t = None" by simp
qed

interpretation untorn: trace_invariant env "\<lambda>s :: 'z writer_st_scheme. writer_ok env s \<and> ew_torn s = None" for env
  by unfold_locales (simp_all add: emit_untorn, simp add: writer_ok_def writer_view_def)

interpretation run_untorn: loop_invariant env "\<lambda>s :: 'z loop_st_scheme. writer_ok env s \<and> ew_torn s = None"
  for env :: "'e llm_env_scheme"
  by (intro loop_invariant.intro untorn.trace_invariant_axioms)

text \<open>\<open>sure P m\<close>: from \<open>P\<close>, \<open>m\<close> returns and keeps \<open>P\<close>.\<close>

definition sure :: "('s \<Rightarrow> bool) \<Rightarrow> ('s, 'a) eff \<Rightarrow> bool" where
  "sure P m \<longleftrightarrow> hoare P m (\<lambda>_. P) (\<lambda>_ _. False)"

lemma sureD: "sure P m \<Longrightarrow> P s \<Longrightarrow> \<exists>x t. m s = (Inr x, t) \<and> P t"
  unfolding sure_def by (cases "m s"; cases "fst (m s)") (auto dest: hoare_InrD hoare_InlD)

lemma sure_ret [intro]: "sure P (ret x)" "sure P (gets f)"
  by (auto simp: sure_def eff_defs intro!: hoareI)

lemma sure_modify: "(\<And>s. P s \<Longrightarrow> P (f s)) \<Longrightarrow> sure P (modify f)"
  by (auto simp: sure_def eff_defs intro!: hoareI)

lemma sure_bind: "sure P m \<Longrightarrow> (\<And>x. sure P (f x)) \<Longrightarrow> sure P (bindE m f)"
  unfolding sure_def by (rule hoare_bind)

lemma sure_then: "sure P m \<Longrightarrow> sure P n \<Longrightarrow> sure P (thenE m n)"
  unfolding sure_def by (rule hoare_then)

lemma sure_catch: "preserves P m \<Longrightarrow> (\<And>e. sure P (h e)) \<Longrightarrow> sure P (catchE m h)"
  unfolding sure_def preserves_def by (rule hoare_catch)

lemma sure_attempt: "preserves P m \<Longrightarrow> sure P (attempt (\<lambda>_. True) m)"
  unfolding sure_def preserves_def attempt_def
  by (intro hoare_catch [where R = "\<lambda>_. P"] hoare_bind) (auto intro: hoare_ret)

lemma sure_emit: "sure (writer_ok env) (emit env ty data)"
proof -
  have "case emit env ty data s of (Inl x, t) \<Rightarrow> False | (Inr x, t) \<Rightarrow> writer_ok env t" if "writer_ok env s" for s
    using emit_total [OF that, of ty data] by auto
  then show ?thesis unfolding sure_def hoare_def by blast
qed

lemma sure_clock: "sure (writer_ok env) (monotonic_ns env)" "sure (writer_ok env) (os_read f)"
  unfolding sure_def
  by (rule hoareI; auto simp: monotonic_ns_def os_read_def writer_ok_def)+

lemma sure_set_step: "sure (writer_ok env) (set_step n)"
  unfolding set_step_def by (rule sure_modify) (simp add: writer_ok_def)

lemmas sure_intros = sure_ret sure_bind sure_then sure_attempt sure_emit sure_clock sure_set_step

section \<open>Tool failures are contained\<close>

lemma run_one_tool_sure:
  fixes env :: "'e llm_env_scheme"
  shows "sure (writer_ok env :: 'z loop_st_scheme \<Rightarrow> bool) (run_one_tool env tools tu)"
  unfolding run_one_tool_def
  by (auto intro!: sure_intros run_usable.run_tool_keeps split: option.splits sum.splits)

lemma run_one_tool_block:
  fixes s t :: "'z tool_st_scheme"
  assumes "run_one_tool env tools tu s = (Inr b, t)"
  shows "case tools (tu_name tu) of
      None \<Rightarrow> b = tool_result_block tu (not_available tu) True
    | Some tool \<Rightarrow> \<exists>u :: 'z tool_st_scheme. tfs u = tfs s \<and> (case fst (run_tool env tool (tu_input tu) u) of
          Inl exc \<Rightarrow> b = tool_result_block tu (raised_text tu exc) True
        | Inr r \<Rightarrow> b = tool_result_block tu (content r) (is_error r))"
proof -
  from assms obtain e v t0 u where st: "emit env tool_call_start (call_start_data tu) s = (Inr e, v)"
    and cl: "monotonic_ns env v = (Inr t0, u)"
    and rest: "(case tools (tu_name tu) of
       None \<Rightarrow>
         thenE (emit env tool_call_end (call_end_data tu (not_available tu) False 127 0))
        (ret (tool_result_block tu (not_available tu) True))
     | Some tool \<Rightarrow>
         bindE (attempt (\<lambda>_. True) (run_tool env tool (tu_input tu))) (\<lambda>r.
         bindE (monotonic_ns env) (\<lambda>t1.
         case r of
           Inl exc \<Rightarrow>
             thenE (emit env tool_call_end (call_end_data tu (raised_text tu exc) False 1 (latency_ms t0 t1)))
            (ret (tool_result_block tu (raised_text tu exc) True))
         | Inr result \<Rightarrow>
             thenE (emit env tool_call_end
                     (call_end_data tu (content result) (truncated result) (exit_code result) (latency_ms t0 t1)))
            (ret (tool_result_block tu (content result) (is_error result)))))) u = (Inr b, t)"
    unfolding run_one_tool_def thenE_def [of "emit env tool_call_start _"] bindE_Inr_iff by blast
  have fs: "tfs u = tfs s"
    using emit_frame_tool [OF emit_spec(1) [OF st]] monotonic_ns_frame [OF cl] by auto
  show ?thesis
  proof (cases "tools (tu_name tu)")
    case None
    with rest show ?thesis by (auto simp: thenE_def bindE_Inr_iff ret_def)
  next
    case (Some tool)
    with rest [unfolded Some option.case bindE_Inr_iff] obtain r w t1 x where
      r: "attempt (\<lambda>_. True) (run_tool env tool (tu_input tu)) u = (Inr r, w)"
      and b: "(case r of
           Inl exc \<Rightarrow>
             thenE (emit env tool_call_end (call_end_data tu (raised_text tu exc) False 1 (latency_ms t0 t1)))
            (ret (tool_result_block tu (raised_text tu exc) True))
         | Inr result \<Rightarrow>
             thenE (emit env tool_call_end
                     (call_end_data tu (content result) (truncated result) (exit_code result) (latency_ms t0 t1)))
            (ret (tool_result_block tu (content result) (is_error result)))) x = (Inr b, t)"
      by blast
    show ?thesis
      using r b fs Some
      by (cases r) (auto simp: attempt_Inr_iff thenE_def bindE_Inr_iff ret_def intro!: exI [of _ u])
  qed
qed

text \<open>
  C21: a tool call always yields a result block for the model when the writer works: an unknown tool
  and a tool that raises become error blocks with the documented texts, and no exception of a tool
  reaches the loop.
\<close>

theorem tool_failure_contained:
  fixes env :: "'e llm_env_scheme" and s :: "'z loop_st_scheme"
  assumes "writer_ok env s"
  shows "\<exists>b t. run_one_tool env tools tu s = (Inr b, t) \<and>
    (case tools (tu_name tu) of
       None \<Rightarrow> b = tool_result_block tu (not_available tu) True
     | Some tool \<Rightarrow> \<exists>u :: 'z loop_st_scheme. tfs u = tfs s \<and> (case fst (run_tool env tool (tu_input tu) u) of
           Inl exc \<Rightarrow> b = tool_result_block tu (raised_text tu exc) True
         | Inr r \<Rightarrow> b = tool_result_block tu (content r) (is_error r)))"
proof -
  obtain b t where r: "run_one_tool env tools tu s = (Inr b, t)"
    using sureD [OF run_one_tool_sure assms] by blast
  from run_one_tool_block [OF r] r show ?thesis by (intro exI conjI)
qed

lemma sample_writer_ok: "writer_ok sample_llm_env (sample_loop_st c)"
proof -
  have "list_all scalar (lit ''{}'')" by code_simp
  then show ?thesis
    by (simp add: writer_ok_def sample_llm_env_def sample_env_def sample_loop_st_def sample_client_st_def sample_st_def
        client_st.defs loop_st.defs tool_st.defs tool_env.defs llm_env.defs del: lit_Cons)
qed

theorem tool_failure_contained_witness:
  "let tu = \<lparr>tu_id = lit ''1'', tu_name = lit ''rm'', tu_input = []\<rparr>
   in \<exists>t. run_one_tool sample_llm_env (tool_map []) tu (sample_loop_st EchoClient) =
     (Inr (tool_result_block tu (lit ''Tool not available: rm'') True), t)"
proof -
  define tu where "tu = \<lparr>tu_id = lit ''1'', tu_name = lit ''rm'', tu_input = []\<rparr>"
  have "not_available tu = lit ''Tool not available: rm''" by (simp add: tu_def not_available_def)
  with tool_failure_contained [OF sample_writer_ok, of "tool_map []" tu EchoClient]
  show ?thesis by (simp add: Let_def tool_map_def flip: tu_def del: lit_Cons)
qed

section \<open>A run returns\<close>

lemma run_sure:
  fixes env :: "'e llm_env_scheme"
  shows "sure (writer_ok env :: 'z loop_st_scheme \<Rightarrow> bool) (run env spec rt)"
proof -
  have w: "preserves (writer_ok env :: 'z loop_st_scheme \<Rightarrow> bool) (while_loop env rc)" for rc
    by (rule while_preserves [OF run_usable.loop_body_keeps]) (simp add: writer_ok_def)
  have "sure (writer_ok env :: 'z loop_st_scheme \<Rightarrow> bool) (guarded_loop env rc)" for rc
    unfolding guarded_loop_def
    by (intro sure_catch w sure_then sure_emit sure_modify) (simp add: writer_ok_def)
  then show ?thesis
    unfolding run_def Let_def
    by (intro sure_intros sure_modify) (auto simp: writer_ok_def init_locals_def)
qed

text \<open>The returned dict is the data of the last event.\<close>

lemma run_done:
  fixes s t :: "'z loop_st_scheme"
  assumes "run env spec rt s = (Inr d, t)"
  shows "\<exists>(u :: 'z loop_st_scheme) e w0 w1. d = done_data w0 w1 u \<and> ew_log t = ew_log u @ [e] \<and>
    e_type e = agent_done \<and> e_data e = d"
proof -
  from assms obtain u e w0 w1 where e: "emit env agent_done (done_data w0 w1 u) u = (Inr e, t)" "d = done_data w0 w1 u"
    by (auto simp: run_def Let_def thenE_def bindE_Inr_iff gets_def ret_def)
  from emit_spec(2) [OF e(1) refl] e(2) show ?thesis
    by (intro exI [of _ u] exI [of _ e]) (auto simp: stamped_def mk_envelope_def)
qed

text \<open>
  C1: a run always returns: as long as the event writer works, no behaviour of the LLM client, the
  tools or the file system makes \<^verbatim>\<open>run\<close> raise or loop, and its trace is complete, ending with the
  agent_done event whose data is the returned dict.
\<close>

theorem run_returns:
  fixes env :: "'e llm_env_scheme" and s :: "'z loop_st_scheme"
  assumes "writer_ok env s" "ew_log s = []"
  shows "\<exists>d t. run env spec rt s = (Inr d, t) \<and> trace_path Start (ew_log t) Done \<and>
    e_type (last (ew_log t)) = agent_done \<and> e_data (last (ew_log t)) = d"
proof -
  obtain d t where r: "run env spec rt s = (Inr d, t)" using sureD [OF run_sure assms(1)] by blast
  have "conforms [] Done t" by (rule hoare_InrD [OF run_conforms_hoare assms(2) r])
  then have "trace_path Start (ew_log t) Done" by (simp add: conforms_def)
  moreover have "e_type (last (ew_log t)) = agent_done \<and> e_data (last (ew_log t)) = d"
    using run_done [OF r] by auto
  ultimately show ?thesis using r by blast
qed

theorem run_returns_witness:
  "\<exists>d t. run sample_llm_env (sample_task 3) sample_rt (sample_loop_st (scripted_client [])) = (Inr d, t) \<and>
     trace_path Start (ew_log t) Done \<and> e_data (last (ew_log t)) = d"
  using run_returns [OF sample_writer_ok, of "scripted_client []" "sample_task 3" sample_rt] by auto

section \<open>The step limit\<close>

definition within_limit :: "int \<Rightarrow> 'z loop_st_scheme \<Rightarrow> bool" where
  "within_limit m s \<longleftrightarrow> 0 \<le> l_step s \<and> l_step s \<le> max 0 m"

definition limit_outcome :: "int \<Rightarrow> 'z loop_st_scheme \<Rightarrow> bool" where
  "limit_outcome m s \<longleftrightarrow> within_limit m s \<and> (l_outcome s = lit ''max_steps'' \<longrightarrow> l_step s = max 0 m)"

lemma outcome_names:
  "lit ''completed'' \<noteq> lit ''max_steps''" "lit ''failed'' \<noteq> lit ''max_steps''" "final_outcome r \<noteq> lit ''max_steps''"
  by (simp_all add: final_outcome_def lit_eq_iff del: lit_Cons)

lemma hoare_any: "hoare (\<lambda>_. True) m (\<lambda>_ _. True) (\<lambda>_ _. True)"
  by (rule hoareI) auto

text \<open>On a break the outcome is one of \<open>final_outcome\<close>.\<close>

lemma loop_body_break:
  assumes "loop_body env rc s = (Inr False, t)"
  shows "l_outcome t \<noteq> lit ''max_steps''"
proof -
  have o: "hoare (\<lambda>_. True) (thenE (modify (l_outcome_update (\<lambda>_. final_outcome r))) (ret False))
      (\<lambda>c s. \<not> c \<longrightarrow> l_outcome s \<noteq> lit ''max_steps'') (\<lambda>_ _. True)" for r
    by (rule hoareI) (auto simp: thenE_def bindE_def modify_def ret_def outcome_names simp del: lit_Cons)
  have t: "hoare (\<lambda>_. True) (ret True) (\<lambda>c s. \<not> c \<longrightarrow> l_outcome s \<noteq> lit ''max_steps'') (\<lambda>_ _. True)"
    by (rule hoareI) (auto simp: ret_def)
  have "hoare (\<lambda>_. True) (loop_body env rc) (\<lambda>c s. \<not> c \<longrightarrow> l_outcome s \<noteq> lit ''max_steps'') (\<lambda>_ _. True)"
    unfolding loop_body_def
    by (intro hoare_bind [OF hoare_any] hoare_then [OF hoare_any] hoare_if o t)
  from hoare_InrD [OF this _ assms] show ?thesis by simp
qed

lemma while_limit:
  "hoare (within_limit (rc_max_steps rc)) (while_loop env rc)
     (\<lambda>_. limit_outcome (rc_max_steps rc)) (\<lambda>_. within_limit (rc_max_steps rc))"
proof (rule while_hoare)
  show "hoare (\<lambda>s. within_limit (rc_max_steps rc) s \<and> l_step s < rc_max_steps rc) (loop_body env rc)
      (\<lambda>c s. if c then within_limit (rc_max_steps rc) s else limit_outcome (rc_max_steps rc) s)
      (\<lambda>_. within_limit (rc_max_steps rc))"
  proof (rule hoareI)
    fix s c t
    assume s: "within_limit (rc_max_steps rc) s \<and> l_step s < rc_max_steps rc" "loop_body env rc s = (Inr c, t)"
    have "l_step t = l_step s + 1" using loop_body_step [OF s(2)] by simp
    then have "within_limit (rc_max_steps rc) t" using s(1) by (auto simp: within_limit_def)
    then show "if c then within_limit (rc_max_steps rc) t else limit_outcome (rc_max_steps rc) t"
      using loop_body_break [of env rc s t] s(2) by (cases c) (auto simp: limit_outcome_def simp del: lit_Cons)
  next
    fix s x t
    assume s: "within_limit (rc_max_steps rc) s \<and> l_step s < rc_max_steps rc" "loop_body env rc s = (Inl x, t)"
    then show "within_limit (rc_max_steps rc) t" using loop_body_step [OF s(2)] by (simp add: within_limit_def)
  qed
qed (auto simp: limit_outcome_def within_limit_def)

lemma guarded_limit:
  "hoare (within_limit (rc_max_steps rc)) (guarded_loop env rc) (\<lambda>_. limit_outcome (rc_max_steps rc)) (\<lambda>_ _. True)"
  unfolding guarded_loop_def
proof (rule hoare_catch [OF while_limit])
  fix e
  have "hoare (within_limit m) (emit env agent_error (error_data e)) (\<lambda>_. within_limit m) (\<lambda>_ _. True)" for m
    by (rule hoareI) (auto dest!: keepsD [OF emit_vars] simp: within_limit_def vars_def)
  moreover have "hoare (within_limit m) (modify (l_outcome_update (\<lambda>_. lit ''failed'')))
      (\<lambda>_. limit_outcome m) (\<lambda>_ _. True)" for m
    by (rule hoare_pre [OF hoare_modify]) (simp add: limit_outcome_def within_limit_def outcome_names del: lit_Cons)
  ultimately show "hoare (within_limit (rc_max_steps rc)) (thenE (emit env agent_error (error_data e))
      (modify (l_outcome_update (\<lambda>_. lit ''failed'')))) (\<lambda>_. limit_outcome (rc_max_steps rc)) (\<lambda>_ _. True)"
    by (rule hoare_then)
qed

text \<open>
  C20: a run never makes more steps than \<^verbatim>\<open>max_steps\<close> (none for a limit of 0 or less), and it reports
  the outcome \<^verbatim>\<open>max_steps\<close> only when it has made exactly that many.
\<close>

theorem run_step_limit:
  assumes "run env spec rt s = (Inr d, t)" "m = rc_max_steps (run_config spec rt)"
  shows "\<exists>n. dget d ''total_steps'' = Some (JInt n) \<and> 0 \<le> n \<and> n \<le> max 0 m \<and>
    (dget d ''outcome'' = Some (JStr (lit ''max_steps'')) \<longrightarrow> n = max 0 m)"
proof -
  let ?rc = "run_config spec rt"
  have fin: "hoare (limit_outcome m) (bindE (gets (done_data w0 w1)) (\<lambda>d. thenE (emit env agent_done d) (ret d)))
      (\<lambda>d _. \<exists>n. dget d ''total_steps'' = Some (JInt n) \<and> 0 \<le> n \<and> n \<le> max 0 m \<and>
        (dget d ''outcome'' = Some (JStr (lit ''max_steps'')) \<longrightarrow> n = max 0 m)) (\<lambda>_ _. True)" for w0 w1
    by (rule hoareI)
      (auto simp: bindE_Inr_iff thenE_def gets_def ret_def limit_outcome_def within_limit_def done_data_def
        dget_simps simp del: lit_Cons)
  have il: "hoare (\<lambda>_. True) (modify (init_locals ?rc)) (\<lambda>_. within_limit m) (\<lambda>_ _. True)"
    by (rule hoare_pre [OF hoare_modify]) (simp add: init_locals_def within_limit_def)
  have t0: "hoare (within_limit m) (os_read f) (\<lambda>_. within_limit m) (\<lambda>_ _. True)" for f
    by (rule hoareI) (auto simp: os_read_def within_limit_def)
  have t1: "hoare (limit_outcome m) (os_read f) (\<lambda>_. limit_outcome m) (\<lambda>_ _. True)" for f
    by (rule hoareI) (auto simp: os_read_def limit_outcome_def within_limit_def)
  have "hoare (\<lambda>_. True) (run env spec rt)
      (\<lambda>d _. \<exists>n. dget d ''total_steps'' = Some (JInt n) \<and> 0 \<le> n \<and> n \<le> max 0 m \<and>
        (dget d ''outcome'' = Some (JStr (lit ''max_steps'')) \<longrightarrow> n = max 0 m)) (\<lambda>_ _. True)"
    unfolding run_def Let_def
    by (intro hoare_then [OF hoare_any] hoare_then [OF il] hoare_bind [OF t0]
        hoare_then [OF guarded_limit [of ?rc, folded assms(2)]] hoare_bind [OF t1] fin)
  from hoare_InrD [OF this _ assms(1)] show ?thesis by simp
qed

theorem run_step_limit_witness:
  "\<exists>d t n. run sample_llm_env (sample_task 3) sample_rt (sample_loop_st EchoClient) = (Inr d, t) \<and>
     dget d ''total_steps'' = Some (JInt n) \<and> 0 \<le> n \<and> n \<le> 3"
proof -
  obtain d t where r: "run sample_llm_env (sample_task 3) sample_rt (sample_loop_st EchoClient) = (Inr d, t)"
    using sureD [OF run_sure sample_writer_ok] by blast
  have m: "rc_max_steps (run_config (sample_task 3) sample_rt) = 3"
    by (simp add: run_config_def sample_task_def default_spec_def)
  from run_step_limit [OF r refl] r show ?thesis unfolding m by auto
qed

end
