(* ===== verification/Trace.thy ===== *)
theory Trace
  imports RunProps
begin

text \<open>
  The offline trace loader (\<^verbatim>\<open>trace.py\<close>) and what it reads back from a run: the summary of a loaded
  trace agrees with the totals the run reported.
\<close>

section \<open>The loader\<close>

record trace =
  tr_task_id :: pystr
  tr_events :: "envelope list"

text \<open>\<^verbatim>\<open>max((e.step for e in self.events), default=0) + 1 if self.events else 0\<close>\<close>

definition total_steps :: "trace \<Rightarrow> int" where
  "total_steps tr =
     (case tr_events tr of [] \<Rightarrow> 0 | e # es \<Rightarrow> foldl (\<lambda>m x. max m (e_step x)) (e_step e) es + 1)"

definition by_type :: "event_type \<Rightarrow> trace \<Rightarrow> envelope list" where
  "by_type ty tr = filter (\<lambda>e. e_type e = ty) (tr_events tr)"

text \<open>
  \<^verbatim>\<open>read_events(path)\<close> opens the file as UTF-8 text. A file with both undecodable bytes and a
  malformed line raises in any case; which of the two errors depends on the buffer size, and the
  model reports the decoding error.
\<close>

definition read_events_file ::
  "'e tool_env_scheme \<Rightarrow> (pystr \<Rightarrow> pyexc + envelope) \<Rightarrow> path \<Rightarrow> ('z tool_st_scheme, envelope list) eff" where
  "read_events_file env load p =
     bindE (read_bytes env p) (\<lambda>b.
     bindE (of_sum (utf8_decode b)) (\<lambda>text.
     of_sum (read_events load text)))"

definition load_trace ::
  "'e tool_env_scheme \<Rightarrow> (pystr \<Rightarrow> pyexc + envelope) \<Rightarrow> path \<Rightarrow> ('z tool_st_scheme, trace) eff" where
  "load_trace env load p =
     bindE (path_is_dir env p) (\<lambda>d.
     let events_path = (if d then p @ [lit ''events.jsonl''] else p) in
     bindE (path_is_file env events_path) (\<lambda>f.
     if \<not> f then throw (PyExc FileNotFoundError (path_str events_path)) else
     bindE (read_events_file env load events_path) (\<lambda>events.
     ret \<lparr>tr_task_id = (case events of [] \<Rightarrow> [] | e # _ \<Rightarrow> e_task_id e), tr_events = events\<rparr>)))"

section \<open>Accounting along the protocol\<close>

definition cnt :: "event_type \<Rightarrow> envelope list \<Rightarrow> int" where
  "cnt ty es = int (length (filter (\<lambda>e. e_type e = ty) es))"

definition tok :: "string \<Rightarrow> envelope \<Rightarrow> int" where
  "tok k e = (if e_type e = llm_call_end
     then (case dget (e_data e) k of Some (JInt a) \<Rightarrow> a | _ \<Rightarrow> 0) else 0)"

definition tokens :: "string \<Rightarrow> envelope list \<Rightarrow> int" where
  "tokens k es = sum_list (map (tok k) es)"

lemma cnt_snoc [simp]: "cnt ty [] = 0" "cnt ty (es @ [e]) = cnt ty es + (if e_type e = ty then 1 else 0)"
  by (simp_all add: cnt_def)

lemma tokens_snoc [simp]: "tokens k [] = 0" "tokens k (es @ [e]) = tokens k es + tok k e"
  by (simp_all add: tokens_def)

text \<open>Step starts, LLM starts, LLM ends, step ends, open tool calls and tokens seen so far.\<close>

definition accounts :: "envelope list \<Rightarrow> int \<Rightarrow> int \<Rightarrow> int \<Rightarrow> int \<Rightarrow> int \<Rightarrow> int \<Rightarrow> int \<Rightarrow> bool" where
  "accounts es a b c d k i j \<longleftrightarrow>
     cnt agent_step_start es = a \<and> cnt llm_call_start es = b \<and> cnt llm_call_end es = c \<and>
     cnt agent_step_end es = d \<and> cnt tool_call_start es = cnt tool_call_end es + k \<and>
     tokens ''input_tokens'' es = i \<and> tokens ''output_tokens'' es = j \<and> cnt agent_error es = 0"

definition top_step :: "envelope list \<Rightarrow> int \<Rightarrow> bool" where
  "top_step es m \<longleftrightarrow> es \<noteq> [] \<and> Max (e_step ` set es) = m"

lemma top_step_snoc:
  "top_step es m \<Longrightarrow> top_step (es @ [e]) (max m (e_step e))"
  by (simp add: top_step_def max.commute)

fun books :: "phase \<Rightarrow> envelope list \<Rightarrow> bool" where
  "books Start es = (es = [])"
| "books (Ready n i j) es = (0 \<le> n \<and> accounts es n n n n 0 i j \<and> top_step es (max 0 (n - 1)))"
| "books (Stepping n i j) es = (0 \<le> n \<and> accounts es (n + 1) n n n 0 i j \<and> top_step es n)"
| "books (Calling n i j) es = (0 \<le> n \<and> accounts es (n + 1) (n + 1) n n 0 i j \<and> top_step es n)"
| "books (Called n i j) es = (0 \<le> n \<and> accounts es (n + 1) (n + 1) (n + 1) n 0 i j \<and> top_step es n)"
| "books (InTool n i j c) es = (0 \<le> n \<and> accounts es (n + 1) (n + 1) (n + 1) n 1 i j \<and> top_step es n)"
| "books Errored es = (0 < cnt agent_error es)"
| "books Done es = (0 < cnt agent_error es \<or>
     (\<exists>n i j. 0 \<le> n \<and> accounts es n n n n 0 i j \<and> top_step es (max 0 (n - 1)) \<and>
        dget (e_data (last es)) ''total_steps'' = Some (JInt n) \<and>
        dget (e_data (last es)) ''total_input_tokens'' = Some (JInt i) \<and>
        dget (e_data (last es)) ''total_output_tokens'' = Some (JInt j)))"

lemma cnt_nonneg: "0 \<le> cnt ty es"
  by (simp add: cnt_def)

lemma books_step: "trace_step p e q \<Longrightarrow> books p es \<Longrightarrow> books q (es @ [e])"
proof (induction rule: trace_step.induct)
  case (start e)
  then show ?case by (simp add: accounts_def cnt_def tokens_def tok_def top_step_def)
next
  case (step_start e n i j)
  then have "0 \<le> n" "e_step e = n" "max (max 0 (n - 1)) n = n" by auto
  with step_start show ?case using top_step_snoc [of es "max 0 (n - 1)" e] by (auto simp: accounts_def tok_def)
next
  case (call_start e n i j)
  then show ?case using top_step_snoc [of es n e] by (auto simp: accounts_def tok_def)
next
  case (call_end e n a b i j)
  then show ?case using top_step_snoc [of es n e] by (auto simp: accounts_def tok_def)
next
  case (tool_start e n c i j)
  then show ?case using top_step_snoc [of es n e] by (auto simp: accounts_def tok_def)
next
  case (mutation e n i j c)
  then show ?case using top_step_snoc [of es n e] by (auto simp: accounts_def tok_def)
next
  case (tool_end e n c i j)
  then show ?case using top_step_snoc [of es n e] by (auto simp: accounts_def tok_def)
next
  case (step_end e n i j)
  then show ?case using top_step_snoc [of es n e] by (auto simp: accounts_def tok_def)
next
  case (crash e p)
  then show ?case using cnt_nonneg [of agent_error es] by simp
next
  case (finish e n i j)
  then show ?case using top_step_snoc [of es "max 0 (n - 1)" e] by (auto simp: accounts_def tok_def)
next
  case (fail e)
  then show ?case by simp
qed

lemma books_path: "trace_path p es q \<Longrightarrow> p = Start \<Longrightarrow> books q es"
  by (induction rule: trace_path.induct) (auto intro: books_step)

text \<open>
  C3: the totals a run reports account for its trace: if no agent_error was logged, the trace has
  exactly \<^verbatim>\<open>total_steps\<close> LLM calls, each with its end, every tool call that started ended, and the
  token totals are the sums over the \<^verbatim>\<open>llm_call_end\<close> events.
\<close>

theorem run_accounts:
  assumes "ew_log s = []" "run env spec rt s = (Inr d, t)" "cnt agent_error (ew_log t) = 0"
  shows "\<exists>n i j. dget d ''total_steps'' = Some (JInt n) \<and> dget d ''total_input_tokens'' = Some (JInt i) \<and>
    dget d ''total_output_tokens'' = Some (JInt j) \<and>
    cnt llm_call_start (ew_log t) = n \<and> cnt llm_call_end (ew_log t) = n \<and>
    cnt agent_step_start (ew_log t) = n \<and> cnt agent_step_end (ew_log t) = n \<and>
    cnt tool_call_start (ew_log t) = cnt tool_call_end (ew_log t) \<and>
    tokens ''input_tokens'' (ew_log t) = i \<and> tokens ''output_tokens'' (ew_log t) = j"
proof -
  have "conforms [] Done t" by (rule hoare_InrD [OF run_conforms_hoare assms(1,2)])
  then have "trace_path Start (ew_log t) Done" by (simp add: conforms_def)
  then have "books Done (ew_log t)" by (rule books_path) (rule refl)
  moreover have "e_data (last (ew_log t)) = d" using run_done [OF assms(2)] by auto
  ultimately show ?thesis using assms(3) by (auto simp: accounts_def)
qed

lemma sample_no_error: "cnt agent_error echo_log = 0"
  by (simp add: cnt_def echo_log_def sample_event_def)

theorem run_accounts_witness:
  "\<exists>d t. run (dumping sample_dump) (sample_task 1) sample_rt (sample_loop_st EchoClient) = (Inr d, t) \<and>
     dget d ''total_steps'' = Some (JInt (cnt llm_call_end (ew_log t))) \<and>
     dget d ''total_input_tokens'' = Some (JInt (tokens ''input_tokens'' (ew_log t))) \<and> cnt llm_call_end (ew_log t) = 1"
proof -
  obtain d t where r: "run (dumping sample_dump) (sample_task 1) sample_rt (sample_loop_st EchoClient) = (Inr d, t)"
    and l: "ew_log t = echo_log" using sample_run by blast
  have "cnt llm_call_end echo_log = 1" by (simp add: cnt_def echo_log_def sample_event_def)
  with run_accounts [OF _ r] r l sample_no_error show ?thesis by auto
qed

section \<open>The summary of a loaded trace\<close>

lemma foldl_max_Max: "foldl (\<lambda>m x. max m (f x)) m es = Max (insert m (f ` set es))" for f :: "'a \<Rightarrow> int"
proof (induction es arbitrary: m)
  case (Cons e es)
  have "Max (insert (max m (f e)) (f ` set es)) = Max (insert m (insert (f e) (f ` set es)))"
    by (cases "es = []") (simp_all add: max.assoc)
  with Cons show ?case by simp
qed simp

lemma total_steps_top: "top_step (tr_events tr) m \<Longrightarrow> total_steps tr = m + 1"
  by (cases "tr_events tr") (simp_all add: top_step_def total_steps_def foldl_max_Max)

text \<open>
  C34: \<^verbatim>\<open>Trace.total_steps\<close> of a run without an agent_error is the \<^verbatim>\<open>total_steps\<close> of agent_done, except
  that a run that made no step counts as one.
\<close>

theorem trace_total_steps:
  assumes "ew_log s = []" "run env spec rt s = (Inr d, t)" "cnt agent_error (ew_log t) = 0"
  shows "\<exists>n. dget d ''total_steps'' = Some (JInt n) \<and>
    total_steps \<lparr>tr_task_id = task, tr_events = ew_log t\<rparr> = max 1 n"
proof -
  have "conforms [] Done t" by (rule hoare_InrD [OF run_conforms_hoare assms(1,2)])
  then have "trace_path Start (ew_log t) Done" by (simp add: conforms_def)
  then have "books Done (ew_log t)" by (rule books_path) (rule refl)
  moreover have "e_data (last (ew_log t)) = d" using run_done [OF assms(2)] by auto
  ultimately obtain n where "0 \<le> n" "dget d ''total_steps'' = Some (JInt n)" "top_step (ew_log t) (max 0 (n - 1))"
    using assms(3) by auto
  with total_steps_top [of "\<lparr>tr_task_id = task, tr_events = ew_log t\<rparr>" "max 0 (n - 1)"] show ?thesis by auto
qed

theorem trace_total_steps_witness:
  "\<exists>d t. run (dumping sample_dump) (sample_task 1) sample_rt (sample_loop_st EchoClient) = (Inr d, t) \<and>
     (\<exists>n. dget d ''total_steps'' = Some (JInt n) \<and>
        total_steps \<lparr>tr_task_id = lit ''t'', tr_events = ew_log t\<rparr> = max 1 n)"
proof -
  obtain d t where r: "run (dumping sample_dump) (sample_task 1) sample_rt (sample_loop_st EchoClient) = (Inr d, t)"
    and l: "ew_log t = echo_log" using sample_run by blast
  from trace_total_steps [OF _ r] r l sample_no_error show ?thesis by auto
qed

text \<open>
  C30: a run's trace can be loaded: once the bytes of its trace file, in which no failed write has left part of a line, are at
  \<^verbatim>\<open>events.jsonl\<close> of a directory, \<^verbatim>\<open>load_trace\<close> of the directory returns exactly the logged events.
\<close>

theorem load_trace_of_run:
  assumes "json_lines (model_dump_json env) load" "fresh s" "run env spec rt s = (y, t)"
    "ew_torn t = None" "kernel_ok env" "wf_fs (tfs u)" "canonical (tfs u) p"
    "fmlookup (tfs u) p = Some DirN" "fmlookup (tfs u) (p @ [lit ''events.jsonl'']) = Some (FileN (ew_file t))"
  shows "\<exists>task. load_trace env load p u = (Inr \<lparr>tr_task_id = task, tr_events = ew_log t\<rparr>, u)"
proof -
  let ?f = "p @ [lit ''events.jsonl'']"
  have "file_ok env t" using run_file.run_keeps fresh_file_ok [OF assms(2)] assms(3) by (blast dest: preservesD)
  from read_back [OF assms(1) this] assms(4) obtain written where
    rd: "utf8_decode (ew_file t) = Inr written" "read_events load written = Inr (ew_log t)" by auto
  have "proper_name (lit ''events.jsonl'')" by code_simp
  then have c: "canonical (tfs u) ?f" using assms(7,9) by (intro canonical_snoc) (auto simp del: lit_Cons)
  have l: "lookup_at (tfs u) p = Some DirN" "lookup_at (tfs u) ?f = Some (FileN (ew_file t))"
    using lookup_at_canonical [OF assms(6)] assms(7-9) c by simp_all
  have k: "kstat (tfs u) ?f = Found ?f" using kstat_present [OF assms(6) c] assms(9) by simp
  show ?thesis
    using l k rd assms(5,9)
    by (simp add: load_trace_def read_events_file_def path_is_dir_def path_is_file_def read_bytes_def
        kernel_ok_kcall bindE_def of_sum_def ret_def Let_def del: lit_Cons)
qed

text \<open>The trace of the sample run, put next to the other files of the sample workspace.\<close>

definition sample_traced :: "pybytes \<Rightarrow> fsys" where
  "sample_traced file =
     fmap_of_list (([lit ''w'', lit ''events.jsonl''], FileN file) # sample_tree)"

lemma sample_traced_ok:
  "wf_fs (sample_traced file)" "canonical (sample_traced file) [lit ''w'']"
  "fmlookup (sample_traced file) [lit ''w''] = Some DirN"
  "fmlookup (sample_traced file) ([lit ''w''] @ [lit ''events.jsonl'']) = Some (FileN file)"
proof -
  show wf: "wf_fs (sample_traced file)"
    unfolding sample_traced_def by (rule wf_tree_fs) (simp add: wf_tree_def sample_tree_def)
  show l: "fmlookup (sample_traced file) [lit ''w''] = Some DirN"
    "fmlookup (sample_traced file) ([lit ''w''] @ [lit ''events.jsonl'']) = Some (FileN file)"
    by (simp_all add: sample_traced_def sample_tree_def fmlookup_of_list)
  have "proper_name (lit ''w'')" by code_simp
  with l(1) canonical_root [OF wf] show "canonical (sample_traced file) [lit ''w'']"
    using canonical_snoc [of "sample_traced file" "[]" "lit ''w''"] by simp
qed

theorem load_trace_of_run_witness:
  "\<exists>d t task. run (dumping sample_dump) (sample_task 1) sample_rt (sample_loop_st EchoClient) = (Inr d, t) \<and>
     fst (load_trace (dumping sample_dump) sample_load [lit ''w''] (sample_st (sample_traced (ew_file t)))) =
       Inr \<lparr>tr_task_id = task, tr_events = ew_log t\<rparr>"
proof -
  let ?env = "dumping sample_dump"
  obtain d t where r: "run ?env (sample_task 1) sample_rt (sample_loop_st EchoClient) = (Inr d, t)"
    and f: "ew_torn t = None" using sample_run by blast
  moreover have "json_lines (model_dump_json ?env) sample_load" by (simp add: dumping_simps sample_codec)
  moreover have "kernel_ok ?env" using sample_ok(1)
    by (simp add: dumping_def sample_llm_env_def sample_env_def kernel_ok_def tool_env.defs llm_env.defs)
  ultimately show ?thesis
    using load_trace_of_run [where u = "sample_st (sample_traced (ew_file t))", OF _ sample_fresh r]
      sample_traced_ok r by fastforce
qed

end
