(* ===== verification/EntryPoint.thy ===== *)
theory EntryPoint
  imports CommandLine Trace
begin

text \<open>
  The entry point (\<^verbatim>\<open>__main__.py\<close>): options, task file, API key, directories, a fresh trace file, the
  LLM client, the run, and the exit status. What is written through the open trace file is the writer's
  \<open>ew_file\<close>; the file system of the tools holds the file as it was when it was opened, plus what the tools do to it.
\<close>

section \<open>Definitions\<close>

text \<open>\<open>environ\<close> is \<^verbatim>\<open>os.environ.get\<close>; the YAML parser and pydantic's validation are parameters.\<close>

record main_env = llm_env +
  environ :: "string \<Rightarrow> pystr option"
  safe_load :: "pystr \<Rightarrow> pyexc + json"
  model_validate :: "json \<Rightarrow> pyexc + agent_task_spec"

text \<open>
  A path as the kernel sees it, from the root. The message of an error about a relative path shows
  this absolute form.
\<close>

definition at_path :: "'e tool_env_scheme \<Rightarrow> purepath \<Rightarrow> path" where
  "at_path env pp = (if pp_root pp = 0 then cwd env else []) @ pp_parts pp"

text \<open>\<^verbatim>\<open>logging.basicConfig(level=...)\<close> accepts the level names of the logging module.\<close>

definition level_names :: "pystr list" where
  "level_names = map lit [''CRITICAL'', ''FATAL'', ''ERROR'', ''WARN'', ''WARNING'', ''INFO'', ''DEBUG'', ''NOTSET'']"

definition basic_config :: "'e main_env_scheme \<Rightarrow> pyexc + unit" where
  "basic_config env =
     (let level = case_option (lit ''INFO'') id (environ env ''AGENT_ANVIL_LOG_LEVEL'')
      in if level \<in> set level_names then Inr ()
         else Inl (PyExc ValueError (lit ''Unknown level: '' @ str_repr env level)))"

definition make_client :: "'e main_env_scheme \<Rightarrow> pystr \<Rightarrow> pystr \<Rightarrow> pystr option \<Rightarrow> pyexc + client" where
  "make_client env provider model api_key =
     (if provider = lit ''mock'' then Inr EchoClient
      else if provider = lit ''anthropic''
      then anthropic_client model api_key (environ env ''ANTHROPIC_API_KEY'')
      else Inl (PyExc ValueError (lit ''Unknown provider: '' @ provider)))"

definition read_api_key :: "'e main_env_scheme \<Rightarrow> pystr option \<Rightarrow> ('z tool_st_scheme, pystr option) eff" where
  "read_api_key env api_key_file =
     (let from_env = ret (environ env ''ANTHROPIC_API_KEY'')
      in case api_key_file of
           None \<Rightarrow> from_env
         | Some f \<Rightarrow>
             if f = [] then from_env
             else bindE (path_is_file env (at_path env (pure_path f))) (\<lambda>isf.
               if isf
               then bindE (read_text env (at_path env (pure_path f))) (\<lambda>text. ret (Some (strip text)))
               else from_env))"

text \<open>\<^verbatim>\<open>if events_path.exists(): events_path.unlink()\<close>\<close>

definition fresh_events :: "'e tool_env_scheme \<Rightarrow> path \<Rightarrow> ('z tool_st_scheme, unit) eff" where
  "fresh_events env p = bindE (path_exists env p) (\<lambda>x. if x then unlink env p else ret ())"

definition install_writer :: "writer_st \<Rightarrow> 'z writer_st_scheme \<Rightarrow> 'z writer_st_scheme" where
  "install_writer w s = s
     \<lparr>clk := clk w, ew_task_id := ew_task_id w, ew_step := ew_step w, ew_file := ew_file w, ew_buf := ew_buf w,
      ew_torn := ew_torn w, ew_closed := ew_closed w, ew_echo := ew_echo w, ew_log := ew_log w\<rparr>"

text \<open>\<^verbatim>\<open>EventWriter(path, task_id, clock=clock, echo=echo)\<close>.\<close>

definition open_writer ::
  "'e tool_env_scheme \<Rightarrow> path \<Rightarrow> pystr \<Rightarrow> clock \<Rightarrow> bool \<Rightarrow> ('z tool_st_scheme, unit) eff" where
  "open_writer env p task_id c echo =
     thenE (mkdir_parents env (butlast p))
    (bindE (open_append env p) (\<lambda>b.
     modify (\<lambda>s. install_writer (new_writer b task_id c (os_reads s) echo) s)))"

text \<open>The \<^verbatim>\<open>with\<close> statement closes the writer on both ways out; an error of the closing takes precedence.\<close>

definition with_writer ::
  "'e writer_env_scheme \<Rightarrow> ('z writer_st_scheme, 'a) eff \<Rightarrow> ('z writer_st_scheme, 'a) eff" where
  "with_writer env m = (\<lambda>s. case m s of (y, t) \<Rightarrow>
     (case close env t of (Inr _, u) \<Rightarrow> (y, u) | (Inl x, u) \<Rightarrow> (Inl x, u)))"

definition task_provider :: "namespace \<Rightarrow> agent_task_spec \<Rightarrow> pystr" where
  "task_provider args spec =
     the (str_or (ns_provider args)
            (Some (case spec_model spec of Some m \<Rightarrow> m_provider m | None \<Rightarrow> lit ''mock'')))"

definition task_model :: "agent_task_spec \<Rightarrow> pystr" where
  "task_model spec = (case spec_model spec of Some m \<Rightarrow> m_name m | None \<Rightarrow> lit ''scripted'')"

definition set_client :: "client \<Rightarrow> 'z client_st_scheme \<Rightarrow> 'z client_st_scheme" where
  "set_client c s = s\<lparr>llm_client := c, api_calls := 0\<rparr>"

definition events_path :: "'e tool_env_scheme \<Rightarrow> namespace \<Rightarrow> path" where
  "events_path env args = at_path env (pure_path (ns_trace_dir args)) @ [lit ''events.jsonl'']"

text \<open>How \<^verbatim>\<open>main\<close> ends: it returns a status, or argparse raises \<^verbatim>\<open>SystemExit\<close>.\<close>

datatype exit = Returned int | SystemExit int

text \<open>From \<^verbatim>\<open>spec = load_task(task_path)\<close> to the end.\<close>

definition run_task :: "'e main_env_scheme \<Rightarrow> namespace \<Rightarrow> agent_task_spec \<Rightarrow> ('z loop_st_scheme, exit) eff" where
  "run_task env args spec =
     (let ws = pure_path (ns_workspace args);
          rt = \<lparr>rt_task_id = ns_task_id args, rt_workspace = ws\<rparr>
      in
      bindE (read_api_key env (environ env ''AGENT_ANVIL_API_KEY_FILE'')) (\<lambda>api_key.
      thenE (mkdir_parents env (at_path env ws))
     (thenE (mkdir_parents env (butlast (events_path env args)))
     (thenE (fresh_events env (events_path env args))
     (bindE (of_sum (make_client env (task_provider args spec) (task_model spec) api_key)) (\<lambda>client.
      thenE (modify (set_client client))
     (thenE (open_writer env (events_path env args) (ns_task_id args) SystemClock (ns_echo_events args))
     (thenE (with_writer env (run env spec rt))
     (ret (Returned 0))))))))))"

definition main :: "'e main_env_scheme \<Rightarrow> pystr list \<Rightarrow> ('z loop_st_scheme, exit) eff" where
  "main env argv =
     thenE (of_sum (basic_config env))
    (case parse_args (default_args (environ env)) argv of
       Inl n \<Rightarrow> ret (SystemExit n)
     | Inr args \<Rightarrow>
         (let task_path = at_path env (pure_path (ns_task args)) in
          bindE (path_is_file env task_path) (\<lambda>isf.
          if \<not> isf then ret (Returned 1)
          else bindE (load_task env (safe_load env) (model_validate env) task_path) (run_task env args))))"

text \<open>The exit status of \<^verbatim>\<open>sys.exit(main())\<close>; an uncaught exception exits with 1.\<close>

definition exit_status :: "pyexc + exit \<Rightarrow> int" where
  "exit_status y = (case y of Inl _ \<Rightarrow> 1 | Inr (Returned n) \<Rightarrow> n | Inr (SystemExit n) \<Rightarrow> n)"

section \<open>Exit status\<close>

lemma glued_help_range: "glued_help s \<in> {0, 2}"
  by (induction s) auto

lemma classify_help: "classify s = Some (ArgHelp n) \<Longrightarrow> n \<in> {0, 2}"
proof -
  have "of_action a e = ArgHelp n \<Longrightarrow> n \<in> {0, 2}" for a e by (cases a) (auto split: if_splits)
  then show "classify s = Some (ArgHelp n) \<Longrightarrow> n \<in> {0, 2}"
    using glued_help_range [of "drop 2 s"]
    by (auto simp: classify_def Let_def split: if_splits option.splits list.splits prod.splits)
qed

lemma classify_all_help:
  "classify_all w = Some ks \<Longrightarrow> (ArgHelp n, s) \<in> set ks \<Longrightarrow> n \<in> {0, 2}"
  by (induction w arbitrary: ks)
    (auto split: if_splits option.splits simp del: lit_Cons insert_iff intro: classify_help dest: classify_help)

lemma consume_status:
  "consume ks extras ns = Inl n \<Longrightarrow> (\<And>m s. (ArgHelp m, s) \<in> set ks \<Longrightarrow> m \<in> {0, 2}) \<Longrightarrow> n \<in> {0, 2}"
proof (induction ks extras ns rule: consume.induct)
  case (4 d u k v w extras ns)
  then show ?case by (cases "k = ArgValue") auto
qed (auto split: if_splits)

lemma parse_args_status: "parse_args d argv = Inl n \<Longrightarrow> n \<in> {0, 2}"
proof (cases "classify_all argv")
  case (Some ks)
  assume "parse_args d argv = Inl n"
  with Some have "consume ks False d = Inl n" by (simp add: parse_args_def)
  then show ?thesis by (rule consume_status) (rule classify_all_help [OF Some])
qed (simp add: parse_args_def)

lemma run_task_returns: "run_task env args spec s = (Inr r, t) \<Longrightarrow> r = Returned 0"
  by (auto simp: run_task_def Let_def thenE_def bindE_Inr_iff ret_def)

text \<open>
  The process exits with 0, 1 or 2 only: 0 when the run returned (whatever its outcome) or help was
  asked for, 1 for a missing task file or an uncaught exception, 2 for a command line argparse
  refuses. In particular the status 124 of the exit conventions is never produced.
\<close>

lemma main_exit_status: "exit_status (fst (main env argv s)) \<in> {0, 1, 2}"
proof -
  obtain y t where m: "main env argv s = (y, t)" by fastforce
  have "n \<in> {0, 2}" if "y = Inr (SystemExit n)" for n
    using m that parse_args_status [of "default_args (environ env)" argv n]
    by (auto simp: main_def thenE_def bindE_Inr_iff ret_def of_sum_def Let_def dest: run_task_returns
        split: sum.splits if_splits)
  moreover have "n \<in> {0, 1}" if "y = Inr (Returned n)" for n
    using m that
    by (auto simp: main_def thenE_def bindE_Inr_iff ret_def of_sum_def Let_def dest: run_task_returns
        split: sum.splits if_splits)
  ultimately show ?thesis
    using m by (cases y; cases "projr y") (auto simp: exit_status_def)
qed

text \<open>
  A task file that is not there ends the program with status 1 before anything is touched: no
  directory is made, no trace file is removed or opened, no event is written.
\<close>

lemma main_missing_task:
  assumes "kernel_ok env" "basic_config env = Inr ()" "parse_args (default_args (environ env)) argv = Inr args"
    "\<nexists>b. lookup_at (tfs s) (at_path env (pure_path (ns_task args))) = Some (FileN b)"
  shows "main env argv s = (Inr (Returned 1), s)"
  using assms
  by (auto simp: main_def thenE_def bindE_def of_sum_def Let_def path_is_file_def kernel_ok_kcall ret_def
      split: option.splits node.splits)

section \<open>Only directories are new\<close>

text \<open>Up to the opening of the trace file, the program adds nothing but directories to the file system.\<close>

definition dirs_only :: "'z tool_st_scheme \<Rightarrow> 'z tool_st_scheme \<Rightarrow> bool" where
  "dirs_only s t \<longleftrightarrow> (wf_fs (tfs s) \<longrightarrow> wf_fs (tfs t)) \<and>
     (\<forall>q. fmlookup (tfs t) q = fmlookup (tfs s) q \<or> fmlookup (tfs s) q = None \<and> fmlookup (tfs t) q = Some DirN)"

lemma dirs_only_refl [simp]: "reflp dirs_only"
  by (simp add: reflp_def dirs_only_def)

lemma dirs_only_trans [simp]: "transp dirs_only"
proof (rule transpI)
  fix s t u :: "'z tool_st_scheme" assume a: "dirs_only s t" "dirs_only t u"
  have "fmlookup (tfs u) q = fmlookup (tfs s) q \<or> fmlookup (tfs s) q = None \<and> fmlookup (tfs u) q = Some DirN" for q
    using a [unfolded dirs_only_def, THEN conjunct2, THEN spec, of q] by auto
  note step = this
  have wf: "wf_fs (tfs s) \<longrightarrow> wf_fs (tfs u)"
    using a [unfolded dirs_only_def, THEN conjunct1] by blast
  show "dirs_only s u" unfolding dirs_only_def by (rule conjI [OF wf allI [OF step]])
qed

lemma dirs_only_old: "dirs_only s t \<Longrightarrow> fmlookup (tfs t) q = Some v \<Longrightarrow> v \<noteq> DirN \<Longrightarrow> fmlookup (tfs s) q = Some v"
  unfolding dirs_only_def by (drule conjunct2, drule spec [of _ q]) auto

lemma dirs_only_canonical: "dirs_only s t \<Longrightarrow> canonical (tfs s) p \<Longrightarrow> canonical (tfs t) p"
  unfolding canonical_def using dirs_only_old by blast

named_theorems dirs_frame \<open>Operations that add only directories\<close>

lemma kcall_dirs [dirs_frame]: "keeps dirs_only (kcall env op p f)"
  by (auto simp: keeps_def kcall_def dirs_only_def split: option.splits)

lemma path_ops_dirs [dirs_frame]:
  "keeps dirs_only (path_exists env p)" "keeps dirs_only (path_is_file env p)"
  "keeps dirs_only (path_is_dir env p)" "keeps dirs_only (read_bytes env p)"
  by (simp_all add: path_exists_def path_is_file_def path_is_dir_def read_bytes_def kcall_dirs)

lemma read_text_dirs [dirs_frame]: "keeps dirs_only (read_text env p)"
  unfolding read_text_def by (intro keeps_intros dirs_frame) simp_all

lemma kmkdir_wf:
  assumes "wf_fs fs" "kmkdir fs p = Inr fs'"
  shows "wf_fs fs'"
proof -
  from assms(2) obtain d where "fmlookup fs d = Some DirN" "fs' = fmupd (d @ [last p]) DirN fs"
    by (auto simp: kmkdir_def split: if_splits walk_result.splits)
  with wf_fs_upd [OF assms(1), of "d @ [last p]" DirN] show ?thesis by simp
qed

lemma os_mkdir_dirs: "keeps dirs_only (os_mkdir env p)"
proof (rule keepsI)
  fix s y and t :: "'z tool_st_scheme"
  assume "os_mkdir env p s = (y, t)"
  then have "t = s \<or> (\<exists>fs. kmkdir (tfs s) p = Inr fs \<and> t = s\<lparr>tfs := fs\<rparr>)"
    by (auto simp: os_mkdir_def split: option.splits sum.splits)
  then consider "t = s" | fs where "kmkdir (tfs s) p = Inr fs" "t = s\<lparr>tfs := fs\<rparr>" by blast
  then show "dirs_only s t"
  proof cases
    case (2 fs)
    moreover from 2(1) have "fmlookup fs q = fmlookup (tfs s) q \<or> fmlookup (tfs s) q = None \<and> fmlookup fs q = Some DirN" for q
      by (auto simp: kmkdir_def split: if_splits walk_result.splits)
    ultimately show ?thesis using kmkdir_wf [OF _ 2(1)] by (simp add: dirs_only_def)
  qed (simp add: dirs_only_def)
qed

lemma unless_dir_dirs: "keeps dirs_only (unless_dir env p x)"
  unfolding unless_dir_def by (intro keeps_intros dirs_frame) simp_all

lemma mkdir_one_dirs: "keeps dirs_only (mkdir_one env p)"
  unfolding mkdir_one_def
  by (rule keeps_bind [OF _ os_mkdir_dirs])
    (auto split: option.splits sum.splits errno.splits intro!: keeps_stateless unless_dir_dirs)

lemma mkdir_parents_dirs [dirs_frame]: "keeps dirs_only (mkdir_parents env p)"
proof (induction env p rule: mkdir_parents.induct)
  case (1 env p)
  then show ?case
    by (subst mkdir_parents.simps)
      (rule keeps_bind [OF _ os_mkdir_dirs],
       auto split: option.splits sum.splits errno.splits
         intro!: keeps_stateless unless_dir_dirs keeps_then mkdir_one_dirs)
qed

lemma load_task_dirs [dirs_frame]: "keeps dirs_only (load_task env l v p)"
  unfolding load_task_def by (intro keeps_intros dirs_frame) simp_all

lemma read_api_key_dirs [dirs_frame]: "keeps dirs_only (read_api_key env f)"
  unfolding read_api_key_def Let_def
  by (auto intro!: keeps_intros dirs_frame split: option.splits)

section \<open>The trace file is fresh\<close>

lemma kunlink_canonical:
  assumes "canonical fs p" "kunlink env p fs = Inr fs'" "p \<noteq> []"
  shows "fs' = fmdrop p fs" "\<exists>v. fmlookup fs p = Some v \<and> v \<noteq> DirN"
proof -
  from assms(2) obtain d v where d: "kstat fs (butlast p) = Found d" "fs' = fmdrop (d @ [last p]) fs"
    "fmlookup fs (d @ [last p]) = Some v" "v \<noteq> DirN"
    by (auto simp: kunlink_def split: walk_result.splits if_splits option.splits node.splits)
  moreover have "d = butlast p" using d(1) by (rule kstat_Found [OF canonical_butlast [OF assms(1)]])
  ultimately show "fs' = fmdrop p fs" "\<exists>v. fmlookup fs p = Some v \<and> v \<noteq> DirN" using assms(3) by auto
qed

lemma fresh_events_gone:
  assumes "fresh_events env p s = (Inr u, t)" "canonical (tfs s) p" "wf_fs (tfs s)" "p \<noteq> []"
  shows "fmlookup (tfs t) p = None" "wf_fs (tfs t)" "canonical (tfs t) p"
    "\<And>q. q \<noteq> p \<Longrightarrow> fmlookup (tfs t) q = fmlookup (tfs s) q"
proof -
  from assms(1) have "(lookup_at (tfs s) p = None \<and> t = s) \<or>
      (\<exists>fs. kunlink env p (tfs s) = Inr fs \<and> t = s\<lparr>tfs := fs\<rparr>)"
    by (auto simp: fresh_events_def bindE_Inr_iff path_exists_def kcall_def unlink_def modify_def ret_def
        split: option.splits if_splits)
  then consider "lookup_at (tfs s) p = None" "t = s"
    | fs where "kunlink env p (tfs s) = Inr fs" "t = s\<lparr>tfs := fs\<rparr>" by (elim disjE conjE exE)
  then have "fmlookup (tfs t) p = None \<and> wf_fs (tfs t) \<and> (\<forall>q. q \<noteq> p \<longrightarrow> fmlookup (tfs t) q = fmlookup (tfs s) q)"
  proof cases
    case 1
    with kstat_present [OF assms(3,2)] show ?thesis
      using assms(3) by (cases "fmlookup (tfs s) p") (auto simp: lookup_at_def)
  next
    case (2 fs)
    note k = kunlink_canonical [OF assms(2) 2(1) assms(4)]
    have "fmlookup (tfs s) (p @ [n]) = None" for n
      using assms(3) k(2) unfolding wf_fs_def by (metis option.inject)
    then have "wf_fs (fmdrop p (tfs s))"
      using assms(3,4) unfolding wf_fs_def by auto
    with k 2 show ?thesis by auto
  qed
  then show t: "fmlookup (tfs t) p = None" "wf_fs (tfs t)" "\<And>q. q \<noteq> p \<Longrightarrow> fmlookup (tfs t) q = fmlookup (tfs s) q"
    by simp_all
  have "fmlookup (tfs t) q = Some v \<Longrightarrow> fmlookup (tfs s) q = Some v" for q v using t by (cases "q = p") auto
  with assms(2) show "canonical (tfs t) p" unfolding canonical_def by blast
qed

text \<open>
  What the steps before the run do to the file system: the trace file is there and empty, directories
  may have been added, and everything else is as before.
\<close>

definition opened :: "path \<Rightarrow> fsys \<Rightarrow> fsys \<Rightarrow> bool" where
  "opened p fs fs' \<longleftrightarrow> wf_fs fs' \<and> fmlookup fs' p = Some (FileN []) \<and>
     (\<forall>q. q \<noteq> p \<longrightarrow> fmlookup fs' q = fmlookup fs q \<or> fmlookup fs q = None \<and> fmlookup fs' q = Some DirN)"

lemma open_writer_state:
  assumes "open_writer env p task_id c echo s = (Inr u, t)" "wf_fs (tfs s)" "canonical (tfs s) p" "fmlookup (tfs s) p = None"
  shows "\<exists>w. t = install_writer (new_writer [] task_id c (os_reads w) echo) w \<and> opened p (tfs s) (tfs w)"
proof -
  from assms(1) obtain v b w where v: "mkdir_parents env (butlast p) s = (Inr (), v)"
    and b: "open_append env p v = (Inr b, w)"
    and t: "t = install_writer (new_writer b task_id c (os_reads w) echo) w"
    by (auto simp: open_writer_def thenE_def bindE_Inr_iff modify_def)
  have d: "dirs_only s v" by (rule keepsD [OF mkdir_parents_dirs v])
  have cv: "canonical (tfs v) p" and wf: "wf_fs (tfs v)"
    using dirs_only_canonical [OF d assms(3)] d assms(2) by (simp_all add: dirs_only_def)
  have nf: "fmlookup (tfs v) p \<noteq> Some (FileN x)" for x
    using dirs_only_old [OF d, of p "FileN x"] assms(4) by auto
  obtain fs where k: "kappend env p (tfs v) = Inr (b, fs)" "w = v\<lparr>tfs := fs\<rparr>"
    using b by (auto simp: open_append_def kcall_def bindE_Inr_iff thenE_def modify_def ret_def split: option.splits)
  have "kstat (tfs v) p = Missing p \<and> b = [] \<and> fs = fmupd p (FileN []) (tfs v)"
  proof (cases "kstat (tfs v) p")
    case (Found q)
    with kstat_Found [OF cv Found] nf k show ?thesis by (auto simp: kappend_def split: option.splits node.splits)
  next
    case (Missing q)
    with kstat_Missing [OF wf cv Missing] k show ?thesis by (simp add: kappend_def)
  qed (use k in \<open>simp add: kappend_def\<close>)
  moreover from this have m: "fmlookup (tfs v) p = None" "p \<noteq> []" "fmlookup (tfs v) (butlast p) = Some DirN"
    using kstat_Missing [OF wf cv] by blast+
  moreover have "fmlookup (tfs v) (p @ [n]) = None" for n
    using wf m(1) unfolding wf_fs_def by fastforce
  ultimately have "opened p (tfs s) (tfs w)"
    using wf_fs_upd [OF wf m(2,3), of "FileN []"] d k(2) by (simp add: opened_def dirs_only_def)
  with t \<open>_ \<and> b = [] \<and> _\<close> show ?thesis by blast
qed

lemma open_writer_fresh:
  assumes "open_writer env p task_id c echo s = (Inr u, t)" "wf_fs (tfs s)" "canonical (tfs s) p" "fmlookup (tfs s) p = None"
  shows "ew_file t = [] \<and> ew_buf t = [] \<and> ew_torn t = None \<and> ew_log t = []" "ew_task_id t = task_id" "clk t = c"
    "\<not> ew_closed t" "ew_step t = 0" "opened p (tfs s) (tfs t)"
  using open_writer_state [OF assms] by (auto simp: install_writer_def new_writer_def)

section \<open>What a completed program leaves\<close>

interpretation run_task_id: loop_invariant env "\<lambda>s :: 'z loop_st_scheme. ew_task_id s = task_id"
  for env :: "'e llm_env_scheme" and task_id
proof (intro loop_invariant.intro trace_invariant.intro)
  show "preserves (\<lambda>s :: 'z loop_st_scheme. ew_task_id s = task_id) (emit env ty data)" for ty data
    by (rule preservesI) (auto dest!: emit_spec(1) simp: emit_frame_def)
qed (simp add: writer_view_def)

text \<open>The steps of a program that returned 0, with what held when the run began.\<close>

lemma run_task_run:
  fixes s t :: "'z loop_st_scheme"
  assumes "run_task env args spec s = (Inr r, t)" "wf_fs (tfs s)" "canonical (tfs s) (events_path env args)"
  shows "\<exists>(u :: 'z loop_st_scheme) d v. run env spec \<lparr>rt_task_id = ns_task_id args, rt_workspace = pure_path (ns_workspace args)\<rparr> u
      = (Inr d, v) \<and> fresh u \<and> ew_task_id u = ns_task_id args \<and> clk u = SystemClock \<and> \<not> ew_closed u \<and>
      opened (events_path env args) (tfs s) (tfs u) \<and> close env v = (Inr (), t) \<and> r = Returned 0"
proof -
  let ?p = "events_path env args"
  from assms(1) obtain k s1 s2 s3 s4 c s5 d v where
    s1: "read_api_key env (environ env ''AGENT_ANVIL_API_KEY_FILE'') s = (Inr k, s1)"
    and s2: "mkdir_parents env (at_path env (pure_path (ns_workspace args))) s1 = (Inr (), s2)"
    and s3: "mkdir_parents env (butlast ?p) s2 = (Inr (), s3)"
    and s4: "fresh_events env ?p s3 = (Inr (), s4)"
    and s5: "open_writer env ?p (ns_task_id args) SystemClock (ns_echo_events args) (set_client c s4) = (Inr (), s5)"
    and v: "with_writer env (run env spec \<lparr>rt_task_id = ns_task_id args, rt_workspace = pure_path (ns_workspace args)\<rparr>) s5 = (Inr d, t)"
      "r = Returned 0"
    by (auto simp: run_task_def Let_def thenE_def bindE_Inr_iff modify_def of_sum_def ret_def)
  have d3: "dirs_only s s3"
    using keepsD [OF read_api_key_dirs s1] keepsD [OF mkdir_parents_dirs s2] keepsD [OF mkdir_parents_dirs s3]
    by (meson dirs_only_trans transpD)
  then have w: "wf_fs (tfs s3)" and c3: "canonical (tfs s3) ?p"
    using assms(2) dirs_only_canonical [OF d3 assms(3)] by (simp_all add: dirs_only_def)
  have "?p \<noteq> []" by (simp add: events_path_def)
  note g = fresh_events_gone [OF s4 c3 w this]
  have f: "tfs (set_client c s4) = tfs s4" by (simp add: set_client_def)
  note o = open_writer_fresh [OF s5, unfolded f, OF g(2,3,1)]
  have "opened ?p (tfs s) (tfs s5)"
    using o(6) g(4) d3 unfolding opened_def dirs_only_def by (metis option.distinct(1))
  moreover obtain u where "run env spec \<lparr>rt_task_id = ns_task_id args, rt_workspace = pure_path (ns_workspace args)\<rparr> s5 = (Inr d, u)"
    "close env u = (Inr (), t)"
    using v(1) by (auto simp: with_writer_def split: prod.splits sum.splits)
  ultimately show ?thesis using o v(2) by (intro exI [of _ s5] exI [of _ d] exI [of _ u]) (simp add: fresh_def)
qed

text \<open>Closing the writer.\<close>

lemma close_frame:
  assumes "close env s = (y, t)"
  shows "ew_log t = ew_log s" "ew_task_id t = ew_task_id s" "ew_closed t" "writer_st.more t = writer_st.more s"
    "ew_buf s = [] \<Longrightarrow> ew_file t = ew_file s \<and> ew_buf t = [] \<and> ew_torn t = ew_torn s"
    "\<exists>c. ew_file t = ew_file s @ c" "ew_torn s \<noteq> None \<Longrightarrow> ew_torn t = ew_torn s"
  using assms
  by (auto simp: close_def flush_out_def torn_now_def split: if_splits option.splits)

lemma close_file_ok:
  assumes "file_ok env s" "close env s = (y, t)"
  shows "file_ok env t"
proof (cases "ew_buf s = []")
  case True
  with close_frame [OF assms(2)] assms(1) show ?thesis by (intro file_ok_view [OF assms(1)]) auto
next
  case False
  from assms(1) obtain ls rest where ls: "lines_ok env s ls rest" by (auto simp: file_ok_def)
  then have "ew_torn s \<noteq> None" using False by (auto simp: lines_ok_def)
  moreover obtain c where "ew_file t = ew_file s @ c" using close_frame(6) [OF assms(2)] by blast
  ultimately have "lines_ok env t ls (rest @ c)"
    using ls close_frame(1,7) [OF assms(2)] by (auto simp: lines_ok_def whole_def)
  then show ?thesis unfolding file_ok_def by blast
qed

text \<open>The lines of the events, as bytes.\<close>

definition event_lines :: "'e writer_env_scheme \<Rightarrow> envelope list \<Rightarrow> pybytes" where
  "event_lines env es = enc_all (concat (map (\<lambda>e. projr (model_dump_json env e) @ [nl]) es))"

lemma file_lines:
  assumes "file_ok env s" "ew_torn s = None"
  shows "ew_file s = event_lines env (ew_log s)"
proof -
  from assms(1) obtain ls rest where "lines_ok env s ls rest" by (auto simp: file_ok_def)
  with assms(2) have ls: "ew_file s = enc_all (jsonl ls)" "list_all2 (\<lambda>l e. model_dump_json env e = Inr l) ls (ew_log s)"
    by (simp_all add: lines_ok_def whole_def)
  from ls(2) have "ls = map (\<lambda>e. projr (model_dump_json env e)) (ew_log s)"
    by (induction rule: list_all2_induct) auto
  then show ?thesis by (simp add: ls(1) jsonl_def event_lines_def comp_def)
qed

text \<open>
  A program that returned 0: the task that was loaded, and the run of that task, which began in a fresh state and
  ended in the state that was then closed.
\<close>

definition main_rt :: "namespace \<Rightarrow> loop_runtime" where
  "main_rt args = \<lparr>rt_task_id = ns_task_id args, rt_workspace = pure_path (ns_workspace args)\<rparr>"

lemma main_ran:
  fixes s t :: "'z loop_st_scheme"
  assumes "main env argv s = (Inr (Returned 0), t)" "parse_args (default_args (environ env)) argv = Inr args"
    "wf_fs (tfs s)" "canonical (tfs s) (events_path env args)"
  obtains spec d and u v :: "'z loop_st_scheme" where
    "fst (load_task env (safe_load env) (model_validate env) (at_path env (pure_path (ns_task args))) s) = Inr spec"
    "run env spec (main_rt args) u = (Inr d, v)" "fresh u" "ew_task_id u = ns_task_id args" "clk u = SystemClock"
    "\<not> ew_closed u" "opened (events_path env args) (tfs s) (tfs u)" "close env v = (Inr (), t)"
proof -
  let ?tp = "at_path env (pure_path (ns_task args))"
  from assms(1,2) obtain isf s1 spec s2 where
    s1: "path_is_file env ?tp s = (Inr isf, s1)" "load_task env (safe_load env) (model_validate env) ?tp s1 = (Inr spec, s2)"
    and r: "run_task env args spec s2 = (Inr (Returned 0), t)"
    by (auto simp: main_def thenE_def bindE_Inr_iff of_sum_def Let_def ret_def split: if_splits)
  have e: "s1 = s" using s1(1) by (auto simp: path_is_file_def kcall_def split: option.splits)
  have d: "dirs_only s s2" using keepsD [OF load_task_dirs s1(2)] e by simp
  then have "wf_fs (tfs s2)" "canonical (tfs s2) (events_path env args)"
    using assms(3) dirs_only_canonical [OF d assms(4)] by (simp_all add: dirs_only_def)
  from run_task_run [OF r this] obtain u v :: "'z loop_st_scheme" and d' where
    u: "run env spec (main_rt args) u = (Inr d', v)" "fresh u" "ew_task_id u = ns_task_id args" "clk u = SystemClock"
      "\<not> ew_closed u" "opened (events_path env args) (tfs s2) (tfs u)" "close env v = (Inr (), t)"
    unfolding main_rt_def by blast
  have "opened (events_path env args) (tfs s) (tfs u)"
    using u(6) d unfolding opened_def dirs_only_def by (metis option.distinct(1))
  with u s1(2) e show thesis by (intro that [of spec u d' v]) simp_all
qed

text \<open>What the events and the file of such a program are.\<close>

lemma main_one_run:
  fixes s t :: "'z loop_st_scheme"
  assumes "run env spec rt u = (Inr d, v)" "fresh u" "close env v = (Inr (), t)"
  shows "trace_path Start (ew_log t) Done" "list_all (\<lambda>e. e_task_id e = ew_task_id u) (ew_log t)" "ew_closed t"
    "ew_torn t = None \<Longrightarrow> ew_file t = event_lines env (ew_log t)"
proof -
  note c = close_frame [OF assms(3)]
  have "envelopes_ok u" using assms(2) by (simp add: fresh_def envelopes_ok_def)
  then have v: "envelopes_ok v" "ew_task_id v = ew_task_id u" "file_ok env v"
    using preservesD [OF run_envelopes.run_keeps _ assms(1)] preservesD [OF run_task_id.run_keeps _ assms(1)]
      preservesD [OF run_file.run_keeps fresh_file_ok [OF assms(2)] assms(1)] by blast+
  have "conforms [] Done v" by (rule hoare_InrD [OF run_conforms_hoare _ assms(1)]) (use assms(2) in \<open>simp add: fresh_def\<close>)
  then show "trace_path Start (ew_log t) Done" by (simp add: conforms_def c(1))
  show "list_all (\<lambda>e. e_task_id e = ew_task_id u) (ew_log t)" using v(1,2) by (simp add: c(1) envelopes_ok_def list_all_iff)
  show "ew_closed t" by (rule c(3))
  show "ew_torn t = None \<Longrightarrow> ew_file t = event_lines env (ew_log t)"
    by (rule file_lines [OF close_file_ok [OF v(3) assms(3)]])
qed

end
