(* ===== verification/EntryProps.thy ===== *)
theory EntryProps
  imports EntryPoint
begin

text \<open>
  The program completes when nothing outside it refuses: every step of \<^verbatim>\<open>main\<close> before the run succeeds,
  and the run returns whatever the agent's task comes to.
\<close>

section \<open>The steps before the run\<close>

lemma mkdir_parents_ready:
  assumes "kernel_ok env" "wf_fs (tfs s)" "canonical (tfs s) q" "open_path (tfs s) q"
  shows "\<exists>t. mkdir_parents env q s = (Inr (), t) \<and> fmlookup (tfs t) q = Some DirN \<and> wf_fs (tfs t) \<and>
    grown q (tfs s) (tfs t)"
proof -
  obtain t where t: "mkdir_parents env q s = (Inr (), t)" "fmlookup (tfs t) q = Some DirN"
    using mkdir_parents_total [OF assms] by blast
  have "dir_inv q (tfs s) s" using assms(2,3) by (simp add: dir_inv_def)
  with mkdir_parents_inv [of q q] t(1) have "dir_inv q (tfs s) t" by (blast dest: preservesD)
  with t show ?thesis by (auto simp: dir_inv_def)
qed

lemma open_path_dir:
  assumes "wf_fs fs" "fmlookup fs p = Some DirN"
  shows "open_path fs p"
  unfolding open_path_def
proof (intro allI impI)
  fix q assume "prefix q p"
  then obtain r where "p = q @ r" by (auto simp: prefix_def)
  with assms wf_fs_ancestor [OF assms(1), of q r] show "fmlookup fs q = None \<or> fmlookup fs q = Some DirN"
    by (cases "r = []") auto
qed

lemma fresh_events_total:
  assumes "kernel_ok env" "wf_fs (tfs s)" "canonical (tfs s) p" "p \<noteq> []" "fmlookup (tfs s) p \<noteq> Some DirN"
    "fmlookup (tfs s) (butlast p) = Some DirN"
  shows "\<exists>t. fresh_events env p s = (Inr (), t) \<and> fmlookup (tfs t) (butlast p) = Some DirN"
proof (cases "fmlookup (tfs s) p")
  case None
  then have "lookup_at (tfs s) p = None"
    using kstat_absent [OF assms(2-4) _ assms(6)] by (simp add: lookup_at_def)
  with assms(1,6) show ?thesis
    by (auto simp: fresh_events_def path_exists_def kernel_ok_kcall bindE_def ret_def)
next
  case (Some v)
  have "kstat (tfs s) (butlast p) = Found (butlast p)"
    using kstat_present [OF assms(2) canonical_butlast [OF assms(3)]] assms(6) by simp
  then have k: "kunlink env p (tfs s) = Inr (fmdrop p (tfs s))"
    using Some assms(4-6) by (cases v) (auto simp: kunlink_def)
  have "lookup_at (tfs s) p = Some v" using kstat_present [OF assms(2,3)] Some by (simp add: lookup_at_def)
  moreover have "butlast p \<noteq> p" using assms(4) by (metis append_butlast_last_id append_self_conv not_Cons_self2)
  ultimately show ?thesis using assms(1,6) k
    by (auto simp: fresh_events_def path_exists_def unlink_def kernel_ok_kcall bindE_def modify_def)
qed

lemma open_writer_total:
  assumes "kernel_ok env" "wf_fs (tfs s)" "canonical (tfs s) p" "p \<noteq> []" "fmlookup (tfs s) p = None"
    "fmlookup (tfs s) (butlast p) = Some DirN"
  shows "\<exists>t. open_writer env p task_id c echo s = (Inr (), t)"
proof -
  obtain v where v: "mkdir_parents env (butlast p) s = (Inr (), v)" "fmlookup (tfs v) (butlast p) = Some DirN"
    "wf_fs (tfs v)" "grown (butlast p) (tfs s) (tfs v)"
    using mkdir_parents_ready [OF assms(1,2) canonical_butlast [OF assms(3)] open_path_dir [OF assms(2,6)]] by blast
  have "\<not> prefix p (butlast p)"
    using assms(4) by (metis append_butlast_last_id not_Cons_self2 prefix_butlast prefix_order.antisym self_append_conv)
  then have "fmlookup (tfs v) p = None" using v(4) assms(5) unfolding grown_def by metis
  then have "kstat (tfs v) p = Missing p"
    using kstat_absent [OF v(3) grown_canonical [OF v(4) assms(3)] assms(4) _ v(2)] by simp
  with v(1) assms(1) show ?thesis
    by (auto simp: open_writer_def thenE_def bindE_def open_append_def kappend_def kernel_ok_kcall modify_def ret_def)
qed

section \<open>Completion\<close>

definition sink_ok :: "'e writer_env_scheme \<Rightarrow> bool" where
  "sink_ok env \<longleftrightarrow> (\<forall>e. \<exists>js. model_dump_json env e = Inr js \<and> list_all scalar js) \<and>
     (\<forall>f l. fp_fault env f l = None) \<and> (\<forall>f l. echo_fault env f l = None)"

lemma close_total: "sink_ok env \<Longrightarrow> \<exists>t. close env s = (Inr (), t)"
  by (simp add: close_def flush_out_def sink_ok_def)

text \<open>The file system main finds: directories can be made, and the trace file is no directory or link.\<close>

definition layout_ok :: "fsys \<Rightarrow> path \<Rightarrow> path \<Rightarrow> bool" where
  "layout_ok fs ws p \<longleftrightarrow> wf_fs fs \<and> canonical fs ws \<and> open_path fs ws \<and> p \<noteq> [] \<and> canonical fs p \<and>
     open_path fs (butlast p) \<and> fmlookup fs p \<noteq> Some DirN \<and> \<not> prefix p ws"

lemma prepared:
  assumes "kernel_ok env" "layout_ok (tfs s) ws p"
  shows "\<exists>s2 s3 s4. mkdir_parents env ws s = (Inr (), s2) \<and> mkdir_parents env (butlast p) s2 = (Inr (), s3) \<and>
    fresh_events env p s3 = (Inr (), s4) \<and> wf_fs (tfs s4) \<and> canonical (tfs s4) p \<and> fmlookup (tfs s4) p = None \<and>
    fmlookup (tfs s4) (butlast p) = Some DirN"
proof -
  note l = assms(2) [unfolded layout_ok_def]
  obtain s2 where s2: "mkdir_parents env ws s = (Inr (), s2)" "wf_fs (tfs s2)" "grown ws (tfs s) (tfs s2)"
    using mkdir_parents_ready [OF assms(1)] l by blast
  have p2: "canonical (tfs s2) p" "fmlookup (tfs s2) p \<noteq> Some DirN"
    using grown_canonical [OF s2(3)] s2(3) l unfolding grown_def by metis+
  obtain s3 where s3: "mkdir_parents env (butlast p) s2 = (Inr (), s3)" "fmlookup (tfs s3) (butlast p) = Some DirN"
    "wf_fs (tfs s3)" "grown (butlast p) (tfs s2) (tfs s3)"
    using mkdir_parents_ready [OF assms(1) s2(2) canonical_butlast [OF p2(1)]] grown_open [OF s2(3)] l by blast
  have "\<not> prefix p (butlast p)"
    using l by (metis append_butlast_last_id not_Cons_self2 prefix_butlast prefix_order.antisym self_append_conv)
  then have p3: "canonical (tfs s3) p" "fmlookup (tfs s3) p \<noteq> Some DirN"
    using grown_canonical [OF s3(4) p2(1)] s3(4) p2(2) unfolding grown_def by metis+
  obtain s4 where s4: "fresh_events env p s3 = (Inr (), s4)" "fmlookup (tfs s4) (butlast p) = Some DirN"
    using fresh_events_total [OF assms(1) s3(3) p3(1) _ p3(2) s3(2)] l by blast
  note g = fresh_events_gone [OF s4(1) p3(1) s3(3)]
  with s2 s3 s4 l show ?thesis by blast
qed

lemma run_task_completes:
  fixes s :: "'z loop_st_scheme"
  assumes "kernel_ok env" "sink_ok env" "layout_ok (tfs s) (at_path env (pure_path (ns_workspace args))) (events_path env args)"
    "read_api_key env (environ env ''AGENT_ANVIL_API_KEY_FILE'') s = (Inr k, s)"
    "make_client env (task_provider args spec) (task_model spec) k = Inr c"
  shows "\<exists>t. run_task env args spec s = (Inr (Returned 0), t)"
proof -
  let ?p = "events_path env args"
  obtain s2 s3 s4 where p: "mkdir_parents env (at_path env (pure_path (ns_workspace args))) s = (Inr (), s2)"
    "mkdir_parents env (butlast ?p) s2 = (Inr (), s3)" "fresh_events env ?p s3 = (Inr (), s4)"
    "wf_fs (tfs s4)" "canonical (tfs s4) ?p" "fmlookup (tfs s4) ?p = None" "fmlookup (tfs s4) (butlast ?p) = Some DirN"
    using prepared [OF assms(1,3)] by blast
  have f: "tfs (set_client c s4) = tfs s4" by (simp add: set_client_def)
  have n: "?p \<noteq> []" by (simp add: events_path_def)
  obtain s5 where s5: "open_writer env ?p (ns_task_id args) SystemClock (ns_echo_events args) (set_client c s4) = (Inr (), s5)"
    using open_writer_total [of env "set_client c s4" ?p] assms(1) p n unfolding f by blast
  from open_writer_fresh [OF s5] p(4-6) f assms(2) have "writer_ok env s5"
    by (simp add: writer_ok_def sink_ok_def)
  then obtain d v where r: "run env spec \<lparr>rt_task_id = ns_task_id args, rt_workspace = pure_path (ns_workspace args)\<rparr> s5 = (Inr d, v)"
    using sureD [OF run_sure] by blast
  obtain t where "close env v = (Inr (), t)" using close_total [OF assms(2)] by blast
  then show ?thesis
    unfolding run_task_def Let_def thenE_def
    by (simp add: bindE_def assms(4,5) p(1-3) s5 r of_sum_def modify_def with_writer_def ret_def)
qed

text \<open>What such a program leaves, when the writer refuses nothing.\<close>

lemma run_task_leaves:
  fixes s t :: "'z loop_st_scheme"
  assumes "run_task env args spec s = (Inr r, t)" "wf_fs (tfs s)" "canonical (tfs s) (events_path env args)" "sink_ok env"
  shows "\<exists>(u :: 'z loop_st_scheme) d v. run env spec (main_rt args) u = (Inr d, v) \<and> fresh u \<and> ew_task_id u = ns_task_id args \<and>
    opened (events_path env args) (tfs s) (tfs u) \<and> close env v = (Inr (), t) \<and> ew_log t = ew_log v \<and> ew_torn t = None"
proof -
  from run_task_run [OF assms(1-3)] obtain u v :: "'z loop_st_scheme" and d where
    u: "run env spec (main_rt args) u = (Inr d, v)" "fresh u" "ew_task_id u = ns_task_id args" "clk u = SystemClock"
      "\<not> ew_closed u" "close env v = (Inr (), t)" "opened (events_path env args) (tfs s) (tfs u)"
    unfolding main_rt_def by blast
  have "writer_ok env u \<and> ew_torn u = None" using u(2,4,5) assms(4) by (simp add: writer_ok_def sink_ok_def fresh_def)
  then have "ew_torn v = None" "file_ok env v"
    using preservesD [OF run_untorn.run_keeps _ u(1)] preservesD [OF run_file.run_keeps fresh_file_ok [OF u(2)] u(1)] by blast+
  then have "ew_buf v = []" by (auto simp: file_ok_def lines_ok_def)
  with close_frame [OF u(6)] \<open>ew_torn v = None\<close> u show ?thesis by metis
qed

lemma main_reaches:
  assumes "kernel_ok env" "basic_config env = Inr ()" "parse_args (default_args (environ env)) argv = Inr args"
    "lookup_at (tfs s) (at_path env (pure_path (ns_task args))) = Some (FileN b)"
    "load_task env (safe_load env) (model_validate env) (at_path env (pure_path (ns_task args))) s = (Inr spec, s)"
  shows "main env argv s = run_task env args spec s"
  unfolding main_def thenE_def
  by (simp add: bindE_def of_sum_def assms(2-5) Let_def path_is_file_def kernel_ok_kcall [OF assms(1)])

lemma main_returns_0:
  fixes s :: "'z loop_st_scheme"
  assumes "kernel_ok env" "sink_ok env" "basic_config env = Inr ()"
    "parse_args (default_args (environ env)) argv = Inr args"
    "lookup_at (tfs s) (at_path env (pure_path (ns_task args))) = Some (FileN b)"
    "load_task env (safe_load env) (model_validate env) (at_path env (pure_path (ns_task args))) s = (Inr spec, s)"
    "read_api_key env (environ env ''AGENT_ANVIL_API_KEY_FILE'') s = (Inr k, s)"
    "make_client env (task_provider args spec) (task_model spec) k = Inr c"
    "layout_ok (tfs s) (at_path env (pure_path (ns_workspace args))) (events_path env args)"
  shows "\<exists>t. main env argv s = (Inr (Returned 0), t) \<and> exit_status (fst (main env argv s)) = 0 \<and>
    trace_path Start (ew_log t) Done \<and> ew_closed t"
proof -
  obtain t where t: "run_task env args spec s = (Inr (Returned 0), t)"
    using run_task_completes [OF assms(1,2,9,7,8)] by blast
  have m: "main env argv s = (Inr (Returned 0), t)" using main_reaches [OF assms(1,3-6)] t by simp
  have "wf_fs (tfs s)" "canonical (tfs s) (events_path env args)" using assms(9) by (simp_all add: layout_ok_def)
  from run_task_leaves [OF t this assms(2)] obtain u v :: "'z loop_st_scheme" and d where
    u: "run env spec (main_rt args) u = (Inr d, v)" "fresh u" "close env v = (Inr (), t)" by blast
  from main_one_run(1,3) [OF u] m show ?thesis by (simp add: exit_status_def)
qed

text \<open>
  C17: the program completes with status 0 whenever the task loads, the client can be built, the
  kernel and the writer refuse nothing and the directories can be made, whatever the model answers and
  however the agent's task ends: a failed task is a matter of the trace, not of the exit status.
\<close>

theorem main_completes:
  fixes s :: "'z loop_st_scheme"
  assumes "kernel_ok env" "sink_ok env" "basic_config env = Inr ()"
    "parse_args (default_args (environ env)) argv = Inr args"
    "lookup_at (tfs s) (at_path env (pure_path (ns_task args))) = Some (FileN b)"
    "load_task env (safe_load env) (model_validate env) (at_path env (pure_path (ns_task args))) s = (Inr spec, s)"
    "read_api_key env (environ env ''AGENT_ANVIL_API_KEY_FILE'') s = (Inr k, s)"
    "make_client env (task_provider args spec) (task_model spec) k = Inr c"
    "layout_ok (tfs s) (at_path env (pure_path (ns_workspace args))) (events_path env args)"
  shows "\<exists>t. main env argv s = (Inr (Returned 0), t) \<and> exit_status (fst (main env argv s)) = 0 \<and>
    trace_path Start (ew_log t) Done \<and> ew_closed t"
  using assms by (rule main_returns_0)

section \<open>A concrete program run\<close>

text \<open>The task file is \<^verbatim>\<open>/w/f\<close> of the sample file system; the trace goes to \<^verbatim>\<open>/t\<close>.\<close>

definition sample_main_env :: main_env where
  "sample_main_env = llm_env.extend sample_llm_env
     (main_env.fields (\<lambda>k. if k = ''AGENT_ANVIL_TASK_ID'' then Some (lit ''t'') else None)
        (\<lambda>_. Inr (JObj [])) (\<lambda>_. Inr (sample_task 3)))"

definition sample_argv :: "pystr list" where
  "sample_argv = map lit [''--task'', ''/w/f'', ''--workspace'', ''/w/n'', ''--trace-dir=/t'', ''--provider'', ''mock'']"

definition sample_args :: namespace where
  "sample_args = \<lparr>ns_task = lit ''/w/f'', ns_trace_dir = lit ''/t'', ns_workspace = lit ''/w/n'',
     ns_task_id = lit ''t'', ns_provider = Some (lit ''mock''), ns_echo_events = False\<rparr>"

lemma sample_main_simps:
  "environ sample_main_env = (\<lambda>k. if k = ''AGENT_ANVIL_TASK_ID'' then Some (lit ''t'') else None)"
  "safe_load sample_main_env = (\<lambda>_. Inr (JObj []))" "model_validate sample_main_env = (\<lambda>_. Inr (sample_task 3))"
  "cwd sample_main_env = []"
  by (simp_all add: sample_main_env_def sample_llm_env_def sample_env_def tool_env.defs llm_env.defs main_env.defs)

lemma sample_main_ok: "kernel_ok sample_main_env" "sink_ok sample_main_env"
proof -
  have "list_all scalar (lit ''{}'')" by code_simp
  then show "kernel_ok sample_main_env" "sink_ok sample_main_env"
    by (simp_all add: kernel_ok_def sink_ok_def sample_main_env_def sample_llm_env_def sample_env_def tool_env.defs
        llm_env.defs main_env.defs del: lit_Cons)
qed

lemma sample_parse: "parse_args (default_args (environ sample_main_env)) sample_argv = Inr sample_args"
  unfolding sample_main_simps by code_simp

lemma sample_paths:
  "at_path sample_main_env (pure_path (ns_task sample_args)) = [lit ''w'', lit ''f'']"
  "at_path sample_main_env (pure_path (ns_workspace sample_args)) = [lit ''w'', lit ''n'']"
  "events_path sample_main_env sample_args = [lit ''t'', lit ''events.jsonl'']"
proof -
  have "pure_path (lit ''/w/f'') = \<lparr>pp_root = 1, pp_parts = [lit ''w'', lit ''f'']\<rparr>"
    "pure_path (lit ''/w/n'') = \<lparr>pp_root = 1, pp_parts = [lit ''w'', lit ''n'']\<rparr>"
    "pure_path (lit ''/t'') = \<lparr>pp_root = 1, pp_parts = [lit ''t'']\<rparr>" by code_simp+
  then show "at_path sample_main_env (pure_path (ns_task sample_args)) = [lit ''w'', lit ''f'']"
    "at_path sample_main_env (pure_path (ns_workspace sample_args)) = [lit ''w'', lit ''n'']"
    "events_path sample_main_env sample_args = [lit ''t'', lit ''events.jsonl'']"
    by (simp_all add: at_path_def events_path_def sample_args_def del: lit_Cons)
qed

lemma sample_layout: "layout_ok sample_fs [lit ''w'', lit ''n''] [lit ''t'', lit ''events.jsonl'']"
proof -
  have wf: "wf_fs sample_fs" using sample_sandboxed by (simp add: sandboxed_def)
  have l: "fmlookup sample_fs [] = Some DirN" "fmlookup sample_fs [lit ''w''] = Some DirN"
    "fmlookup sample_fs [lit ''w'', lit ''n''] = None" "fmlookup sample_fs [lit ''t''] = None"
    "fmlookup sample_fs [lit ''t'', lit ''events.jsonl''] = None" by code_simp+
  have n: "list_all proper_name [lit ''w'', lit ''n'', lit ''t'', lit ''events.jsonl'']" by code_simp
  have "\<not> prefix [lit ''t'', lit ''events.jsonl''] [lit ''w'', lit ''n'']" by code_simp
  with wf l n show ?thesis
    by (auto simp: layout_ok_def canonical_def open_path_def prefix_Cons simp del: lit_Cons)
qed

lemma sample_loaded:
  "lookup_at (tfs (sample_loop_st c)) [lit ''w'', lit ''f''] = Some (FileN (lit ''a'' @ nl # lit ''b'' @ [nl]))"
  "load_task sample_main_env (safe_load sample_main_env) (model_validate sample_main_env) [lit ''w'', lit ''f'']
     (sample_loop_st c) = (Inr (sample_task 3), sample_loop_st c)"
proof -
  have k: "kstat sample_fs [lit ''w'', lit ''f''] = Found [lit ''w'', lit ''f'']"
    "fmlookup sample_fs [lit ''w'', lit ''f''] = Some (FileN (lit ''a'' @ nl # lit ''b'' @ [nl]))" by code_simp+
  then show "lookup_at (tfs (sample_loop_st c)) [lit ''w'', lit ''f''] = Some (FileN (lit ''a'' @ nl # lit ''b'' @ [nl]))"
    by (simp add: lookup_at_def del: lit_Cons)
  have "utf8_decode (lit ''a'' @ nl # lit ''b'' @ [nl]) = Inr (lit ''a'' @ nl # lit ''b'' @ [nl])" by code_simp
  with k show "load_task sample_main_env (safe_load sample_main_env) (model_validate sample_main_env)
      [lit ''w'', lit ''f''] (sample_loop_st c) = (Inr (sample_task 3), sample_loop_st c)"
    by (simp add: load_task_def read_text_def read_bytes_def kernel_ok_kcall [OF sample_main_ok(1)] bindE_def of_sum_def
        ret_def parse_task_def sample_main_simps dget_def del: lit_Cons split: option.splits)
qed

lemma sample_started:
  "basic_config sample_main_env = Inr ()"
  "read_api_key sample_main_env (environ sample_main_env ''AGENT_ANVIL_API_KEY_FILE'') s = (Inr None, s)"
  "make_client sample_main_env (task_provider sample_args (sample_task 3)) m k = Inr EchoClient"
proof -
  have "lit ''INFO'' \<in> set level_names" by code_simp
  then show "basic_config sample_main_env = Inr ()" by (simp add: basic_config_def sample_main_simps del: lit_Cons)
qed (simp_all add: sample_main_simps read_api_key_def ret_def make_client_def task_provider_def sample_args_def str_or_def)

theorem main_completes_witness:
  "\<exists>t. main sample_main_env sample_argv (sample_loop_st EchoClient) = (Inr (Returned 0), t) \<and>
     trace_path Start (ew_log t) Done"
  using main_completes [OF sample_main_ok sample_started(1) sample_parse,
      where s = "sample_loop_st EchoClient" and spec = "sample_task 3" and k = None and c = EchoClient,
      unfolded sample_paths sample_loop_st_fields, OF sample_loaded [unfolded sample_loop_st_fields] sample_started(2,3) sample_layout]
  by blast

end
