(* ===== verification/Deployment.thy ===== *)
theory Deployment
  imports PodBuilder EntryProps
begin

text \<open>
  The operator and the SDK together: what \<^verbatim>\<open>python -m agent_anvil\<close> does in the agent container of the pod that the
  operator builds for a task, with the ConfigMap it builds mounted into it.
\<close>

section \<open>The container\<close>

text \<open>The environment variables \<^verbatim>\<open>main\<close> reads, and the value the pod gives them.\<close>

definition sdk_variables :: "string list" where
  "sdk_variables = [''AGENT_ANVIL_LOG_LEVEL'', ''AGENT_ANVIL_TASK_FILE'', ''AGENT_ANVIL_TRACE_DIR'',
     ''AGENT_ANVIL_WORKSPACE'', ''AGENT_ANVIL_TASK_ID'', ''AGENT_ANVIL_PROVIDER'', ''AGENT_ANVIL_ECHO_EVENTS'',
     ''AGENT_ANVIL_API_KEY_FILE'', ''ANTHROPIC_API_KEY'']"

definition container_var :: "container \<Rightarrow> string \<Rightarrow> pystr option" where
  "container_var c k = map_of (ct_env c) (lit k)"

text \<open>
  A projected volume shows, under the mount path, each listed key of its ConfigMap as a file at the item's path.
\<close>

definition projects :: "config_map \<Rightarrow> pod \<Rightarrow> container \<Rightarrow> fsys \<Rightarrow> bool" where
  "projects cm p c fs \<longleftrightarrow>
     (\<forall>m \<in> set (ct_mounts c). \<forall>v \<in> set (pod_volumes p). \<forall>ss proj key path b.
        vol_name v = vm_name m \<and> vol_source v = Projected ss \<and> Some proj \<in> set ss \<and> cp_name proj = om_name (cm_meta cm) \<and>
        (key, path) \<in> set (cp_items proj) \<and> map_of (cm_data cm) key = Some b \<longrightarrow>
        lookup_at fs (pp_parts (pure_path (vm_path m @ path))) = Some (FileN b))"

text \<open>The SDK's YAML reader reads back the value the operator's YAML writer was given.\<close>

definition yaml_agrees :: "'e build_env_scheme \<Rightarrow> 'f main_env_scheme \<Rightarrow> bool" where
  "yaml_agrees kenv env \<longleftrightarrow> (\<forall>g b. yaml_marshal kenv g = Inr b \<longrightarrow>
     (\<exists>y. utf8_decode b = Inr y \<and> safe_load env (universal_newlines y) = Inr (marshal_spec g)))"

definition mock_task :: "go_spec \<Rightarrow> bool" where
  "mock_task g \<longleftrightarrow> (case go_model g of None \<Rightarrow> True | Some m \<Rightarrow> gm_provider m = lit ''mock'')"

definition pod_args :: "agent_task \<Rightarrow> namespace" where
  "pod_args task = \<lparr>ns_task = lit ''/etc/agent-anvil/task.yaml'', ns_trace_dir = lit ''/var/log/agent-anvil'',
     ns_workspace = lit ''/workspace'', ns_task_id = pod_task_id task, ns_provider = None, ns_echo_events = True\<rparr>"

abbreviation task_file :: path where
  "task_file \<equiv> [lit ''etc'', lit ''agent-anvil'', lit ''task.yaml'']"

abbreviation trace_file :: path where
  "trace_file \<equiv> [lit ''var'', lit ''log'', lit ''agent-anvil'', lit ''events.jsonl'']"

lemma pod_variables:
  "container_var (agent_container kenv task) ''AGENT_ANVIL_LOG_LEVEL'' = None"
  "container_var (agent_container kenv task) ''AGENT_ANVIL_TASK_FILE'' = None"
  "container_var (agent_container kenv task) ''AGENT_ANVIL_TRACE_DIR'' = Some (lit ''/var/log/agent-anvil'')"
  "container_var (agent_container kenv task) ''AGENT_ANVIL_WORKSPACE'' = Some (lit ''/workspace'')"
  "container_var (agent_container kenv task) ''AGENT_ANVIL_TASK_ID'' = Some (pod_task_id task)"
  "container_var (agent_container kenv task) ''AGENT_ANVIL_PROVIDER'' = None"
  "container_var (agent_container kenv task) ''AGENT_ANVIL_ECHO_EVENTS'' = Some (lit ''1'')"
  "container_var (agent_container kenv task) ''AGENT_ANVIL_API_KEY_FILE'' = None"
  "container_var (agent_container kenv task) ''ANTHROPIC_API_KEY'' = None"
  by (simp_all add: container_var_def agent_container_def lit_eq_iff del: lit_Cons)

lemma pod_arguments:
  assumes "\<forall>k \<in> set sdk_variables. environ env k = container_var (agent_container kenv task) k"
  shows "parse_args (default_args (environ env)) [] = Inr (pod_args task)"
proof -
  have "default_args (environ env) = pod_args task"
    using assms by (simp add: sdk_variables_def default_args_def pod_args_def pod_variables DEFAULT_TASK_PATH_def
        ascii_lower_def)
  moreover have "parse_args d [] = Inr d" for d by (simp add: parse_args_def)
  ultimately show ?thesis by simp
qed

lemma pod_paths:
  "at_path env (pure_path (ns_task (pod_args task))) = task_file"
  "at_path env (pure_path (ns_workspace (pod_args task))) = [lit ''workspace'']"
  "events_path env (pod_args task) = trace_file"
proof -
  have "pure_path (lit ''/etc/agent-anvil/task.yaml'') = \<lparr>pp_root = 1, pp_parts = task_file\<rparr>"
    "pure_path (lit ''/workspace'') = \<lparr>pp_root = 1, pp_parts = [lit ''workspace'']\<rparr>"
    "pure_path (lit ''/var/log/agent-anvil'') = \<lparr>pp_root = 1, pp_parts = [lit ''var'', lit ''log'', lit ''agent-anvil'']\<rparr>"
    by code_simp+
  then show "at_path env (pure_path (ns_task (pod_args task))) = task_file"
    "at_path env (pure_path (ns_workspace (pod_args task))) = [lit ''workspace'']"
    "events_path env (pod_args task) = trace_file"
    by (simp_all add: at_path_def events_path_def pod_args_def del: lit_Cons)
qed

text \<open>The file \<^verbatim>\<open>main\<close> opens is the ConfigMap's task.yaml.\<close>

lemma pod_task_file:
  assumes "build_config_map kenv task = Some cm" "projects cm (build_pod kenv task) (agent_container kenv task) fs"
  shows "\<exists>b. yaml_marshal kenv (task_spec task) = Inr b \<and> lookup_at fs task_file = Some (FileN b)"
proof -
  obtain b where b: "yaml_marshal kenv (task_spec task) = Inr b" and cm: "cm_data cm = [(lit ''task.yaml'', b)]"
    "om_name (cm_meta cm) = build_config_map_name kenv task"
    using assms(1) by (auto simp: build_config_map_def new_meta_def split: sum.splits)
  let ?m = "mount ''task'' ''/etc/agent-anvil/'' True"
  let ?v = "\<lparr>vol_name = lit ''task'', vol_source = Projected
    [Some \<lparr>cp_name = build_config_map_name kenv task, cp_items = [(lit ''task.yaml'', lit ''task.yaml'')]\<rparr>]\<rparr>"
  have "?m \<in> set (ct_mounts (agent_container kenv task))" "?v \<in> set (pod_volumes (build_pod kenv task))"
    by (simp_all add: agent_container_def build_pod_def task_volumes_def)
  then have "lookup_at fs (pp_parts (pure_path (vm_path ?m @ lit ''task.yaml''))) = Some (FileN b)"
    using assms(2) cm unfolding projects_def by (fastforce simp: mount_def simp del: lit_Cons)
  moreover have "pp_parts (pure_path (vm_path ?m @ lit ''task.yaml'')) = task_file" unfolding mount_def by code_simp
  ultimately show ?thesis using b by simp
qed

definition container_starts ::
  "'e build_env_scheme \<Rightarrow> 'f main_env_scheme \<Rightarrow> agent_task \<Rightarrow> 'z tool_st_scheme \<Rightarrow> bool" where
  "container_starts kenv env task s \<longleftrightarrow>
     (\<forall>k \<in> set sdk_variables. environ env k = container_var (agent_container kenv task) k) \<and>
     (\<exists>cm. build_config_map kenv task = Some cm \<and>
        projects cm (build_pod kenv task) (agent_container kenv task) (tfs s)) \<and>
     layout_ok (tfs s) [lit ''workspace''] trace_file"

section \<open>What the container does\<close>

lemma load_mounted:
  assumes "kernel_ok env" "lookup_at (tfs s) p = Some (FileN b)" "utf8_decode b = Inr y"
  shows "load_task env sl mv p s = (parse_task sl mv (universal_newlines y), s)"
  using assms
  by (auto simp: load_task_def read_text_def read_bytes_def kernel_ok_kcall lookup_at_def bindE_def of_sum_def ret_def
      split: walk_result.splits)

lemma pod_environment:
  assumes "\<forall>k \<in> set sdk_variables. environ env k = container_var (agent_container kenv task) k"
  shows "basic_config env = Inr ()" "read_api_key env (environ env ''AGENT_ANVIL_API_KEY_FILE'') s = (Inr None, s)"
    "environ env ''ANTHROPIC_API_KEY'' = None"
proof -
  have "lit ''INFO'' \<in> set level_names" by code_simp
  then show "basic_config env = Inr ()" "read_api_key env (environ env ''AGENT_ANVIL_API_KEY_FILE'') s = (Inr None, s)"
    "environ env ''ANTHROPIC_API_KEY'' = None"
    using assms by (simp_all add: basic_config_def read_api_key_def ret_def sdk_variables_def pod_variables del: lit_Cons)
qed

lemma pod_client:
  assumes "environ env ''ANTHROPIC_API_KEY'' = None"
  shows "if mock_task g then make_client env (task_provider (pod_args task) (py_spec g)) m None = Inr EchoClient
    else \<exists>x. make_client env (task_provider (pod_args task) (py_spec g)) m None = Inl x"
  using assms
  by (auto simp: mock_task_def make_client_def task_provider_def pod_args_def py_spec_def py_model_def str_or_def
      anthropic_client_def split: option.splits simp del: lit_Cons)

lemma run_task_no_client:
  assumes "read_api_key env (environ env ''AGENT_ANVIL_API_KEY_FILE'') s = (Inr k, s)"
    "make_client env (task_provider args spec) (task_model spec) k = Inl x"
  shows "isl (fst (run_task env args spec s))"
proof (rule ccontr)
  assume "\<not> isl (fst (run_task env args spec s))"
  then obtain y t where "run_task env args spec s = (Inr y, t)" by (metis isl_def prod.collapse sum.exhaust)
  with assms show False by (auto simp: run_task_def Let_def thenE_def bindE_Inr_iff of_sum_def)
qed

lemma main_load_fails:
  assumes "kernel_ok env" "basic_config env = Inr ()" "parse_args (default_args (environ env)) argv = Inr args"
    "lookup_at (tfs s) (at_path env (pure_path (ns_task args))) = Some (FileN b)"
    "load_task env (safe_load env) (model_validate env) (at_path env (pure_path (ns_task args))) s = (Inl x, s)"
  shows "main env argv s = (Inl x, s)"
  using assms
  by (simp add: main_def thenE_def bindE_def of_sum_def Let_def path_is_file_def kernel_ok_kcall)

text \<open>
  C6: from the AgentTask to the trace. In the agent container of the pod the operator builds, with the ConfigMap it builds
  mounted, the SDK finds the task file and reads the operator's task from it; if the task lists its tools, has a
  documented checkpoint mode and uses the mock provider, it runs the task whose fields are those of the AgentTask's spec
  (\<open>py_spec\<close>), in \<^verbatim>\<open>/workspace\<close>, on the container's file system with the trace file fresh, and exits with 0. The
  events are those of this run, complete and under the pod's task id, and what the writer has put into the trace file
  are exactly their lines. Every other task makes the program exit with 1: pydantic refuses it, or there is no API key
  in the container.
\<close>

theorem operator_pod_outcome:
  fixes s :: "'z loop_st_scheme"
  assumes "container_starts kenv env task s" "yaml_agrees kenv env" "pydantic validate"
    "model_validate env = task_validate validate" "param_keys_distinct (task_spec task)" "kernel_ok env" "sink_ok env"
  shows "if go_tools (task_spec task) \<noteq> None \<and> valid_mode (task_spec task) \<and> mock_task (task_spec task)
    then \<exists>(t :: 'z loop_st_scheme) (u :: 'z loop_st_scheme) d v. main env [] s = (Inr (Returned 0), t) \<and>
      exit_status (fst (main env [] s)) = 0 \<and>
      run env (py_spec (task_spec task)) \<lparr>rt_task_id = pod_task_id task, rt_workspace = pure_path (lit ''/workspace'')\<rparr> u = (Inr d, v) \<and>
      fresh u \<and> opened trace_file (tfs s) (tfs u) \<and> ew_log t = ew_log v \<and> trace_path Start (ew_log t) Done \<and>
      list_all (\<lambda>e. e_task_id e = pod_task_id task) (ew_log t) \<and> ew_file t = event_lines env (ew_log t) \<and> ew_closed t
    else exit_status (fst (main env [] s)) = 1"
proof -
  let ?g = "task_spec task" and ?args = "pod_args task"
  have vars: "\<forall>k \<in> set sdk_variables. environ env k = container_var (agent_container kenv task) k"
    and layout: "layout_ok (tfs s) (at_path env (pure_path (ns_workspace ?args))) (events_path env ?args)"
    using assms(1) by (simp_all add: container_starts_def pod_paths)
  note e = pod_environment [OF vars] and parse = pod_arguments [OF vars]
  obtain b where b: "yaml_marshal kenv ?g = Inr b" "lookup_at (tfs s) (at_path env (pure_path (ns_task ?args))) = Some (FileN b)"
    using assms(1) pod_task_file unfolding container_starts_def pod_paths by blast
  obtain y where y: "utf8_decode b = Inr y" "safe_load env (universal_newlines y) = Inr (marshal_spec ?g)"
    using assms(2) b(1) unfolding yaml_agrees_def by blast
  note load = load_mounted [OF assms(6) b(2) y(1)]
  have loads: "if go_tools ?g \<noteq> None \<and> valid_mode ?g
      then parse_task (safe_load env) (model_validate env) (universal_newlines y) = Inr (py_spec ?g)
      else invalid (parse_task (safe_load env) (model_validate env) (universal_newlines y))"
    unfolding assms(4) using assms(3) y(2) assms(5) by (rule projected_task_loads)
  show ?thesis
  proof (cases "go_tools ?g \<noteq> None \<and> valid_mode ?g")
    case False
    then obtain x where "parse_task (safe_load env) (model_validate env) (universal_newlines y) = Inl x"
      using loads by (cases "parse_task (safe_load env) (model_validate env) (universal_newlines y)") auto
    with main_load_fails [OF assms(6) e(1) parse b(2)] load have "main env [] s = (Inl x, s)" by simp
    with False show ?thesis by (auto simp: exit_status_def)
  next
    case True
    with loads load have l: "load_task env (safe_load env) (model_validate env) (at_path env (pure_path (ns_task ?args))) s =
        (Inr (py_spec ?g), s)" by simp
    note client = pod_client [OF e(3), of ?g task "task_model (py_spec ?g)"]
    show ?thesis
    proof (cases "mock_task ?g")
      case False
      with client obtain x where "make_client env (task_provider ?args (py_spec ?g)) (task_model (py_spec ?g)) None = Inl x" by auto
      from run_task_no_client [OF e(2) this] main_reaches [OF assms(6) e(1) parse b(2) l]
      have "isl (fst (main env [] s))" by simp
      with False show ?thesis by (auto simp: exit_status_def split: sum.splits)
    next
      case mock: True
      with client have c: "make_client env (task_provider ?args (py_spec ?g)) (task_model (py_spec ?g)) None = Inr EchoClient"
        by simp
      obtain t where r: "run_task env ?args (py_spec ?g) s = (Inr (Returned 0), t)"
        using run_task_completes [OF assms(6,7) layout e(2) c] by blast
      then have m: "main env [] s = (Inr (Returned 0), t)" using main_reaches [OF assms(6) e(1) parse b(2) l] by simp
      have "wf_fs (tfs s)" "canonical (tfs s) (events_path env ?args)" using layout by (simp_all add: layout_ok_def)
      from run_task_leaves [OF r this assms(7)] obtain u v :: "'z loop_st_scheme" and d where
        u: "run env (py_spec ?g) (main_rt ?args) u = (Inr d, v)" "fresh u" "close env v = (Inr (), t)"
          "ew_task_id u = ns_task_id ?args" "ew_log t = ew_log v" "ew_torn t = None"
          "opened (events_path env ?args) (tfs s) (tfs u)" by blast
      note o = main_one_run [OF u(1-3)]
      have "main_rt ?args = \<lparr>rt_task_id = pod_task_id task, rt_workspace = pure_path (lit ''/workspace'')\<rparr>"
        by (simp add: main_rt_def pod_args_def)
      with u(1) have "run env (py_spec ?g) \<lparr>rt_task_id = pod_task_id task, rt_workspace = pure_path (lit ''/workspace'')\<rparr> u = (Inr d, v)"
        by simp
      moreover have "exit_status (fst (main env [] s)) = 0" using m by (simp add: exit_status_def)
      moreover have "list_all (\<lambda>e. e_task_id e = pod_task_id task) (ew_log t)" using o(2) u(4) by (simp add: pod_args_def)
      ultimately have x: "\<exists>(t :: 'z loop_st_scheme) (u :: 'z loop_st_scheme) d v. main env [] s = (Inr (Returned 0), t) \<and>
          exit_status (fst (main env [] s)) = 0 \<and>
          run env (py_spec ?g) \<lparr>rt_task_id = pod_task_id task, rt_workspace = pure_path (lit ''/workspace'')\<rparr> u = (Inr d, v) \<and>
          fresh u \<and> opened trace_file (tfs s) (tfs u) \<and> ew_log t = ew_log v \<and> trace_path Start (ew_log t) Done \<and>
          list_all (\<lambda>e. e_task_id e = pod_task_id task) (ew_log t) \<and> ew_file t = event_lines env (ew_log t) \<and> ew_closed t"
        using m u(2,5) u(7) [unfolded pod_paths] o(1,3) o(4) [OF u(6)] by blast
      have c: "go_tools ?g \<noteq> None \<and> valid_mode ?g \<and> mock_task ?g" using True mock by blast
      from x show ?thesis unfolding if_P [OF c] .
    qed
  qed
qed

section \<open>A concrete container\<close>

definition box_spec :: go_spec where
  "box_spec = (sample_go (Some []) (lit ''Manual''))\<lparr>go_model := None\<rparr>"

definition box_builder :: build_env where
  "box_builder = \<lparr>yaml_marshal = (\<lambda>g. if g = box_spec then Inr (lit ''prompt: hi'') else Inl NotFound), go_getenv = (\<lambda>_. [])\<rparr>"

definition box_task :: agent_task where
  "box_task = \<lparr>task_meta = new_meta (lit ''demo'') (lit ''default''), task_spec = box_spec,
     task_status = \<lparr>st_phase = Pending, st_current_step = 0, st_started_at = None, st_finished_at = None,
       st_trace_url = [], st_pod_name = [], st_reason = [], st_conditions = []\<rparr>\<rparr>"

definition box_fs :: fsys where
  "box_fs = fmap_of_list [([], DirN), ([lit ''etc''], DirN), ([lit ''etc'', lit ''agent-anvil''], DirN),
     (task_file, FileN (lit ''prompt: hi'')), ([lit ''var''], DirN), ([lit ''var'', lit ''log''], DirN),
     ([lit ''var'', lit ''log'', lit ''agent-anvil''], DirN), ([lit ''workspace''], DirN)]"

definition box_env :: main_env where
  "box_env = llm_env.extend sample_llm_env
     (main_env.fields (container_var (agent_container box_builder box_task)) (\<lambda>_. Inr (marshal_spec box_spec))
        (task_validate strict))"

definition box_st :: loop_st where
  "box_st = (sample_loop_st EchoClient)\<lparr>tfs := box_fs\<rparr>"

lemma box_env_simps:
  "environ box_env = container_var (agent_container box_builder box_task)"
  "safe_load box_env = (\<lambda>_. Inr (marshal_spec box_spec))" "model_validate box_env = task_validate strict"
  by (simp_all add: box_env_def sample_llm_env_def sample_env_def tool_env.defs llm_env.defs main_env.defs)

lemma box_ok: "kernel_ok box_env" "sink_ok box_env"
proof -
  have "list_all scalar (lit ''{}'')" by code_simp
  then show "kernel_ok box_env" "sink_ok box_env"
    by (simp_all add: kernel_ok_def sink_ok_def box_env_def sample_llm_env_def sample_env_def tool_env.defs
        llm_env.defs main_env.defs del: lit_Cons)
qed

lemma box_layout: "layout_ok box_fs [lit ''workspace''] trace_file"
proof -
  have wf: "wf_fs box_fs" unfolding box_fs_def by (rule wf_tree_fs) code_simp
  have l: "fmlookup box_fs [] = Some DirN" "fmlookup box_fs [lit ''workspace''] = Some DirN"
    "fmlookup box_fs [lit ''var''] = Some DirN" "fmlookup box_fs [lit ''var'', lit ''log''] = Some DirN"
    "fmlookup box_fs [lit ''var'', lit ''log'', lit ''agent-anvil''] = Some DirN" "fmlookup box_fs trace_file = None"
    by code_simp+
  have n: "list_all proper_name [lit ''workspace'', lit ''var'', lit ''log'', lit ''agent-anvil'', lit ''events.jsonl'']"
    by code_simp
  have "\<not> prefix trace_file [lit ''workspace'']" by code_simp
  with wf l n show ?thesis by (auto simp: layout_ok_def canonical_def open_path_def prefix_Cons simp del: lit_Cons)
qed

lemma box_starts: "container_starts box_builder box_env box_task box_st"
proof -
  have cm: "build_config_map box_builder box_task = Some
      \<lparr>cm_meta = new_meta (build_config_map_name box_builder box_task) (lit ''default''), cm_data = [(lit ''task.yaml'', lit ''prompt: hi'')]\<rparr>"
    by (simp add: build_config_map_def box_builder_def box_task_def new_meta_def del: lit_Cons)
  have "lookup_at box_fs task_file = Some (FileN (lit ''prompt: hi''))" by code_simp
  moreover have "pp_parts (pure_path (lit ''/etc/agent-anvil/'' @ lit ''task.yaml'')) = task_file" by code_simp
  ultimately have "projects (the (build_config_map box_builder box_task)) (build_pod box_builder box_task)
      (agent_container box_builder box_task) box_fs"
    unfolding projects_def cm
    by (auto simp: agent_container_def build_pod_def task_volumes_def mount_def lit_eq_iff simp del: lit_Cons)
  then show ?thesis
    using box_layout cm by (simp add: container_starts_def box_env_simps box_st_def)
qed

theorem operator_pod_outcome_witness:
  "\<exists>t (u :: loop_st). main box_env [] box_st = (Inr (Returned 0), t) \<and> trace_path Start (ew_log t) Done \<and>
     (\<exists>d v. run box_env (py_spec box_spec) \<lparr>rt_task_id = lit ''demo/default'', rt_workspace = pure_path (lit ''/workspace'')\<rparr> u = (Inr d, v)) \<and>
     list_all (\<lambda>e. e_task_id e = lit ''demo/default'') (ew_log t)"
proof -
  have "utf8_decode (lit ''prompt: hi'') = Inr (lit ''prompt: hi'')" by code_simp
  then have y: "yaml_agrees box_builder box_env"
    by (simp add: yaml_agrees_def box_builder_def box_env_simps del: lit_Cons)
  have g: "task_spec box_task = box_spec" "param_keys_distinct box_spec" "go_tools box_spec = Some []" "mock_task box_spec"
    "valid_mode box_spec"
    by (simp_all add: box_task_def box_spec_def sample_go_def param_keys_distinct_def mock_task_def valid_mode_def CheckpointMode_def)
  have id: "pod_task_id box_task = lit ''demo/default''" by code_simp
  from operator_pod_outcome [OF box_starts y strict_pydantic.pydantic_axioms box_env_simps(3) _ box_ok] g
  show ?thesis by (auto simp: id simp del: lit_Cons)
qed

end
