(* ===== verification/Dialogue.thy ===== *)
theory Dialogue
  imports RunProps
begin

text \<open>
  The conversation a run holds with the model (the \<^verbatim>\<open>messages\<close> list of \<^verbatim>\<open>loop.py\<close>): the user's prompt,
  then pairs of an assistant message with tool uses and a user message that answers each of them.
  This is the form the Messages API requires of a request.
\<close>

section \<open>Conversations\<close>

text \<open>A result block answers a tool use when it carries its id.\<close>

definition answers :: "tool_use \<Rightarrow> json \<Rightarrow> bool" where
  "answers tu b \<longleftrightarrow> (\<exists>c err. b = tool_result_block tu c err)"

inductive dialogue :: "json \<Rightarrow> json list \<Rightarrow> bool" for p where
  prompted: "dialogue p [p]"
| turn: "dialogue p ms \<Longrightarrow> tool_uses resp \<noteq> [] \<Longrightarrow> list_all2 answers (tool_uses resp) results \<Longrightarrow>
    dialogue p (ms @ [build_assistant_message resp, user_message (JList results)])"

inductive_cases dialogue_emptyE: "dialogue p []"

text \<open>The last reply of the model has not been answered yet.\<close>

definition awaiting :: "json \<Rightarrow> llm_response \<Rightarrow> 'z loop_st_scheme \<Rightarrow> bool" where
  "awaiting p resp s \<longleftrightarrow> (\<exists>ms. dialogue p ms \<and> l_messages s = ms @ [build_assistant_message resp])"

definition talking :: "json \<Rightarrow> 'z loop_st_scheme \<Rightarrow> bool" where
  "talking p s \<longleftrightarrow> dialogue p (l_messages s) \<or> (\<exists>resp. awaiting p resp s)"

text \<open>Conversations have an odd number of messages, which alternate between user and assistant.\<close>

definition role :: "json \<Rightarrow> json option" where
  "role m = (case m of JObj d \<Rightarrow> dget d ''role'' | _ \<Rightarrow> None)"

fun alternates :: "bool \<Rightarrow> json list \<Rightarrow> bool" where
  "alternates u [] = True"
| "alternates u (m # ms) = (role m = Some (JStr (lit (if u then ''user'' else ''assistant''))) \<and> alternates (\<not> u) ms)"

lemma alternates_append: "alternates u (ms @ ns) = (alternates u ms \<and> alternates (u = even (length ms)) ns)"
  by (induction ms arbitrary: u) (auto simp del: lit_Cons)

lemma roles:
  "role (build_assistant_message resp) = Some (JStr (lit ''assistant''))" "role (user_message c) = Some (JStr (lit ''user''))"
  by (simp_all add: role_def build_assistant_message_def user_message_def dget_simps del: lit_Cons)

lemma dialogue_alternates: "dialogue (user_message c) ms \<Longrightarrow> odd (length ms) \<and> alternates True ms"
  by (induction rule: dialogue.induct) (simp_all add: alternates_append roles del: lit_Cons)

section \<open>The loop keeps a conversation\<close>

lemma messages_hoare:
  "keeps (\<lambda>s t. vars t = vars s) m \<Longrightarrow>
     hoare (\<lambda>s. Q (l_messages s)) m (\<lambda>_ s. Q (l_messages s)) (\<lambda>_ s. Q (l_messages s))"
  by (rule hoareI) (auto dest!: keepsD simp: vars_def)

lemma dialogue_frame:
  "keeps (\<lambda>s t. vars t = vars s) m \<Longrightarrow>
     hoare (\<lambda>s. dialogue p (l_messages s)) m (\<lambda>_ s. dialogue p (l_messages s)) (\<lambda>_. talking p)"
  by (rule hoare_post [OF messages_hoare [of _ "dialogue p"]]) (auto simp: talking_def)

lemma dialogue_stateless:
  "hoare (\<lambda>s. dialogue p (l_messages s)) (gets f) (\<lambda>_ s. dialogue p (l_messages s)) (\<lambda>_. talking p)"
  "hoare (\<lambda>s. dialogue p (l_messages s)) (of_sum r) (\<lambda>_ s. dialogue p (l_messages s)) (\<lambda>_. talking p)"
  by (rule dialogue_frame, simp add: keeps_stateless)+

lemma tools_messages:
  "mapE (run_one_tool env tools) us s = (y, t) \<Longrightarrow> l_messages t = l_messages s"
  by (drule keepsD [OF keeps_mapE [OF reflp_same transp_same run_one_tool_vars]]) (simp add: vars_def)

lemma tool_results_answer:
  fixes s t :: "'z tool_st_scheme"
  assumes "mapE (run_one_tool env tools) us s = (Inr bs, t)"
  shows "list_all2 answers us bs"
  using assms
proof (induction us arbitrary: s bs)
  case (Cons tu us)
  then obtain b v bs' where b: "run_one_tool env tools tu s = (Inr b, v)" "mapE (run_one_tool env tools) us v = (Inr bs', t)"
    "bs = b # bs'"
    by (auto simp: bindE_Inr_iff ret_def)
  have "answers tu b"
  proof (cases "tools (tu_name tu)")
    case None
    with run_one_tool_block [OF b(1)] show ?thesis by (auto simp: answers_def)
  next
    case (Some tool)
    with run_one_tool_block [OF b(1)] obtain u :: "'z tool_st_scheme" where
      "case fst (run_tool env tool (tu_input tu) u) of
         Inl exc \<Rightarrow> b = tool_result_block tu (raised_text tu exc) True
       | Inr r \<Rightarrow> b = tool_result_block tu (content r) (is_error r)" by auto
    then show ?thesis by (cases "fst (run_tool env tool (tu_input tu) u)") (auto simp: answers_def)
  qed
  with Cons.IH [OF b(2)] b(3) show ?case by simp
qed (simp add: ret_def)

lemma call_llm_dialogue:
  "hoare (\<lambda>s. dialogue p (l_messages s)) (call_llm env rc) (\<lambda>resp. awaiting p resp) (\<lambda>_. talking p)"
proof -
  let ?D = "\<lambda>s. dialogue p (l_messages s)"
  have u: "hoare ?D (modify (add_usage rc resp)) (\<lambda>_. ?D) (\<lambda>_. talking p)" for resp
    by (rule hoare_pre [OF hoare_modify]) (simp add: add_usage_def)
  have fin: "hoare ?D (thenE (push_message (build_assistant_message resp)) (ret resp)) (\<lambda>resp. awaiting p resp) (\<lambda>_. talking p)" for resp
    by (rule hoareI) (auto simp: push_message_def thenE_def bindE_def modify_def ret_def awaiting_def)
  show ?thesis
    unfolding call_llm_def
    by (intro hoare_bind [OF dialogue_stateless(1)] hoare_bind [OF dialogue_stateless(2)]
        hoare_then [OF dialogue_frame [OF emit_vars]] hoare_bind [OF dialogue_frame [OF monotonic_vars]]
        hoare_bind [OF dialogue_frame [OF complete_vars]] hoare_then [OF u] fin)
qed

text \<open>The reply \<open>resp\<close> is the last message, and \<open>bs\<close> would answer it.\<close>

definition answered :: "json \<Rightarrow> llm_response \<Rightarrow> json list \<Rightarrow> 'z loop_st_scheme \<Rightarrow> bool" where
  "answered p resp bs s \<longleftrightarrow> (\<exists>ms. dialogue p (ms @ [build_assistant_message resp, user_message (JList bs)]) \<and>
     l_messages s = ms @ [build_assistant_message resp])"

lemma tools_dialogue:
  "hoare (\<lambda>s. awaiting p resp s \<and> tool_uses resp \<noteq> []) (mapE (run_one_tool env tools) (tool_uses resp))
     (answered p resp) (\<lambda>_. talking p)"
proof (rule hoareI)
  fix s bs t
  assume s: "awaiting p resp s \<and> tool_uses resp \<noteq> []" and m: "mapE (run_one_tool env tools) (tool_uses resp) s = (Inr bs, t)"
  from tools_messages [OF m] s tool_results_answer [OF m] show "answered p resp bs t"
    by (auto simp: awaiting_def answered_def intro: turn)
next
  fix s x t
  assume s: "awaiting p resp s \<and> tool_uses resp \<noteq> []" and m: "mapE (run_one_tool env tools) (tool_uses resp) s = (Inl x, t)"
  from tools_messages [OF m] s show "talking p t" by (auto simp: talking_def awaiting_def)
qed

lemma push_dialogue:
  "hoare (answered p resp bs) (push_message (user_message (JList bs))) (\<lambda>_ s. dialogue p (l_messages s)) (\<lambda>_. talking p)"
  by (rule hoareI) (auto simp: push_message_def modify_def answered_def)

lemma end_step_messages:
  "hoare (\<lambda>s. Q (l_messages s)) (end_step env n) (\<lambda>_ s. Q (l_messages s)) (\<lambda>_ s. Q (l_messages s))"
  unfolding end_step_def
  by (intro hoare_then [OF messages_hoare [OF emit_vars]] hoare_pre [OF hoare_modify]) simp

lemma end_step_dialogue:
  "hoare (\<lambda>s. dialogue p (l_messages s)) (end_step env n) (\<lambda>_ s. dialogue p (l_messages s)) (\<lambda>_. talking p)"
  "hoare (awaiting p resp) (end_step env n) (\<lambda>_. awaiting p resp) (\<lambda>_. talking p)"
proof -
  show "hoare (\<lambda>s. dialogue p (l_messages s)) (end_step env n) (\<lambda>_ s. dialogue p (l_messages s)) (\<lambda>_. talking p)"
    by (rule hoare_post [OF end_step_messages]) (auto simp: talking_def)
  show "hoare (awaiting p resp) (end_step env n) (\<lambda>_. awaiting p resp) (\<lambda>_. talking p)"
    by (rule hoare_post [OF end_step_messages [of "\<lambda>ms'. \<exists>ms. dialogue p ms \<and> ms' = ms @ [build_assistant_message resp]",
            folded awaiting_def]])
      (auto simp: talking_def)
qed

text \<open>After an iteration that continues, the conversation is ready for the next request.\<close>

definition next_turn :: "json \<Rightarrow> bool \<Rightarrow> 'z loop_st_scheme \<Rightarrow> bool" where
  "next_turn p c s \<longleftrightarrow> (if c then dialogue p (l_messages s) else talking p s)"

lemma loop_body_dialogue:
  "hoare (\<lambda>s. dialogue p (l_messages s)) (loop_body env rc) (next_turn p) (\<lambda>_. talking p)"
proof -
  have cont: "hoare (\<lambda>s. awaiting p resp s \<and> tool_uses resp \<noteq> [])
      (bindE (mapE (run_one_tool env tools) (tool_uses resp)) (\<lambda>results.
       thenE (push_message (user_message (JList results))) (thenE (end_step env n) (ret True))))
      (next_turn p) (\<lambda>_. talking p)" for resp n tools
    by (rule hoare_bind [OF tools_dialogue], rule hoare_then [OF push_dialogue], rule hoare_then [OF end_step_dialogue(1)])
      (rule hoare_pre [OF hoare_ret], simp add: next_turn_def)
  have stop: "hoare (awaiting p resp) (thenE (end_step env n) (thenE (modify (l_outcome_update f)) (ret False)))
      (next_turn p) (\<lambda>_. talking p)" for resp n f
    by (rule hoare_then [OF end_step_dialogue(2)])
      (rule hoareI, auto simp: thenE_def bindE_def modify_def ret_def next_turn_def talking_def awaiting_def)
  have branch: "hoare (awaiting p resp) (if b \<and> tool_uses resp \<noteq> [] then m else k) (next_turn p) (\<lambda>_. talking p)"
    if "hoare (\<lambda>s. awaiting p resp s \<and> tool_uses resp \<noteq> []) m (next_turn p) (\<lambda>_. talking p)"
      "hoare (awaiting p resp) k (next_turn p) (\<lambda>_. talking p)" for resp m k b
    using that by (cases "b \<and> tool_uses resp \<noteq> []") auto
  show ?thesis
    unfolding loop_body_def
    by (intro hoare_bind [OF dialogue_stateless(1)] hoare_then [OF dialogue_frame [OF set_step_vars]]
        hoare_then [OF dialogue_frame [OF emit_vars]] hoare_bind [OF call_llm_dialogue] branch cont stop)
qed

section \<open>Properties\<close>

lemma while_dialogue:
  "hoare (\<lambda>s. dialogue p (l_messages s)) (while_loop env rc) (\<lambda>_. talking p) (\<lambda>_. talking p)"
proof (rule while_hoare)
  show "hoare (\<lambda>s. dialogue p (l_messages s) \<and> l_step s < rc_max_steps rc) (loop_body env rc)
      (\<lambda>c s. if c then dialogue p (l_messages s) else talking p s) (\<lambda>_. talking p)"
    by (rule hoare_pre [OF loop_body_dialogue [unfolded next_turn_def [abs_def]]]) simp
qed (simp add: talking_def)

lemma talking_frame: "keeps (\<lambda>s t. vars t = vars s) m \<Longrightarrow> preserves (talking p) m"
  by (rule preservesI) (auto dest!: keepsD simp: vars_def talking_def awaiting_def)

lemma run_dialogue_hoare:
  "hoare (\<lambda>_. True) (run env spec rt)
     (\<lambda>_. talking (user_message (JStr (rc_prompt (run_config spec rt))))) (\<lambda>_ _. True)"
proof -
  let ?rc = "run_config spec rt" and ?p = "user_message (JStr (rc_prompt (run_config spec rt)))"
  have il: "hoare (\<lambda>_. True) (modify (init_locals ?rc)) (\<lambda>_ s. dialogue ?p (l_messages s)) (\<lambda>_ _. True)"
    by (rule hoare_pre [OF hoare_modify]) (simp add: init_locals_def prompted)
  have rd: "keeps (\<lambda>s t. vars t = vars s) (os_read f)" for f :: "nat \<Rightarrow> pyfloat"
    by (rule keepsI) (auto simp: os_read_def vars_def)
  have "preserves (talking ?p) (thenE (emit env agent_error (error_data e)) (modify (l_outcome_update (\<lambda>_. lit ''failed''))))" for e
    by (intro preserves_then talking_frame emit_vars preserves_modify) (auto simp: talking_def awaiting_def)
  then have g: "hoare (\<lambda>s. dialogue ?p (l_messages s)) (guarded_loop env ?rc) (\<lambda>_. talking ?p) (\<lambda>_ _. True)"
    unfolding guarded_loop_def
    by (intro hoare_catch [OF while_dialogue] hoare_post [OF iffD1 [OF preserves_def]]) auto
  have fin: "preserves (talking ?p) (bindE (os_read (os_time env)) (\<lambda>w1.
      bindE (gets (done_data w0 w1)) (\<lambda>done. thenE (emit env agent_done done) (ret done))))" for w0
    by (intro preserves_intros talking_frame rd emit_vars)
  have rd0: "hoare (\<lambda>s. dialogue ?p (l_messages s)) (os_read (os_time env)) (\<lambda>_ s. dialogue ?p (l_messages s)) (\<lambda>_ _. True)"
    by (rule hoare_post [OF messages_hoare [OF rd, of "dialogue ?p"]]) auto
  have fin': "hoare (talking ?p) (bindE (os_read (os_time env)) (\<lambda>w1.
      bindE (gets (done_data w0 w1)) (\<lambda>done. thenE (emit env agent_done done) (ret done)))) (\<lambda>_. talking ?p) (\<lambda>_ _. True)" for w0
    by (rule hoare_post [OF fin [unfolded preserves_def]]) auto
  show ?thesis
    unfolding run_def Let_def
    by (intro hoare_then [OF hoare_any] hoare_then [OF il] hoare_bind [OF rd0] hoare_then [OF g] fin')
qed

text \<open>
  C18: the conversation of a run is well-formed: it begins with the prompt, user and assistant messages
  alternate, and every assistant message with tool uses is followed by a user message that answers each
  tool use once, in order, under its id; only the model's last reply may stand without an answer.
\<close>

theorem run_conversation:
  assumes "run env spec rt s = (Inr d, t)"
  shows "\<exists>ms. dialogue (user_message (JStr (prompt spec))) ms \<and> odd (length ms) \<and> alternates True (l_messages t) \<and>
    (l_messages t = ms \<or> (\<exists>resp. l_messages t = ms @ [build_assistant_message resp]))"
proof -
  have "rc_prompt (run_config spec rt) = prompt spec" by (simp add: run_config_def)
  with hoare_InrD [OF run_dialogue_hoare _ assms] have "talking (user_message (JStr (prompt spec))) t" by simp
  then obtain ms where ms: "dialogue (user_message (JStr (prompt spec))) ms"
    "l_messages t = ms \<or> (\<exists>resp. l_messages t = ms @ [build_assistant_message resp])"
    by (auto simp: talking_def awaiting_def)
  with dialogue_alternates [OF ms(1)] show ?thesis
    by (intro exI [of _ ms]) (auto simp: alternates_append roles simp del: lit_Cons)
qed

theorem run_conversation_witness:
  "\<exists>d t. run sample_llm_env (sample_task 3) sample_rt (sample_loop_st EchoClient) = (Inr d, t) \<and>
     alternates True (l_messages t)"
proof -
  obtain d t where r: "run sample_llm_env (sample_task 3) sample_rt (sample_loop_st EchoClient) = (Inr d, t)"
    using sureD [OF run_sure sample_writer_ok] by blast
  from run_conversation [OF r] r show ?thesis by blast
qed

text \<open>The content blocks as the API sent them, for text and tool_use blocks.\<close>

definition block_json :: "api_block \<Rightarrow> json" where
  "block_json b = JObj ((lit ''type'', JStr (default_to [] (b_type b))) #
     (if b_type b = Some (lit ''text'') then [(lit ''text'', JStr (default_to [] (b_text b)))]
      else [(lit ''id'', JStr (default_to [] (b_id b))), (lit ''name'', JStr (default_to [] (b_name b))),
            (lit ''input'', JObj (default_to [] (b_input b)))]))"

text \<open>
  C35: what the model said is sent back to it: when the texts of an Anthropic message come before its
  tool uses, the assistant message of the next request has exactly its content blocks, in order, with
  their ids, names and inputs. (Blocks of other types are dropped, and texts after a tool use move before it.)
\<close>

theorem assistant_message_content:
  assumes "msg_content msg = ts @ us" "list_all (\<lambda>b. b_type b = Some (lit ''text'')) ts"
    "list_all (\<lambda>b. b_type b = Some (lit ''tool_use'')) us"
  shows "build_assistant_message (response_of msg) =
    JObj [(lit ''role'', JStr (lit ''assistant'')), (lit ''content'', JList (map block_json (msg_content msg)))]"
proof -
  have n: "lit ''tool_use'' \<noteq> lit ''text''" by (simp add: lit_eq_iff del: lit_Cons)
  have f: "filter (\<lambda>b. b_type b = Some (lit ''text'')) (ts @ us) = ts"
    "filter (\<lambda>b. b_type b = Some (lit ''tool_use'')) (ts @ us) = us"
    using assms(2,3) n by (auto simp: list_all_iff filter_id_conv filter_empty_conv simp del: lit_Cons)
  have t: "map (\<lambda>t. JObj [(lit ''type'', JStr (lit ''text'')), (lit ''text'', JStr t)]) (map (\<lambda>b. default_to [] (b_text b)) ts)
      = map block_json ts"
    using assms(2) by (auto simp: list_all_iff block_json_def default_to_def simp del: lit_Cons)
  have u: "map (\<lambda>t. JObj ((lit ''type'', JStr (lit ''tool_use'')) # tool_use_json t))
      (map (\<lambda>b. \<lparr>tu_id = default_to [] (b_id b), tu_name = default_to [] (b_name b), tu_input = default_to [] (b_input b)\<rparr>) us)
      = map block_json us"
    using assms(3) n by (auto simp: list_all_iff block_json_def tool_use_json_def default_to_def simp del: lit_Cons)
  show ?thesis
    unfolding build_assistant_message_def response_of_def llm_response.simps block_texts_def block_tool_uses_def assms(1) f
    using t u by (simp del: lit_Cons map_map)
qed

theorem assistant_message_content_witness:
  "let msg = \<lparr>msg_content =
       [\<lparr>b_type = Some (lit ''text''), b_text = Some (lit ''ok''), b_id = None, b_name = None, b_input = None\<rparr>,
        \<lparr>b_type = Some (lit ''tool_use''), b_text = None, b_id = Some (lit ''1''), b_name = Some (lit ''bash''), b_input = Some []\<rparr>],
       msg_usage = None, msg_stop_reason = Some (lit ''tool_use''), msg_id = None\<rparr>
   in build_assistant_message (response_of msg) =
     JObj [(lit ''role'', JStr (lit ''assistant'')), (lit ''content'', JList (map block_json (msg_content msg)))]"
  unfolding Let_def
  by (rule assistant_message_content
      [where ts = "[\<lparr>b_type = Some (lit ''text''), b_text = Some (lit ''ok''), b_id = None, b_name = None, b_input = None\<rparr>]"
        and us = "[\<lparr>b_type = Some (lit ''tool_use''), b_text = None, b_id = Some (lit ''1''), b_name = Some (lit ''bash''), b_input = Some []\<rparr>]"])
    simp_all

end
