(* ===== verification/EventSchema.thy ===== *)
theory EventSchema
  imports LoopTrace
begin

text \<open>
  The data of every event type, as INTERFACES.md lists it, as a table of field names and types, and
  the proof that each event of a run has exactly the fields of its type, in order, with values of
  the right shape.
\<close>

section \<open>The schema\<close>

datatype data_type =
    DStr | DInt | DNat | DNum | DBool | DNull | DObj | DStrs | DHash
  | DOneOf "string list"

text \<open>A digest as the SDK writes it: \<^verbatim>\<open>sha256:\<close> and 64 lower-case hexadecimal digits.\<close>

definition hex_char :: "nat \<Rightarrow> bool" where
  "hex_char c \<longleftrightarrow> (48 \<le> c \<and> c \<le> 57) \<or> (97 \<le> c \<and> c \<le> 102)"

definition is_hash :: "pystr \<Rightarrow> bool" where
  "is_hash s \<longleftrightarrow> take 7 s = lit ''sha256:'' \<and> length s = 71 \<and> list_all hex_char (drop 7 s)"

fun is_str :: "json \<Rightarrow> bool" where
  "is_str (JStr _) = True"
| "is_str _ = False"

fun fits :: "data_type \<Rightarrow> json \<Rightarrow> bool" where
  "fits DStr v = is_str v"
| "fits DInt v = (case v of JInt _ \<Rightarrow> True | _ \<Rightarrow> False)"
| "fits DNat v = (case v of JInt n \<Rightarrow> 0 \<le> n | _ \<Rightarrow> False)"
| "fits DNum v = (case v of JFloat _ \<Rightarrow> True | _ \<Rightarrow> False)"
| "fits DBool v = (case v of JBool _ \<Rightarrow> True | _ \<Rightarrow> False)"
| "fits DNull v = (v = JNull)"
| "fits DObj v = (case v of JObj _ \<Rightarrow> True | _ \<Rightarrow> False)"
| "fits DStrs v = (case v of JList vs \<Rightarrow> list_all is_str vs | _ \<Rightarrow> False)"
| "fits DHash v = (case v of JStr s \<Rightarrow> is_hash s | _ \<Rightarrow> False)"
| "fits (DOneOf cs) v = (case v of JStr s \<Rightarrow> s \<in> lit ` set cs | _ \<Rightarrow> False)"

text \<open>The types only the proxy and the checkpointer emit have no entry.\<close>

fun data_shape :: "event_type \<Rightarrow> (string \<times> data_type) list option" where
  "data_shape agent_start = Some [(''task_id'', DStr), (''prompt'', DStr), (''model'', DObj), (''tools'', DStrs),
     (''max_steps'', DInt)]"
| "data_shape agent_step_start = Some [(''step'', DInt)]"
| "data_shape llm_call_start = Some [(''provider'', DStr), (''model'', DStr), (''request_hash'', DHash),
     (''messages_count'', DNat), (''params'', DObj)]"
| "data_shape llm_call_end = Some [(''request_hash'', DHash), (''response_hash'', DHash), (''input_tokens'', DInt),
     (''output_tokens'', DInt), (''stop_reason'', DStr), (''cost_usd'', DNum), (''latency_ms'', DNat)]"
| "data_shape tool_call_start = Some [(''tool_name'', DStr), (''args'', DObj), (''tool_call_id'', DStr)]"
| "data_shape tool_call_end = Some [(''tool_call_id'', DStr), (''result'', DStr), (''result_truncated'', DBool),
     (''exit_code'', DInt), (''latency_ms'', DNat), (''result_blob_path'', DNull)]"
| "data_shape file_mutation = Some [(''path'', DStr), (''operation'', DOneOf [''create'', ''edit'']),
     (''size_before'', DNat), (''size_after'', DNat), (''hash_after'', DHash)]"
| "data_shape agent_step_end = Some [(''step'', DInt)]"
| "data_shape agent_done = Some [(''outcome'', DOneOf [''completed'', ''failed'', ''max_steps'']), (''total_steps'', DInt),
     (''total_cost_usd'', DNum), (''total_input_tokens'', DInt), (''total_output_tokens'', DInt),
     (''wall_clock_seconds'', DNum)]"
| "data_shape agent_error = Some [(''type'', DStr), (''message'', DStr)]"
| "data_shape _ = None"

definition typed :: "event_type \<Rightarrow> pydict \<Rightarrow> bool" where
  "typed ty data \<longleftrightarrow> (case data_shape ty of
     None \<Rightarrow> False
   | Some fs \<Rightarrow> list_all2 (\<lambda>(k, t) (k', v). k' = lit k \<and> fits t v) fs data)"

definition event_typed :: "envelope \<Rightarrow> bool" where
  "event_typed e \<longleftrightarrow> typed (e_type e) (e_data e)"

section \<open>The data the loop and the tools build\<close>

lemma hex_chars: "list_all hex_char (show_hex w n)"
proof (induction w arbitrary: n)
  case (Suc w)
  have "hex_char (hex_digit (n mod 16))" by (auto simp: hex_char_def)
  with Suc show ?case by (simp del: hex_digit.simps)
qed simp

lemma sha256_is_hash: "is_hash (sha256_bytes b)"
proof -
  have "list_all hex_char (hexdigest b)"
    unfolding hexdigest_def using hex_chars by (auto simp: list_all_iff)
  then show ?thesis by (simp add: is_hash_def sha256_bytes_def length_hexdigest)
qed

lemma hashes:
  "hash_request f system messages tools params = Inr h \<Longrightarrow> is_hash h"
  "hash_response f resp = Inr h \<Longrightarrow> is_hash h"
  by (auto simp: hash_request_def hash_response_def sha256_is_hash map_sum_def split: sum.splits)

lemma latency_nonneg: "0 \<le> latency_ms a b"
  by (simp add: latency_ms_def)

named_theorems data_typed \<open>The data of each event has the fields of its type\<close>

lemma start_typed [data_typed]: "typed agent_start (start_data rc)"
  by (simp add: typed_def start_data_def list_all_iff)

lemma step_typed [data_typed]: "typed agent_step_start (step_data n)" "typed agent_step_end (step_data n)"
  by (simp_all add: typed_def step_data_def)

lemma llm_start_typed: "is_hash h \<Longrightarrow> typed llm_call_start (llm_start_data rc h n)"
  by (simp add: typed_def llm_start_data_def str_dict_def)

lemma llm_end_typed: "is_hash h \<Longrightarrow> is_hash h' \<Longrightarrow> typed llm_call_end (llm_end_data h h' resp c (latency_ms a b))"
  by (simp add: typed_def llm_end_data_def latency_nonneg)

lemma call_typed [data_typed]:
  "typed tool_call_start (call_start_data tu)"
  "0 \<le> l \<Longrightarrow> typed tool_call_end (call_end_data tu r b code l)"
  by (simp_all add: typed_def call_start_data_def call_end_data_def)

lemma mutation_typed: "mutation_op operation \<Longrightarrow> typed file_mutation (mutation_data p ws operation m n b)"
  by (auto simp: typed_def mutation_data_def sha256_is_hash mutation_op_def)

lemma error_typed [data_typed]: "typed agent_error (error_data exc)"
  by (simp add: typed_def error_data_def)

definition outcome_ok :: "'z loop_st_scheme \<Rightarrow> bool" where
  "outcome_ok s \<longleftrightarrow> l_outcome s \<in> lit ` {''completed'', ''failed'', ''max_steps''}"

lemma done_typed: "outcome_ok s \<Longrightarrow> typed agent_done (done_data w0 w1 s)"
  by (simp add: typed_def done_data_def outcome_ok_def del: lit_Cons)

section \<open>The log stays typed\<close>

definition typed_log :: "'z writer_st_scheme \<Rightarrow> bool" where
  "typed_log s \<longleftrightarrow> list_all event_typed (ew_log s)"

lemma emit_typed_log: "typed ty data \<Longrightarrow> preserves typed_log (emit env ty data)"
  unfolding preserves_def
  by (rule emitter.sink_hoare) (auto simp: typed_log_def stamped_def mk_envelope_def event_typed_def)

lemma log_kept: "keeps (\<lambda>s t. ew_log t = ew_log s) m \<Longrightarrow> preserves typed_log m"
  by (auto intro!: preservesI dest!: keepsD simp: typed_log_def)

lemma tool_steps_typed: "tool_steps env s t \<Longrightarrow> typed_log s \<Longrightarrow> typed_log t"
proof (induction rule: tool_steps.induct)
  case emits
  then show ?case using emit_typed_log [OF mutation_typed] by (blast dest: preservesD)
next
  case (quiet s t u)
  then show ?case by (simp add: typed_log_def same_trace_def writer_view_def)
qed

lemma run_tool_typed: "preserves typed_log (run_tool env tool args)"
  by (auto intro!: preservesI dest!: keepsD [OF run_tool_steps] elim: tool_steps_typed)

text \<open>The invariant of the loop: typed events and a documented outcome.\<close>

definition typed_run :: "'z loop_st_scheme \<Rightarrow> bool" where
  "typed_run s \<longleftrightarrow> typed_log s \<and> outcome_ok s"

lemma typed_runI: "preserves typed_log m \<Longrightarrow> keeps (\<lambda>s t. vars t = vars s) m \<Longrightarrow> preserves typed_run m"
  by (rule preservesI) (auto simp: typed_run_def outcome_ok_def vars_def dest: preservesD keepsD)

lemma emit_typed_run: "typed ty data \<Longrightarrow> preserves typed_run (emit env ty data)"
  by (intro typed_runI emit_typed_log emit_vars)

lemma complete_typed_run: "preserves typed_run (complete env system messages tools params)"
  by (intro typed_runI complete_vars log_kept, rule keeps_mono [OF llm.ask_log]) (simp add: writer_view_def)

lemma quiet_typed_run:
  "preserves typed_run (monotonic_ns env)" "preserves typed_run (os_read f)" "preserves typed_run (set_step n)"
  "preserves typed_run (push_message m)" "preserves typed_run (modify (add_usage rc resp))"
  "preserves typed_run (modify (\<lambda>s. s\<lparr>l_step := l_step s + 1\<rparr>))"
  by (auto intro!: preserves_clock_reads preserves_modify
      simp: typed_run_def typed_log_def outcome_ok_def set_step_def push_message_def add_usage_def)

lemma run_tool_typed_run: "preserves typed_run (run_tool env tool args)"
  by (intro typed_runI run_tool_typed run_tool_vars)

lemma outcome_typed_run:
  "v \<in> lit ` {''completed'', ''failed'', ''max_steps''} \<Longrightarrow> preserves typed_run (modify (l_outcome_update (\<lambda>_. v)))"
  by (rule preserves_modify) (simp add: typed_run_def typed_log_def outcome_ok_def del: lit_Cons)

text \<open>
  The two vocabularies of the SDK. Neither literal type is checked at run time (\<^verbatim>\<open>LLMResponse\<close> is a plain dataclass): a
  stop reason the SDK does not know ends the run as completed, and of the five outcomes a run uses three.
\<close>

definition StopReason :: "string list" where
  "StopReason = [''end_turn'', ''tool_use'', ''max_tokens'', ''stop_sequence'', ''error'']"

definition DoneOutcome :: "string list" where
  "DoneOutcome = [''completed'', ''failed'', ''timeout'', ''max_steps'', ''evicted'']"

lemma unknown_stop_completes: "stop \<notin> lit ` set StopReason \<Longrightarrow> final_outcome stop = lit ''completed''"
  by (auto simp: StopReason_def final_outcome_def simp del: lit_Cons)

lemma outcome_documented: "outcome_ok s \<Longrightarrow> l_outcome s \<in> lit ` (set DoneOutcome - {''timeout'', ''evicted''})"
  by (auto simp: outcome_ok_def DoneOutcome_def simp del: lit_Cons)

lemma final_outcome_ok: "final_outcome stop \<in> lit ` {''completed'', ''failed'', ''max_steps''}"
  by (simp add: final_outcome_def del: lit_Cons)

text \<open>What a value of the error sum is known to satisfy when the rest of the call sees it.\<close>

lemma preserves_known:
  assumes "\<And>h. z = Inr h \<Longrightarrow> preserves P (f h)"
  shows "preserves P (bindE (of_sum z) f)"
  using assms by (cases z) (auto simp: bindE_def of_sum_def intro: preservesI dest: preservesD)

lemmas typed_intros = preserves_intros emit_typed_run quiet_typed_run complete_typed_run run_tool_typed_run
  outcome_typed_run final_outcome_ok

lemma run_one_tool_typed: "preserves typed_run (run_one_tool env tools tu)"
  unfolding run_one_tool_def
  by (auto intro!: typed_intros data_typed latency_nonneg split: option.splits sum.splits)

lemma call_llm_typed: "preserves typed_run (call_llm env rc)"
  unfolding call_llm_def
  by (intro preserves_bind preserves_then preserves_known preserves_stateless quiet_typed_run complete_typed_run
      emit_typed_run llm_start_typed llm_end_typed) (auto dest: hashes)

lemma loop_body_typed: "preserves typed_run (loop_body env rc)"
  unfolding loop_body_def end_step_def
  by (intro typed_intros data_typed call_llm_typed run_one_tool_typed)

lemma guarded_loop_typed: "preserves typed_run (guarded_loop env rc)"
proof -
  have f: "lit ''failed'' \<in> lit ` {''completed'', ''failed'', ''max_steps''}"
    "lit ''max_steps'' \<in> lit ` {''completed'', ''failed'', ''max_steps''}" by simp_all
  have "preserves typed_run (while_loop env rc)"
    unfolding preserves_def
  proof (rule while_hoare)
    show "hoare (\<lambda>s. typed_run s \<and> l_step s < rc_max_steps rc) (loop_body env rc)
        (\<lambda>c s. if c then typed_run s else typed_run s) (\<lambda>_. typed_run)"
      using loop_body_typed [of env rc] unfolding preserves_def by (auto intro: hoare_pre)
  qed (use f in \<open>simp add: typed_run_def typed_log_def outcome_ok_def del: lit_Cons\<close>)
  then show ?thesis unfolding guarded_loop_def by (intro typed_intros data_typed f)
qed

lemma finish_typed:
  "hoare typed_run (bindE (gets (done_data w0 w1)) (\<lambda>d. thenE (emit env agent_done d) (ret d)))
     (\<lambda>_. typed_log) (\<lambda>_. typed_log)"
proof (rule hoare_bind)
  show "hoare typed_run (gets (done_data w0 w1)) (\<lambda>d s. typed agent_done d \<and> typed_log s) (\<lambda>_. typed_log)"
    by (rule hoare_pre [OF hoare_gets]) (simp add: typed_run_def done_typed)
  fix d
  show "hoare (\<lambda>s. typed agent_done d \<and> typed_log s) (thenE (emit env agent_done d) (ret d))
      (\<lambda>_. typed_log) (\<lambda>_. typed_log)"
    using preserves_then [OF emit_typed_log preserves_stateless(1), of agent_done d env d]
    by (cases "typed agent_done d") (simp_all add: preserves_def hoare_def)
qed

lemma run_typed: "preserves typed_log (run env spec rt)"
proof -
  have il: "hoare typed_log (modify (init_locals rc)) (\<lambda>_. typed_run) (\<lambda>_. typed_log)" for rc
    by (rule hoare_pre [OF hoare_modify]) (simp add: typed_run_def typed_log_def outcome_ok_def init_locals_def del: lit_Cons)
  have k: "hoare typed_run m (\<lambda>_. typed_run) (\<lambda>_. typed_log)" if "preserves typed_run m" for m
    using that unfolding preserves_def by (rule hoare_post) (simp_all add: typed_run_def)
  have s0: "hoare typed_log (set_step 0) (\<lambda>_. typed_log) (\<lambda>_. typed_log)"
    unfolding set_step_def by (rule hoare_pre [OF hoare_modify]) (simp add: typed_log_def)
  show ?thesis
    unfolding preserves_def run_def Let_def
    by (intro hoare_then [OF s0] hoare_then [OF emit_typed_log [OF start_typed, unfolded preserves_def]] hoare_then [OF il]
        hoare_bind [OF k [OF quiet_typed_run(2)]] hoare_then [OF k [OF guarded_loop_typed]] finish_typed)
qed

section \<open>Property\<close>

text \<open>
  C14: every event of a run has exactly the data fields INTERFACES.md gives its type, in order, and
  each value has its documented shape: digests are \<^verbatim>\<open>sha256:\<close> and 64 hexadecimal digits, latencies and
  sizes are not negative, the outcome is completed, failed or max_steps, a mutation creates or edits. This
  holds however the run ends, and no event of the proxy's or the checkpointer's types is emitted.
\<close>

theorem run_events_typed:
  assumes "ew_log s = []" and "run env spec rt s = (y, t)"
  shows "list_all event_typed (ew_log t)"
proof -
  have "typed_log s" using assms(1) by (simp add: typed_log_def)
  from preservesD [OF run_typed this assms(2)] show ?thesis by (simp add: typed_log_def)
qed

theorem run_events_typed_witness: "list_all event_typed echo_log \<and> echo_log \<noteq> []"
proof -
  obtain d t where r: "run (dumping sample_dump) (sample_task 1) sample_rt (sample_loop_st EchoClient) = (Inr d, t)"
    and l: "ew_log t = echo_log" using sample_run by blast
  from run_events_typed [OF _ r] l show ?thesis by (simp add: echo_log_def)
qed

end
