(* ===== verification/Lockstep.thy ===== *)
theory Lockstep
  imports Prelude
begin

text \<open>
  Two executions side by side. \<open>sim R ok V m n\<close>: from related states the calls \<open>m\<close> and \<open>n\<close> both return
  related values or raise the same exception, and leave related states, as long as the state \<open>m\<close>
  ends in is \<open>ok\<close>; and \<open>ok\<close> is a property that only gets lost, so it held all the way.
\<close>

definition sim ::
  "('s \<Rightarrow> 't \<Rightarrow> bool) \<Rightarrow> ('s \<Rightarrow> bool) \<Rightarrow> ('a \<Rightarrow> 'b \<Rightarrow> bool) \<Rightarrow> ('x, 's, 'a) effect \<Rightarrow> ('x, 't, 'b) effect \<Rightarrow> bool" where
  "sim R ok V m n \<longleftrightarrow>
     (\<forall>s. ok (snd (m s)) \<longrightarrow> ok s) \<and>
     (\<forall>s t. R s t \<longrightarrow> ok (snd (m s)) \<longrightarrow>
        rel_sum (=) V (fst (m s)) (fst (n t)) \<and> R (snd (m s)) (snd (n t)))"

lemma simI:
  assumes "\<And>s y s'. m s = (y, s') \<Longrightarrow> ok s' \<Longrightarrow> ok s"
    and "\<And>s t y s'. R s t \<Longrightarrow> m s = (y, s') \<Longrightarrow> ok s' \<Longrightarrow> \<exists>z t'. n t = (z, t') \<and> rel_sum (=) V y z \<and> R s' t'"
  shows "sim R ok V m n"
  unfolding sim_def using assms by (metis prod.collapse fst_conv snd_conv)

lemma sim_back: "sim R ok V m n \<Longrightarrow> m s = (y, s') \<Longrightarrow> ok s' \<Longrightarrow> ok s"
  unfolding sim_def by (metis snd_conv)

lemma simD:
  assumes "sim R ok V m n" "R s t" "m s = (y, s')" "ok s'"
  shows "\<exists>z t'. n t = (z, t') \<and> rel_sum (=) V y z \<and> R s' t'"
  using assms unfolding sim_def by (metis prod.collapse fst_conv snd_conv)

lemma sim_mono:
  assumes "sim R ok V m n" and "\<And>x y. V x y \<Longrightarrow> W x y"
  shows "sim R ok W m n"
proof -
  have "rel_sum (=) V a b \<Longrightarrow> rel_sum (=) W a b" for a b
    using assms(2) by (auto elim!: rel_sum.cases)
  with assms(1) show ?thesis unfolding sim_def by blast
qed

lemma sim_any: "sim R ok V m n \<Longrightarrow> sim R ok (\<lambda>_ _. True) m n"
  by (erule sim_mono) simp

section \<open>Rules\<close>

lemma sim_ret: "V x y \<Longrightarrow> sim R ok V (ret x) (ret y)"
  by (simp add: sim_def ret_def)

lemma sim_throw: "sim R ok V (throw e) (throw e)"
  by (simp add: sim_def throw_def)

lemma sim_gets: "(\<And>s t. R s t \<Longrightarrow> V (f s) (g t)) \<Longrightarrow> sim R ok V (gets f) (gets g)"
  by (simp add: sim_def gets_def)

lemma sim_modify:
  "(\<And>s. ok (f s) \<Longrightarrow> ok s) \<Longrightarrow> (\<And>s t. R s t \<Longrightarrow> R (f s) (g t)) \<Longrightarrow> sim R ok V (modify f) (modify g)"
  if "V () ()"
  using that by (simp add: sim_def modify_def)

lemma sim_of_sum: "sim R ok (=) (of_sum z) (of_sum z)"
  by (cases z) (simp_all add: sim_def of_sum_def)

text \<open>
  A value relation that is reflexive lets the bound of the second call be taken from any of its
  instances.
\<close>

lemma sim_bind:
  assumes m: "sim R ok V m n" and refl: "\<And>x. \<exists>y. V x y"
    and f: "\<And>x y. V x y \<Longrightarrow> sim R ok W (f x) (g y)"
  shows "sim R ok W (bindE m f) (bindE n g)"
proof (rule simI)
  fix s y s' assume r: "bindE m f s = (y, s')" and ok: "ok s'"
  obtain v u where mu: "m s = (v, u)" by fastforce
  have "ok u"
  proof (cases v)
    case (Inl e)
    with mu r ok show ?thesis by (simp add: bindE_def)
  next
    case (Inr x)
    obtain x' where "V x x'" using refl by blast
    with Inr mu r ok show ?thesis by (auto simp: bindE_def intro: sim_back [OF f])
  qed
  with m mu show "ok s" by (rule sim_back)
  fix t assume "R s t"
  from simD [OF m this mu \<open>ok u\<close>] obtain z t' where nt: "n t = (z, t')" "rel_sum (=) V v z" "R u t'" by blast
  show "\<exists>z t'. bindE n g t = (z, t') \<and> rel_sum (=) W y z \<and> R s' t'"
  proof (cases v)
    case (Inl e)
    with nt(2) have "z = Inl e" by (cases z) auto
    with Inl nt mu r show ?thesis by (auto simp: bindE_def)
  next
    case (Inr x)
    with nt(2) obtain x' where z: "z = Inr x'" "V x x'" by (cases z) auto
    from Inr mu r have "f x u = (y, s')" by (simp add: bindE_def)
    from simD [OF f [OF z(2)] nt(3) this ok] nt(1) z(1) show ?thesis by (simp add: bindE_def)
  qed
qed

lemma sim_bind_eq:
  "sim R ok (=) m n \<Longrightarrow> (\<And>x. sim R ok W (f x) (g x)) \<Longrightarrow> sim R ok W (bindE m f) (bindE n g)"
  by (rule sim_bind [where V = "(=)"]) auto

lemma sim_bind_any:
  "sim R ok (\<lambda>_ _. True) m n \<Longrightarrow> (\<And>x y. sim R ok W (f x) (g y)) \<Longrightarrow> sim R ok W (bindE m f) (bindE n g)"
  by (rule sim_bind [where V = "\<lambda>_ _. True"]) auto

lemma sim_then: "sim R ok V m n \<Longrightarrow> sim R ok W m' n' \<Longrightarrow> sim R ok W (thenE m m') (thenE n n')"
  unfolding thenE_def by (rule sim_bind_any [OF sim_any])

lemma sim_then_eq: "sim R ok (=) m n \<Longrightarrow> sim R ok W m' n' \<Longrightarrow> sim R ok W (thenE m m') (thenE n n')"
  by (rule sim_then)

lemma sim_catch:
  assumes m: "sim R ok V m n" and h: "\<And>e. sim R ok V (h e) (k e)"
  shows "sim R ok V (catchE m h) (catchE n k)"
proof (rule simI)
  fix s y s' assume r: "catchE m h s = (y, s')" and ok: "ok s'"
  obtain v u where mu: "m s = (v, u)" by fastforce
  have "ok u"
    using mu r ok by (cases v) (auto simp: catchE_def intro: sim_back [OF h])
  with m mu show "ok s" by (rule sim_back)
  fix t assume "R s t"
  from simD [OF m this mu \<open>ok u\<close>] obtain z t' where nt: "n t = (z, t')" "rel_sum (=) V v z" "R u t'" by blast
  show "\<exists>z t'. catchE n k t = (z, t') \<and> rel_sum (=) V y z \<and> R s' t'"
  proof (cases v)
    case (Inr x)
    with nt(2) obtain x' where "z = Inr x'" "V x x'" by (cases z) auto
    with Inr nt mu r show ?thesis by (auto simp: catchE_def)
  next
    case (Inl e)
    with nt(2) have z: "z = Inl e" by (cases z) auto
    from Inl mu r have "h e u = (y, s')" by (simp add: catchE_def)
    from simD [OF h nt(3) this ok] nt(1) z show ?thesis by (simp add: catchE_def)
  qed
qed

lemma sim_attempt: "sim R ok (=) m n \<Longrightarrow> sim R ok (=) (attempt c m) (attempt c n)"
  unfolding attempt_def
  by (rule sim_catch) (auto intro!: sim_bind_eq sim_ret sim_throw)

lemma sim_mapE: "(\<And>x. sim R ok (=) (f x) (g x)) \<Longrightarrow> sim R ok (=) (mapE f xs) (mapE g xs)"
  by (induction xs) (auto intro!: sim_ret sim_bind_eq)

lemma sim_if: "(b \<Longrightarrow> sim R ok V m n) \<Longrightarrow> (\<not> b \<Longrightarrow> sim R ok V m' n') \<Longrightarrow>
  sim R ok V (if b then m else m') (if b then n else n')"
  by simp

lemmas sim_intros = sim_if sim_attempt sim_mapE sim_of_sum sim_throw sim_bind_eq sim_ret

end
