(* ===== verification/Replay.thy ===== *)
theory Replay
  imports RunProps Lockstep
begin

text \<open>
  Replay reproduces a run. A run on the system clock and a run on the clock that replays its trace go
  through the same events, file changes and messages; they differ only in what is measured: the
  latencies, which a replay clock reads as differences between recorded stamps, and the wall clock.
\<close>

section \<open>Events without what is measured\<close>

definition untimed_data :: "pydict \<Rightarrow> pydict" where
  "untimed_data d = map (\<lambda>(k, v). (k, if k = lit ''latency_ms'' \<or> k = lit ''wall_clock_seconds'' then JNull else v)) d"

definition untimed :: "envelope \<Rightarrow> envelope" where
  "untimed e = e\<lparr>e_data := untimed_data (e_data e)\<rparr>"

text \<open>The same without the stamps.\<close>

definition blur :: "envelope \<Rightarrow> envelope" where
  "blur e = (untimed e)\<lparr>e_ts := [], e_mono := 0\<rparr>"

lemma untimed_blur: "untimed e = untimed e' \<longleftrightarrow> blur e = blur e' \<and> time_stamp e = time_stamp e'"
  by (cases e; cases e') (auto simp: untimed_def blur_def time_stamp_def)

lemma blur_stamped:
  assumes "stamped s ty d e" "stamped t ty d' e'" "emit_frame s t" "untimed_data d = untimed_data d'"
  shows "blur e = blur e'"
  using assms by (auto simp: stamped_def mk_envelope_def blur_def untimed_def emit_frame_def)

section \<open>The relation between the two runs\<close>

text \<open>
  The recording run is on the system clock with a writer nothing refuses; the replaying run is at the
  stamp of its next event, has logged the same events apart from what is measured, with the recorded
  stamps, and agrees with the recording run in everything else but clock, file and echo stream.
\<close>

definition in_step :: "'e writer_env_scheme \<Rightarrow> (pystr \<times> int) list \<Rightarrow> 'z writer_st_scheme \<Rightarrow> 'z writer_st_scheme \<Rightarrow> bool" where
  "in_step env pairs s t \<longleftrightarrow> emit_frame s t \<and> writer_ok env s \<and>
     clk t = ReplayClock pairs (length (ew_log t)) \<and> map blur (ew_log t) = map blur (ew_log s) \<and>
     map time_stamp (ew_log t) = take (length (ew_log t)) pairs"

definition recorded :: "(pystr \<times> int) list \<Rightarrow> 'z writer_st_scheme \<Rightarrow> bool" where
  "recorded pairs s \<longleftrightarrow> length (ew_log s) < length pairs"

abbreviation same :: "'e writer_env_scheme \<Rightarrow> (pystr \<times> int) list \<Rightarrow>
  ('z writer_st_scheme, 'a) eff \<Rightarrow> ('z writer_st_scheme, 'a) eff \<Rightarrow> bool" where
  "same env pairs \<equiv> sim (in_step env pairs) (recorded pairs) (=)"

lemma in_step_length: "in_step env pairs s t \<Longrightarrow> length (ew_log t) = length (ew_log s)"
  unfolding in_step_def by (metis length_map)

text \<open>An emit in both runs, when the recording has one more stamp.\<close>

lemma emit_replay:
  assumes c: "clk t = ReplayClock pairs i" and i: "i < length pairs" and ok: "writer_ok env s" and f: "emit_frame s t"
  shows "\<exists>e t'. emit env ty data t = (Inr e, t') \<and> e_ts e = fst (pairs ! i) \<and> e_mono e = snd (pairs ! i)
    \<and> clk t' = ReplayClock pairs (Suc i)"
proof -
  let ?e = "mk_envelope (fst (pairs ! i)) (snd (pairs ! i)) ty data t"
  obtain js where js: "model_dump_json env ?e = Inr js" "list_all scalar js"
    using ok unfolding writer_ok_def by blast
  then have "\<exists>bs. utf8_encode (js @ [nl]) = Inr bs" by (simp add: utf8_encode_def scalar_ascii)
  moreover have "\<not> ew_closed t" "\<And>x l. fp_fault env x l = None" "\<And>x l. echo_fault env x l = None"
    using ok f by (auto simp: writer_ok_def emit_frame_def)
  ultimately show ?thesis using js c i
    by (cases "ew_echo t")
      (auto simp: emit_def eff_defs replay_read [OF c i] fp_write_def flush_out_def echo_write_def tick_def replay_next_def mk_envelope_def)
qed

lemma emit_in_step:
  assumes st: "in_step env pairs s t" and r: "recorded pairs s" and d: "untimed_data d = untimed_data d'"
  shows "\<exists>e s' e' t'. emit env ty d s = (Inr e, s') \<and> emit env ty d' t = (Inr e', t') \<and> in_step env pairs s' t'"
proof -
  have w: "writer_ok env s" and f: "emit_frame s t" and c: "clk t = ReplayClock pairs (length (ew_log t))"
    and i: "length (ew_log t) < length pairs"
    using st r in_step_length [OF st] by (simp_all add: in_step_def recorded_def)
  obtain e s' where e: "emit env ty d s = (Inr e, s')" "writer_ok env s'" using emit_total [OF w] by blast
  obtain e' t' where e': "emit env ty d' t = (Inr e', t')" "e_ts e' = fst (pairs ! length (ew_log t))"
    "e_mono e' = snd (pairs ! length (ew_log t))" "clk t' = ReplayClock pairs (Suc (length (ew_log t)))"
    using emit_replay [OF c i w f] by blast
  note l = emit_spec [OF e(1)] and l' = emit_spec [OF e'(1)]
  have "emit_frame s' t'" using l(1) l'(1) f by (simp add: emit_frame_def)
  moreover have "blur e' = blur e"
    using blur_stamped [of s ty d e t d' e'] l(2) l'(2) f d by simp
  ultimately have "in_step env pairs s' t'"
    using st e(2) e'(2-4) l(2) l'(2) i
    by (auto simp: in_step_def time_stamp_def take_Suc_conv_app_nth)
  with e(1) e'(1) show ?thesis by blast
qed

lemma recorded_back: "keeps (\<lambda>s t. length (ew_log s) \<le> length (ew_log t)) m \<Longrightarrow> m s = (y, s') \<Longrightarrow>
  recorded pairs s' \<Longrightarrow> recorded pairs s"
  by (auto simp: recorded_def dest: keepsD)

lemma emit_grows: "keeps (\<lambda>s t. length (ew_log s) \<le> length (ew_log t)) (emit env ty d)"
proof (rule keepsI)
  fix s y and t :: "'z writer_st_scheme" assume "emit env ty d s = (y, t)"
  then show "length (ew_log s) \<le> length (ew_log t)"
    using emit_spec(2,3) [of env ty d s y t] by (cases y) auto
qed

lemma emit_sim:
  "untimed_data d = untimed_data d' \<Longrightarrow>
     sim (in_step env pairs) (recorded pairs) (\<lambda>_ _. True) (emit env ty d) (emit env ty d')"
proof (rule simI)
  fix s :: "'z writer_st_scheme" and y s'
  assume e: "emit env ty d s = (y, s')" and ok: "recorded pairs s'" and d: "untimed_data d = untimed_data d'"
  show r: "recorded pairs s" using emit_grows e ok by (rule recorded_back)
  fix t assume "in_step env pairs s t"
  from emit_in_step [OF this r d, of ty] e
  show "\<exists>z t'. emit env ty d' t = (z, t') \<and> rel_sum (=) (\<lambda>_ _. True) y z \<and> in_step env pairs s' t'" by auto
qed

text \<open>Clock readings may differ in the two runs.\<close>

lemma in_step_reads: "in_step env pairs s t \<Longrightarrow> in_step env pairs (s\<lparr>os_reads := m\<rparr>) (t\<lparr>os_reads := n\<rparr>)"
  by (cases s; cases t) (simp add: in_step_def emit_frame_def writer_ok_def)

lemma monotonic_sim: "sim (in_step env pairs) (recorded pairs) (\<lambda>_ _. True) (monotonic_ns env) (monotonic_ns env)"
proof (rule simI)
  fix s :: "'z writer_st_scheme" and y s' assume m: "monotonic_ns env s = (y, s')" and ok: "recorded pairs s'"
  show r: "recorded pairs s" using monotonic_ns_frame [OF m] ok by (auto simp: recorded_def)
  fix t assume st: "in_step env pairs s t"
  then have c: "clk s = SystemClock" "clk t = ReplayClock pairs (length (ew_log t))"
    by (simp_all add: in_step_def writer_ok_def)
  with m have y: "y = Inr (os_mono env (os_reads s))" "s' = s\<lparr>os_reads := Suc (os_reads s)\<rparr>"
    by (auto simp: monotonic_ns_def os_read_def)
  have "length (ew_log t) < length pairs" using r in_step_length [OF st] by (simp add: recorded_def)
  from replay_read(2) [OF c(2) this, of env] y in_step_reads [OF st, of "Suc (os_reads s)" "os_reads t"]
  show "\<exists>z t'. monotonic_ns env t = (z, t') \<and> rel_sum (=) (\<lambda>_ _. True) y z \<and> in_step env pairs s' t'" by auto
qed

lemma os_read_sim: "sim (in_step env pairs) (recorded pairs) (\<lambda>_ _. True) (os_read f) (os_read f)"
  by (rule simI) (auto simp: os_read_def recorded_def intro: in_step_reads)

section \<open>Calls that do not depend on the clock\<close>

definition keeps_trace :: "'z writer_st_scheme \<Rightarrow> 'z writer_st_scheme \<Rightarrow> bool" where
  "keeps_trace s t \<longleftrightarrow> clk t = clk s \<and> ew_log t = ew_log s \<and> ew_closed t = ew_closed s"

lemma quiet_same:
  assumes "\<And>s t. emit_frame s t \<Longrightarrow> length (ew_log t) = length (ew_log s) \<Longrightarrow> fst (m t) = fst (m s) \<and> emit_frame (snd (m s)) (snd (m t))"
    and k: "keeps keeps_trace m"
  shows "same env pairs m m"
proof (rule simI)
  fix s y s' assume m: "m s = (y, s')" and ok: "recorded pairs s'"
  from keepsD [OF k m] ok show "recorded pairs s" by (simp add: recorded_def keeps_trace_def)
  fix t assume st: "in_step env pairs s t"
  obtain z t' where n: "m t = (z, t')" by fastforce
  from st have "emit_frame s t" by (simp add: in_step_def)
  from assms(1) [OF this in_step_length [OF st]] m n have z: "z = y" "emit_frame s' t'" by simp_all
  have "in_step env pairs s' t'"
    using st z keepsD [OF k m] keepsD [OF k n] by (simp add: in_step_def keeps_trace_def writer_ok_def)
  moreover have "rel_sum (=) (=) y z" using z(1) by (cases y) simp_all
  ultimately show "\<exists>z t'. m t = (z, t') \<and> rel_sum (=) (=) y z \<and> in_step env pairs s' t'" using n by blast
qed

lemma emit_frame_tfs: "emit_frame s t \<Longrightarrow> tfs t = tfs s"
  by (simp add: emit_frame_tool)

lemma emit_frame_set_tfs: "emit_frame s t \<Longrightarrow> emit_frame (s\<lparr>tfs := fs\<rparr>) (t\<lparr>tfs := fs\<rparr>)"
  by (cases s; cases t) (simp add: emit_frame_def)

lemma kcall_same: "same env pairs (kcall env' op p f) (kcall env' op p f)"
  by (rule quiet_same) (auto simp: kcall_def keeps_def keeps_trace_def emit_frame_tfs split: option.splits)

named_theorems same_calls \<open>Calls that go the same way in both runs\<close>

lemma fs_calls_same [same_calls]:
  "same env pairs (path_exists env' p) (path_exists env' p)" "same env pairs (path_is_file env' p) (path_is_file env' p)"
  "same env pairs (path_is_dir env' p) (path_is_dir env' p)" "same env pairs (st_size env' p) (st_size env' p)"
  "same env pairs (read_bytes env' p) (read_bytes env' p)"
  by (simp_all add: path_exists_def path_is_file_def path_is_dir_def st_size_def read_bytes_def kcall_same)

lemma set_fs_same: "same env pairs (modify (tfs_update (\<lambda>_. fs))) (modify (tfs_update (\<lambda>_. fs)))"
  by (rule quiet_same) (auto simp: modify_def keeps_def keeps_trace_def emit_frame_set_tfs)

lemma fault_same: "same env pairs (gets (\<lambda>s. f (tfs s))) (gets (\<lambda>s. f (tfs s)))"
  by (rule quiet_same) (auto simp: gets_def keeps_def keeps_trace_def emit_frame_tfs)

lemma write_bytes_same [same_calls]: "same env pairs (write_bytes env' p b) (write_bytes env' p b)"
  unfolding write_bytes_def
  by (intro sim_bind_eq sim_then_eq kcall_same set_fs_same fault_same) (auto intro!: sim_intros split: option.splits)

lemma os_mkdir_same [same_calls]: "same env pairs (os_mkdir env' p) (os_mkdir env' p)"
  by (rule quiet_same)
    (auto simp: os_mkdir_def keeps_def keeps_trace_def emit_frame_tfs emit_frame_set_tfs split: option.splits sum.splits)

lemma get_target_same [same_calls]: "same env pairs (get_target env' ctx a) (get_target env' ctx a)"
  by (rule quiet_same) (auto simp: get_target_def keeps_def keeps_trace_def emit_frame_tfs)

lemma subprocess_same [same_calls]: "same env pairs (subprocess_run env' ctx c) (subprocess_run env' ctx c)"
  by (rule quiet_same)
    (auto simp: subprocess_run_def keeps_def keeps_trace_def emit_frame_tfs emit_frame_set_tfs split: prod.splits)

lemma unless_dir_same [same_calls]: "same env pairs (unless_dir env' p x) (unless_dir env' p x)"
  unfolding unless_dir_def by (intro sim_intros same_calls) simp

lemma mkdir_one_same [same_calls]: "same env pairs (mkdir_one env' p) (mkdir_one env' p)"
  unfolding mkdir_one_def
  by (intro sim_bind_eq same_calls) (auto intro!: sim_intros same_calls split: option.splits sum.splits errno.splits)

lemma mkdir_parents_same [same_calls]:
  "same env pairs (mkdir_parents env' p :: ('z tool_st_scheme, unit) eff) (mkdir_parents env' p)"
proof (induction p rule: length_induct)
  case (1 p)
  have "same env pairs (mkdir_parents env' (butlast p) :: ('z tool_st_scheme, unit) eff) (mkdir_parents env' (butlast p))"
    if "p \<noteq> []"
    by (rule 1 [THEN spec, THEN mp]) (use that in simp)
  then show ?case
    by (subst (1 2) mkdir_parents.simps)
      (intro sim_bind_eq same_calls, auto intro!: sim_intros sim_then_eq same_calls split: option.splits sum.splits errno.splits)
qed

lemma emit_file_mutation_same [same_calls]:
  "same env pairs (emit_file_mutation env p ws operation m n b) (emit_file_mutation env p ws operation m n b)"
  unfolding emit_file_mutation_def by (intro sim_then [OF emit_sim] sim_ret) simp_all

section \<open>The tools\<close>

lemma bash_same: "same env pairs (bash_run env ctx args) (bash_run env ctx args)"
  unfolding bash_run_def by (auto intro!: sim_intros same_calls split: option.splits)

lemma file_read_same: "same env pairs (file_read_run env ctx args) (file_read_run env ctx args)"
  unfolding file_read_run_def file_read_at_def read_text_def
  by (auto intro!: sim_intros same_calls split: option.splits)

lemma file_write_same: "same env pairs (file_write_run env ctx args) (file_write_run env ctx args)"
  unfolding file_write_run_def file_write_at_def
  by (auto intro!: sim_intros sim_then_eq same_calls split: option.splits)

lemma file_edit_same: "same env pairs (file_edit_run env ctx args) (file_edit_run env ctx args)"
  unfolding file_edit_run_def file_edit_at_def file_edit_text_def Let_def
  by (auto intro!: sim_intros sim_then_eq same_calls split: option.splits sum.splits)

lemma web_search_same: "same env pairs (web_search_run env ctx args) (web_search_run env ctx args)"
  unfolding web_search_run_def by (auto intro!: sim_intros split: option.splits)

lemma run_tool_same [same_calls]: "same env pairs (run_tool env tool args) (run_tool env tool args)"
proof -
  have "same env pairs (class_run env cls ctx args) (class_run env cls ctx args)" for cls ctx
    by (cases cls) (simp_all add: bash_same file_read_same file_write_same file_edit_same web_search_same)
  then show ?thesis unfolding run_tool_def tool_run_def by (intro sim_bind_eq sim_of_sum)
qed

section \<open>The loop\<close>

text \<open>Data that differ in a latency only.\<close>

lemma untimed_latency:
  "untimed_data (call_end_data tu r b code l) = untimed_data (call_end_data tu r b code l')"
  "untimed_data (llm_end_data h h' resp c l) = untimed_data (llm_end_data h h' resp c l')"
  by (simp_all add: untimed_data_def call_end_data_def llm_end_data_def lit_eq_iff del: lit_Cons)

lemma untimed_wall:
  "vars s = vars t \<Longrightarrow> untimed_data (done_data w0 w1 s) = untimed_data (done_data w0' w1' t)"
  by (simp add: untimed_data_def done_data_def vars_def lit_eq_iff del: lit_Cons)

lemma emit_frame_vars: "emit_frame s t \<Longrightarrow> vars t = vars s"
  by (cases s; cases t) (simp add: emit_frame_def vars_def)

lemma complete_same [same_calls]:
  "same env pairs (complete env system messages tools params) (complete env system messages tools params)"
proof (rule quiet_same)
  fix s t :: "'z client_st_scheme" assume "emit_frame s t"
  then show "fst (complete env system messages tools params t) = fst (complete env system messages tools params s) \<and>
      emit_frame (snd (complete env system messages tools params s)) (snd (complete env system messages tools params t))"
    by (cases s; cases t) (auto simp: emit_frame_def complete_def anthropic_complete_def split: client.splits sum.splits prod.splits)
next
  show "keeps keeps_trace (complete env system messages tools params)"
    by (rule keeps_mono [OF llm.ask_log]) (simp add: keeps_trace_def writer_view_def)
qed

lemma modify_same:
  assumes "\<And>s t. emit_frame s t \<Longrightarrow> emit_frame (f s) (f t)" "\<And>s. keeps_trace s (f s)"
  shows "same env pairs (modify f) (modify f)"
  by (rule quiet_same) (simp_all add: modify_def keeps_def assms)

lemma gets_same:
  assumes "\<And>s t. emit_frame s t \<Longrightarrow> f t = f s"
  shows "same env pairs (gets f) (gets f)"
  by (rule quiet_same) (simp_all add: gets_def keeps_def keeps_trace_def assms)

lemma locals_same [same_calls]:
  "same env pairs (set_step n) (set_step n)" "same env pairs (push_message m) (push_message m)"
  "same env pairs (modify (add_usage rc resp)) (modify (add_usage rc resp))"
  "same env pairs (modify (\<lambda>s. s\<lparr>l_step := l_step s + 1\<rparr>)) (modify (\<lambda>s. s\<lparr>l_step := l_step s + 1\<rparr>))"
  "same env pairs (modify (l_outcome_update f)) (modify (l_outcome_update f))"
  "same env pairs (modify (init_locals rc)) (modify (init_locals rc))"
  unfolding set_step_def push_message_def
  by (rule modify_same, rename_tac s t, case_tac s, case_tac t,
      simp_all add: keeps_trace_def emit_frame_def add_usage_def init_locals_def)+

lemma locals_read_same [same_calls]:
  "same env pairs (gets l_step) (gets l_step)" "same env pairs (gets l_messages) (gets l_messages)"
  using emit_frame_vars by (auto intro!: gets_same simp: vars_def)

lemma run_one_tool_same [same_calls]: "same env pairs (run_one_tool env tools tu) (run_one_tool env tools tu)"
  unfolding run_one_tool_def
  by (intro sim_then [OF emit_sim] sim_bind_any [OF monotonic_sim])
    (auto split: option.splits sum.splits intro!: sim_then [OF emit_sim] sim_bind_any [OF monotonic_sim]
      sim_intros same_calls untimed_latency)

lemma call_llm_same [same_calls]: "same env pairs (call_llm env rc) (call_llm env rc)"
  unfolding call_llm_def
  by (intro sim_bind_eq [OF locals_read_same(2)] sim_bind_eq [OF sim_of_sum] sim_then [OF emit_sim]
      sim_bind_any [OF monotonic_sim] sim_bind_eq [OF complete_same] sim_then [OF locals_same(3)]
      sim_then [OF locals_same(2)] sim_ret untimed_latency) simp_all

lemma loop_body_same [same_calls]: "same env pairs (loop_body env rc) (loop_body env rc)"
proof -
  have e: "same env pairs (end_step env n) (end_step env n)" for n
    unfolding end_step_def by (intro sim_then [OF emit_sim] locals_same) simp
  show ?thesis
    unfolding loop_body_def
    by (intro sim_bind_eq [OF locals_read_same(1)] sim_then [OF locals_same(1)] sim_then [OF emit_sim]
        sim_bind_eq [OF call_llm_same] sim_if sim_bind_eq [OF sim_mapE [OF run_one_tool_same]]
        sim_then [OF locals_same(2)] sim_then [OF locals_same(5)] sim_then [OF e] sim_ret) simp_all
qed

text \<open>Iteration by iteration.\<close>

lemma in_step_outcome: "in_step env pairs s t \<Longrightarrow> in_step env pairs (s\<lparr>l_outcome := v\<rparr>) (t\<lparr>l_outcome := v\<rparr>)"
  by (cases s; cases t) (simp add: in_step_def emit_frame_def writer_ok_def)

lemma while_loop_steps:
  "(recorded pairs (snd (while_loop env rc s)) \<longrightarrow> recorded pairs s) \<and>
   (\<forall>t. in_step env pairs s t \<longrightarrow> recorded pairs (snd (while_loop env rc s)) \<longrightarrow>
      fst (while_loop env rc t) = fst (while_loop env rc s) \<and>
      in_step env pairs (snd (while_loop env rc s)) (snd (while_loop env rc t)))"
proof (induction "nat (rc_max_steps rc - l_step s)" arbitrary: s rule: less_induct)
  case (less s)
  let ?W = "while_loop env rc"
  have step: "l_step t = l_step s" if "in_step env pairs s t" for t
    using that emit_frame_vars [of s t] by (simp add: in_step_def vars_def)
  show ?case
  proof (cases "l_step s < rc_max_steps rc")
    case False
    then have w: "?W s = (Inr (), s\<lparr>l_outcome := lit ''max_steps''\<rparr>)" by (simp add: while_loop.simps)
    have "?W t = (Inr (), t\<lparr>l_outcome := lit ''max_steps''\<rparr>)" if "in_step env pairs s t" for t
      using False step [OF that] by (simp add: while_loop.simps)
    with w show ?thesis by (simp add: in_step_outcome recorded_def del: lit_Cons)
  next
    case True
    obtain y u where b: "loop_body env rc s = (y, u)" by fastforce
    have body: "\<exists>v. loop_body env rc t = (y, v) \<and> in_step env pairs u v"
      if "in_step env pairs s t" "recorded pairs u" for t
      using simD [OF loop_body_same that(1) b that(2)] by (auto simp: sum.rel_eq)
    have kept: "recorded pairs u \<Longrightarrow> recorded pairs s" using sim_back [OF loop_body_same b] by blast
    show ?thesis
    proof (cases "y = Inr True")
      case False
      then have w: "?W s = (map_sum id (\<lambda>_. ()) y, u)"
        using b True by (cases y) (auto simp: while_loop.simps [of env rc s])
      have "?W t = (map_sum id (\<lambda>_. ()) y, v)" if "in_step env pairs s t" "loop_body env rc t = (y, v)" for t v
        using that(2) True step [OF that(1)] \<open>y \<noteq> Inr True\<close>
        by (cases y) (auto simp: while_loop.simps [of env rc t])
      with w body kept show ?thesis by fastforce
    next
      case cont: True
      have w: "?W s = ?W u" using b True cont by (simp add: while_loop.simps [of env rc s])
      have wt: "?W t = ?W v" if "in_step env pairs s t" "loop_body env rc t = (y, v)" for t v
        using that(2) True step [OF that(1)] cont by (simp add: while_loop.simps [of env rc t])
      have "l_step u = l_step s + 1" using loop_body_step [OF b] cont by simp
      then have "nat (rc_max_steps rc - l_step u) < nat (rc_max_steps rc - l_step s)" using True by simp
      note IH = less.hyps [OF this]
      have "fst (?W t) = fst (?W s) \<and> in_step env pairs (snd (?W s)) (snd (?W t))"
        if t: "in_step env pairs s t" and r: "recorded pairs (snd (?W s))" for t
      proof -
        have ru: "recorded pairs (snd (?W u))" using r w by simp
        with IH have "recorded pairs u" by blast
        from body [OF t this] obtain v where v: "loop_body env rc t = (y, v)" "in_step env pairs u v" by blast
        from IH v(2) ru show ?thesis unfolding w wt [OF t v(1)] by blast
      qed
      with IH kept w show ?thesis by simp
    qed
  qed
qed

lemma while_loop_same: "same env pairs (while_loop env rc) (while_loop env rc)"
  unfolding sim_def sum.rel_eq using while_loop_steps [of pairs env rc] by auto

lemma guarded_loop_same: "same env pairs (guarded_loop env rc) (guarded_loop env rc)"
  unfolding guarded_loop_def
  by (intro sim_catch while_loop_same sim_then [OF emit_sim] locals_same) simp

section \<open>The run\<close>

text \<open>Everything before the last event.\<close>

definition run_prefix ::
  "'e llm_env_scheme \<Rightarrow> agent_task_spec \<Rightarrow> loop_runtime \<Rightarrow> ('z loop_st_scheme, pydict) eff" where
  "run_prefix env spec rt =
     (let rc = run_config spec rt in
      thenE (set_step 0)
     (thenE (emit env agent_start (start_data rc))
     (thenE (modify (init_locals rc))
     (bindE (os_read (os_time env)) (\<lambda>wall_start.
      thenE (guarded_loop env rc)
     (bindE (os_read (os_time env)) (\<lambda>wall_end.
      gets (done_data wall_start wall_end))))))))"

lemma run_split: "run env spec rt = bindE (run_prefix env spec rt) (\<lambda>d. thenE (emit env agent_done d) (ret d))"
  by (simp add: run_def run_prefix_def Let_def thenE_def bindE_assoc)

lemma run_prefix_same:
  "sim (in_step env pairs) (recorded pairs) (\<lambda>d d'. untimed_data d = untimed_data d')
     (run_prefix env spec rt) (run_prefix env spec rt)"
proof -
  have "sim (in_step env pairs) (recorded pairs) (\<lambda>d d'. untimed_data d = untimed_data d')
      (gets (done_data w0 w1)) (gets (done_data w0' w1'))" for w0 w1 w0' w1'
    by (rule sim_gets) (auto intro!: untimed_wall simp: in_step_def emit_frame_vars)
  then show ?thesis
    unfolding run_prefix_def Let_def
    by (intro sim_then [OF locals_same(1)] sim_then [OF emit_sim] sim_then [OF locals_same(6)]
        sim_bind_any [OF os_read_sim] sim_then [OF guarded_loop_same]) simp_all
qed

lemma run_in_step:
  assumes st: "in_step env pairs s t" and r: "run env spec rt s = (Inr d, s')"
    and n: "length (ew_log s') = length pairs"
  shows "\<exists>d' t'. run env spec rt t = (Inr d', t') \<and> untimed_data d' = untimed_data d \<and> in_step env pairs s' t'"
proof -
  from r obtain u e where p: "run_prefix env spec rt s = (Inr d, u)" and e: "emit env agent_done d u = (Inr e, s')"
    unfolding run_split thenE_def bindE_Inr_iff by (auto simp: ret_def)
  have u: "recorded pairs u" using emit_spec(2) [OF e] n by (simp add: recorded_def)
  from simD [OF run_prefix_same st p this] obtain d' v where v: "run_prefix env spec rt t = (Inr d', v)"
    "untimed_data d = untimed_data d'" "in_step env pairs u v"
    by (auto elim!: rel_sum.cases)
  from emit_in_step [OF v(3) u v(2), of agent_done] e obtain e' t'
    where "emit env agent_done d' v = (Inr e', t')" "in_step env pairs s' t'" by fastforce
  then have "run env spec rt t = (Inr d', t')" using v(1) by (simp add: run_split thenE_def bindE_def ret_def)
  with v(2) \<open>in_step env pairs s' t'\<close> show ?thesis by simp
qed

lemma untimed_logs:
  "map blur es = map blur fs \<Longrightarrow> map time_stamp es = map time_stamp fs \<Longrightarrow> map untimed es = map untimed fs"
  by (simp add: list_eq_iff_nth_eq untimed_blur)

text \<open>
  C5: replay reproduces the run. Take a run on the system clock with a working writer, and run the task
  again from the same state on the clock that replays the stamps of its trace, with another trace file
  and echo stream and at any later time. The second run returns too; its trace has the same events with
  the same steps, data and time stamps, apart from the measured latency and wall-clock fields; and it leaves
  the same files, messages, totals and outcome.
\<close>

theorem replay_reproduces:
  assumes "writer_ok env s" and "ew_log s = []" and "run env spec rt s = (Inr d, s')"
    and "t = s\<lparr>clk := replay_clock (map time_stamp (ew_log s')), os_reads := n, ew_file := f, ew_echo := out\<rparr>"
  shows "\<exists>d' t'. run env spec rt t = (Inr d', t')
    \<and> map untimed (ew_log t') = map untimed (ew_log s') \<and> untimed_data d' = untimed_data d
    \<and> tfs t' = tfs s' \<and> vars t' = vars s'"
proof -
  let ?pairs = "map time_stamp (ew_log s')"
  have "in_step env ?pairs s t"
    using assms(1,2,4) by (simp add: in_step_def emit_frame_def replay_clock_def)
  from run_in_step [OF this assms(3)] obtain d' t' where t': "run env spec rt t = (Inr d', t')"
    "untimed_data d' = untimed_data d" "in_step env ?pairs s' t'" by auto
  have "map untimed (ew_log t') = map untimed (ew_log s')"
    using t'(3) in_step_length [OF t'(3)] by (intro untimed_logs) (auto simp: in_step_def)
  moreover have "tfs t' = tfs s'" "vars t' = vars s'"
    using t'(3) by (simp_all add: in_step_def emit_frame_tfs emit_frame_vars)
  ultimately show ?thesis using t' by blast
qed

theorem replay_reproduces_witness:
  "\<exists>d s' d' t'. run sample_llm_env (sample_task 1) sample_rt (sample_loop_st EchoClient) = (Inr d, s') \<and>
     ew_log s' = echo_log \<and>
     run sample_llm_env (sample_task 1) sample_rt ((sample_loop_st EchoClient)
       \<lparr>clk := replay_clock (map time_stamp echo_log), os_reads := 7, ew_file := [], ew_echo := None\<rparr>) = (Inr d', t') \<and>
     map untimed (ew_log t') = map untimed echo_log"
proof -
  have env: "dumping (\<lambda>_. Inr (lit ''{}'')) = sample_llm_env"
    by (simp add: dumping_def sample_llm_env_def sample_env_def tool_env.defs llm_env.defs)
  have "list_all scalar (lit ''{}'')" by code_simp
  then obtain d s' where r: "run sample_llm_env (sample_task 1) sample_rt (sample_loop_st EchoClient) = (Inr d, s')"
    and l: "ew_log s' = echo_log"
    using echo_run [of "\<lambda>_. Inr (lit ''{}'')"] unfolding env by auto
  from replay_reproduces [OF sample_writer_ok _ r refl, of None "[]" 7] r l show ?thesis by auto
qed

end
