(* ===== verification/Rng.thy ===== *)
theory Rng
  imports PyText PyFloat "HOL-Library.Word"
begin

text \<open>
  The random sources of \<^verbatim>\<open>deterministic.py\<close>. \<^verbatim>\<open>SystemRNG\<close> holds a \<^verbatim>\<open>random.Random\<close>, which is the Mersenne
  Twister MT19937 with the seeding, the 53-bit \<^verbatim>\<open>random\<close> and the rejection sampling of CPython;
  \<^verbatim>\<open>ReplayRNG\<close> yields recorded values in order.
\<close>

unbundle bit_operations_syntax

section \<open>The Mersenne Twister of random.Random\<close>

type_synonym mt_word = "32 word"

record mt =
  mt_state :: "mt_word list"
  mt_index :: nat

definition mt_size :: nat where "mt_size = 624"

definition spread :: "mt_word \<Rightarrow> mt_word" where
  "spread x = x XOR drop_bit 30 x"

text \<open>\<open>x\<close>, then each word from the one before it.\<close>

fun mt_fill :: "nat \<Rightarrow> nat \<Rightarrow> mt_word \<Rightarrow> mt_word list" where
  "mt_fill 0 j x = []"
| "mt_fill (Suc n) j x = x # mt_fill n (Suc j) (1812433253 * spread x + of_nat (Suc j))"

text \<open>After the last index the first word takes the value of the last and the index restarts at 1.\<close>

definition wrap_index :: "mt_word list \<Rightarrow> nat \<Rightarrow> mt_word list \<times> nat" where
  "wrap_index ws i = (if mt_size \<le> i then (ws[0 := ws ! (mt_size - 1)], 1) else (ws, i))"

definition mix_key :: "mt_word list \<Rightarrow> mt_word list \<times> nat \<times> nat \<Rightarrow> mt_word list \<times> nat \<times> nat" where
  "mix_key key = (\<lambda>(ws, i, j).
     let ws' = ws[i := (ws ! i XOR spread (ws ! (i - 1)) * 1664525) + key ! j + of_nat j];
         (ws'', i') = wrap_index ws' (Suc i)
     in (ws'', i', if length key \<le> Suc j then 0 else Suc j))"

definition mix_index :: "mt_word list \<times> nat \<Rightarrow> mt_word list \<times> nat" where
  "mix_index = (\<lambda>(ws, i). wrap_index (ws[i := (ws ! i XOR spread (ws ! (i - 1)) * 1566083941) - of_nat i]) (Suc i))"

definition init_by_array :: "mt_word list \<Rightarrow> mt" where
  "init_by_array key =
     (let (ws, i, j) = (mix_key key ^^ max mt_size (length key)) (mt_fill mt_size 0 19650218, 1, 0);
          (ws', i') = (mix_index ^^ (mt_size - 1)) (ws, i)
      in \<lparr>mt_state = ws'[0 := 2147483648], mt_index = mt_size\<rparr>)"

text \<open>The 32-bit digits of a seed, least significant first.\<close>

fun key_digits :: "nat \<Rightarrow> mt_word list" where
  "key_digits n = (if n < 2 ^ 32 then [of_nat n] else of_nat n # key_digits (n div 2 ^ 32))"

declare key_digits.simps [simp del]

text \<open>\<^verbatim>\<open>random.Random(seed)\<close>: without a seed the key is 624 words from the operating system.\<close>

definition random_Random :: "mt_word list \<Rightarrow> int option \<Rightarrow> mt" where
  "random_Random urandom seed =
     (case seed of
        Some n \<Rightarrow> init_by_array (key_digits (nat \<bar>n\<bar>))
      | None \<Rightarrow> init_by_array urandom)"

definition twist_at :: "nat \<Rightarrow> mt_word list \<Rightarrow> mt_word list" where
  "twist_at k ws =
     (let y = (ws ! k AND 2147483648) OR (ws ! (Suc k mod mt_size) AND 2147483647)
      in ws[k := ws ! ((k + 397) mod mt_size) XOR drop_bit 1 y XOR (if bit y 0 then 2567483615 else 0)])"

definition temper :: "mt_word \<Rightarrow> mt_word" where
  "temper w =
     (let y = w XOR drop_bit 11 w;
          y = y XOR (push_bit 7 y AND 2636928640);
          y = y XOR (push_bit 15 y AND 4022730752)
      in y XOR drop_bit 18 y)"

definition genrand_uint32 :: "mt \<Rightarrow> mt_word \<times> mt" where
  "genrand_uint32 g =
     (let g = (if mt_size \<le> mt_index g then \<lparr>mt_state = fold twist_at [0..<mt_size] (mt_state g), mt_index = 0\<rparr> else g)
      in (temper (mt_state g ! mt_index g), g\<lparr>mt_index := Suc (mt_index g)\<rparr>))"

text \<open>\<^verbatim>\<open>Random.random\<close>: 27 and 26 bits of two words.\<close>

definition random_random :: "mt \<Rightarrow> pyfloat \<times> mt" where
  "random_random g =
     (let (a, g1) = genrand_uint32 g; (b, g2) = genrand_uint32 g1
      in (of_nat (unat (drop_bit 5 a) * 67108864 + unat (drop_bit 6 b)) / 9007199254740992, g2))"

text \<open>\<^verbatim>\<open>Random.getrandbits(k)\<close> for positive \<open>k\<close>: whole words first, the rest from the top bits of the last.\<close>

fun getrandbits :: "nat \<Rightarrow> mt \<Rightarrow> nat \<times> mt" where
  "getrandbits k g =
     (let (w, g1) = genrand_uint32 g
      in if k \<le> 32 then (unat (drop_bit (32 - k) w), g1)
         else (let (r, g2) = getrandbits (k - 32) g1 in (unat w + 2 ^ 32 * r, g2)))"

declare getrandbits.simps [simp del]

text \<open>
  \<^verbatim>\<open>Random._randbelow(n)\<close>: draw until the value is below \<open>n\<close>. \<open>None\<close> is a draw that never ends.
\<close>

partial_function (option) randbelow :: "nat \<Rightarrow> mt \<Rightarrow> (nat \<times> mt) option" where
  "randbelow n g =
     (let (r, g') = getrandbits (bit_len n) g
      in if n \<le> r then randbelow n g' else Some (r, g'))"

section \<open>SystemRNG\<close>

definition new_system_rng :: "mt_word list \<Rightarrow> int option \<Rightarrow> mt" where
  "new_system_rng urandom seed = random_Random urandom seed"

definition sys_random :: "(mt, pyfloat) eff" where
  "sys_random = (\<lambda>g. let (x, g') = random_random g in (Inr x, g'))"

text \<open>\<^verbatim>\<open>self._r.randint(a, b)\<close>, that is \<^verbatim>\<open>randrange(a, b + 1)\<close>.\<close>

definition sys_randint :: "int \<Rightarrow> int \<Rightarrow> mt \<Rightarrow> ((pyexc + int) \<times> mt) option" where
  "sys_randint a b g =
     (if 0 < b + 1 - a
      then (case randbelow (nat (b + 1 - a)) g of
              None \<Rightarrow> None
            | Some (r, g') \<Rightarrow> Some (Inr (a + int r), g'))
      else Some (Inl (PyExc ValueError
             (lit ''empty range in randrange('' @ show_int a @ lit '', '' @ show_int (b + 1) @ lit '')'')), g))"

section \<open>ReplayRNG\<close>

datatype rng_value = RFloat pyfloat | RInt int

text \<open>\<^verbatim>\<open>float(v)\<close>, which refuses an integer too large for a double, and \<^verbatim>\<open>int(v)\<close>, which truncates towards zero.\<close>

fun rng_float :: "rng_value \<Rightarrow> pyexc + pyfloat" where
  "rng_float (RFloat x) = Inr x"
| "rng_float (RInt i) =
     (if \<bar>fl_of_int i\<bar> < 2 ^ 1024 then Inr (fl_of_int i)
      else Inl (PyExc (OtherError (lit ''OverflowError'')) (lit ''int too large to convert to float'')))"

fun rng_int :: "rng_value \<Rightarrow> int" where
  "rng_int (RFloat x) = (if 0 \<le> x then \<lfloor>x\<rfloor> else \<lceil>x\<rceil>)"
| "rng_int (RInt i) = i"

record replay_rng =
  rng_values :: "rng_value list"
  rng_pos :: nat

definition new_replay_rng :: "rng_value list \<Rightarrow> replay_rng" where
  "new_replay_rng vs = \<lparr>rng_values = vs, rng_pos = 0\<rparr>"

definition rng_next :: "(replay_rng, rng_value) eff" where
  "rng_next = (\<lambda>r. if rng_pos r < length (rng_values r)
      then (Inr (rng_values r ! rng_pos r), r\<lparr>rng_pos := Suc (rng_pos r)\<rparr>)
      else (Inl (PyExc RuntimeError (lit ''ReplayRNG exhausted'')), r))"

definition rng_random :: "(replay_rng, pyfloat) eff" where
  "rng_random = bindE rng_next (\<lambda>v. of_sum (rng_float v))"

definition rng_randint :: "int \<Rightarrow> int \<Rightarrow> (replay_rng, int) eff" where
  "rng_randint a b = bindE rng_next (\<lambda>v. ret (rng_int v))"

section \<open>Ranges\<close>

lemma unat_drop_bit_less:
  fixes w :: mt_word
  assumes "n \<le> 32"
  shows "unat (drop_bit n w) < 2 ^ (32 - n)"
proof -
  have "unat w < 2 ^ (32 - n) * 2 ^ n"
    using unsigned_less [of w, where ?'a = nat] assms by (simp flip: power_add)
  then have "unat w div 2 ^ n < 2 ^ (32 - n)" by (rule less_mult_imp_div_less)
  then show ?thesis by (simp only: unat_drop_bit_eq drop_bit_nat_eq) (simp add: drop_bit_eq_div)
qed

lemma random_random_range:
  assumes "random_random g = (x, g')"
  shows "0 \<le> x \<and> x < 1"
proof -
  obtain a g1 b g2 where "genrand_uint32 g = (a, g1)" "genrand_uint32 g1 = (b, g2)" by fastforce
  with assms have x: "x = of_nat (unat (drop_bit 5 a) * 67108864 + unat (drop_bit 6 b)) / 9007199254740992"
    by (simp add: random_random_def)
  have "unat (drop_bit 5 a) < 134217728" "unat (drop_bit 6 b) < 67108864"
    using unat_drop_bit_less [of 5 a] unat_drop_bit_less [of 6 b] by simp_all
  then have "unat (drop_bit 5 a) * 67108864 + unat (drop_bit 6 b) < 9007199254740992" by linarith
  with x obtain n :: nat where "x = of_nat n / 9007199254740992" "n < 9007199254740992" by blast
  then show ?thesis by simp
qed

lemma randbelow_range: "randbelow n g = Some y \<Longrightarrow> fst y < n"
  by (rule randbelow.raw_induct [of "\<lambda>n g y. fst y < n" n g y])
    (auto simp: Let_def split: prod.splits if_splits)

lemma sys_randint_range: "sys_randint a b g = Some (Inr n, g') \<Longrightarrow> a \<le> n \<and> n \<le> b"
  by (auto simp: sys_randint_def split: if_splits option.splits dest!: randbelow_range)

section \<open>Recording and replaying draws\<close>

text \<open>The two operations of the \<^verbatim>\<open>RNG\<close> protocol as requests.\<close>

datatype draw = Random | Randint int int

fun sys_draw :: "draw \<Rightarrow> mt \<Rightarrow> ((pyexc + rng_value) \<times> mt) option" where
  "sys_draw Random g = Some (apfst (map_sum id RFloat) (sys_random g))"
| "sys_draw (Randint a b) g = map_option (apfst (map_sum id RInt)) (sys_randint a b g)"

text \<open>The values a sequence of draws returned, with the generator after it.\<close>

fun record_draws :: "draw list \<Rightarrow> mt \<Rightarrow> (rng_value list \<times> mt) option" where
  "record_draws [] g = Some ([], g)"
| "record_draws (d # ds) g =
     (case sys_draw d g of
        Some (Inr v, g') \<Rightarrow> map_option (apfst ((#) v)) (record_draws ds g')
      | _ \<Rightarrow> None)"

fun replay_draw :: "draw \<Rightarrow> (replay_rng, rng_value) eff" where
  "replay_draw Random = bindE rng_random (\<lambda>x. ret (RFloat x))"
| "replay_draw (Randint a b) = bindE (rng_randint a b) (\<lambda>n. ret (RInt n))"

fun in_range :: "draw \<Rightarrow> rng_value \<Rightarrow> bool" where
  "in_range Random (RFloat x) = (0 \<le> x \<and> x < 1)"
| "in_range (Randint a b) (RInt n) = (a \<le> n \<and> n \<le> b)"
| "in_range _ _ = False"

lemma sys_draw_range: "sys_draw d g = Some (Inr v, g') \<Longrightarrow> in_range d v"
proof (cases d)
  case Random
  assume "sys_draw d g = Some (Inr v, g')"
  with Random show ?thesis
    by (auto simp: sys_random_def split: prod.splits dest: random_random_range)
next
  case (Randint a b)
  assume "sys_draw d g = Some (Inr v, g')"
  with Randint obtain r where "sys_randint a b g = Some (r, g')" "map_sum id RInt r = Inr v" by auto
  with Randint show ?thesis by (cases r) (auto dest: sys_randint_range)
qed

lemma replay_draw_step:
  assumes "in_range d v" "i < length vs" "vs ! i = v"
  shows "replay_draw d \<lparr>rng_values = vs, rng_pos = i\<rparr> = (Inr v, \<lparr>rng_values = vs, rng_pos = Suc i\<rparr>)"
  using assms by (cases d; cases v) (simp_all add: rng_random_def rng_randint_def rng_next_def eff_defs)

lemma mapE_append:
  "mapE f (xs @ ys) = bindE (mapE f xs) (\<lambda>us. bindE (mapE f ys) (\<lambda>vs. ret (us @ vs)))"
  by (induction xs) (auto simp: bindE_assoc fun_eq_iff, auto simp: bindE_def ret_def split: prod.splits sum.splits)

lemma replay_draws_from:
  assumes "list_all2 in_range ds vs"
  shows "mapE replay_draw ds \<lparr>rng_values = us @ vs, rng_pos = length us\<rparr> =
    (Inr vs, \<lparr>rng_values = us @ vs, rng_pos = length us + length vs\<rparr>)"
  using assms
proof (induction arbitrary: us rule: list_all2_induct)
  case (Cons d ds v vs)
  have "replay_draw d \<lparr>rng_values = us @ v # vs, rng_pos = length us\<rparr> =
      (Inr v, \<lparr>rng_values = us @ v # vs, rng_pos = Suc (length us)\<rparr>)"
    by (rule replay_draw_step [OF Cons.hyps(1)]) simp_all
  with Cons.IH [of "us @ [v]"] show ?case by (simp add: bindE_def ret_def)
qed (simp add: ret_def)

lemma record_draws_range:
  "record_draws ds g = Some (vs, g') \<Longrightarrow> list_all2 in_range ds vs"
proof (induction ds arbitrary: g vs)
  case (Cons d ds)
  then obtain v g1 ws where "sys_draw d g = Some (Inr v, g1)" "record_draws ds g1 = Some (ws, g')" "vs = v # ws"
    by (auto split: option.splits sum.splits)
  with Cons.IH sys_draw_range show ?case by fastforce
qed simp

text \<open>
  C38: a recorded sequence of draws replays. The values a \<^verbatim>\<open>SystemRNG\<close> in any state returned for any
  sequence of \<^verbatim>\<open>random\<close> and \<^verbatim>\<open>randint\<close> calls lie in the requested ranges, a \<^verbatim>\<open>ReplayRNG\<close> on them answers the same
  calls with the same values, and the first call past the recording raises \<^verbatim>\<open>RuntimeError\<close>.
\<close>

theorem recorded_draws_replay:
  assumes "record_draws ds g = Some (vs, g')"
  shows "list_all2 in_range ds vs
    \<and> mapE replay_draw ds (new_replay_rng vs) = (Inr vs, \<lparr>rng_values = vs, rng_pos = length vs\<rparr>)
    \<and> mapE replay_draw (ds @ [d]) (new_replay_rng vs) =
        (Inl (PyExc RuntimeError (lit ''ReplayRNG exhausted'')), \<lparr>rng_values = vs, rng_pos = length vs\<rparr>)"
proof -
  have r: "list_all2 in_range ds vs" using assms by (rule record_draws_range)
  then have m: "mapE replay_draw ds (new_replay_rng vs) = (Inr vs, \<lparr>rng_values = vs, rng_pos = length vs\<rparr>)"
    using replay_draws_from [of ds vs "[]"] by (simp add: new_replay_rng_def)
  have "replay_draw d \<lparr>rng_values = vs, rng_pos = length vs\<rparr> =
      (Inl (PyExc RuntimeError (lit ''ReplayRNG exhausted'')), \<lparr>rng_values = vs, rng_pos = length vs\<rparr>)"
    by (cases d) (simp_all add: rng_random_def rng_randint_def rng_next_def bindE_def)
  with m have "mapE replay_draw (ds @ [d]) (new_replay_rng vs) =
        (Inl (PyExc RuntimeError (lit ''ReplayRNG exhausted'')), \<lparr>rng_values = vs, rng_pos = length vs\<rparr>)"
    by (simp add: mapE_append bindE_def)
  with r m show ?thesis by simp
qed

definition sample_mt :: mt where
  "sample_mt = \<lparr>mt_state = replicate mt_size 5, mt_index = 0\<rparr>"

lemma temper_5: "temper 5 = 21103317"
  by (simp add: temper_def Let_def)

lemma sample_word: "i < mt_size \<Longrightarrow>
  genrand_uint32 (sample_mt\<lparr>mt_index := i\<rparr>) = (21103317, sample_mt\<lparr>mt_index := Suc i\<rparr>)"
  by (simp add: genrand_uint32_def sample_mt_def temper_5)

lemma sample_draws:
  "record_draws [Random, Randint 1 6] sample_mt =
     Some ([RFloat (44256819742731 / 9007199254740992), RInt 1], sample_mt\<lparr>mt_index := 3\<rparr>)"
proof -
  have w: "genrand_uint32 sample_mt = (21103317, sample_mt\<lparr>mt_index := Suc 0\<rparr>)"
    using sample_word [of 0] by (simp add: mt_size_def sample_mt_def)
  have w2: "genrand_uint32 (sample_mt\<lparr>mt_index := Suc 0\<rparr>) = (21103317, sample_mt\<lparr>mt_index := 2\<rparr>)"
    using sample_word [of 1] by (simp add: mt_size_def numeral_2_eq_2)
  have "random_random sample_mt = (44256819742731 / 9007199254740992, sample_mt\<lparr>mt_index := 2\<rparr>)"
    by (simp add: random_random_def w w2)
  moreover have "bit_len 6 = 3" by (simp add: bit_len.simps)
  then have "getrandbits (bit_len 6) (sample_mt\<lparr>mt_index := 2\<rparr>) = (0, sample_mt\<lparr>mt_index := 3\<rparr>)"
    using sample_word [of 2] by (simp add: getrandbits.simps mt_size_def numeral_3_eq_3)
  then have "sys_randint 1 6 (sample_mt\<lparr>mt_index := 2\<rparr>) = Some (Inr 1, sample_mt\<lparr>mt_index := 3\<rparr>)"
    by (simp add: sys_randint_def randbelow.simps)
  ultimately show ?thesis by (simp add: sys_random_def)
qed

theorem recorded_draws_replay_witness:
  "let vs = [RFloat (44256819742731 / 9007199254740992), RInt 1]; ds = [Random, Randint 1 6]
   in list_all2 in_range ds vs
    \<and> mapE replay_draw ds (new_replay_rng vs) = (Inr vs, \<lparr>rng_values = vs, rng_pos = 2\<rparr>)"
  using recorded_draws_replay [OF sample_draws, of Random] by (auto simp: Let_def numeral_2_eq_2)

end
