(* ===== verification/Confinement.thy ===== *)
theory Confinement
  imports LoopTrace
begin

text \<open>
  Confinement of a whole run: a run touches the file system only through its tools, so what each of
  its tools keeps of the file system, the run keeps; a run without the bash tool stays inside its
  workspace.
\<close>

section \<open>Invariants of the file system\<close>

text \<open>\<open>P\<close> depends on the file system only, and every tool of the run keeps it.\<close>

locale fs_invariant =
  fixes env :: "'e llm_env_scheme"
    and tools :: "tool list"
    and P :: "'z loop_st_scheme \<Rightarrow> bool"
  assumes tool_keeps: "tool \<in> set tools \<Longrightarrow> preserves P (run_tool env tool args)"
    and fs_only: "P s \<Longrightarrow> tfs t = tfs s \<Longrightarrow> P t"
begin

lemma same_fs: "keeps (\<lambda>s t. tfs t = tfs s) m \<Longrightarrow> preserves P m"
  by (rule preservesI) (auto dest: keepsD intro: fs_only)

lemma emit_held: "preserves P (emit env ty data)"
  by (rule same_fs) (auto intro!: keepsI dest!: emit_spec(1) emit_frame_tool)

lemma clock_held: "preserves P (monotonic_ns env)" "preserves P (os_read f)"
  by (rule same_fs, auto intro!: keepsI dest!: monotonic_ns_frame os_read_frame)+

lemma complete_held: "preserves P (complete env system messages ts params)"
  by (rule same_fs) (auto intro!: keepsI dest!: llm.ask_frame)

lemma locals_held:
  "preserves P (push_message m)" "preserves P (modify (add_usage rc resp))"
  "preserves P (modify (\<lambda>s. s\<lparr>l_step := l_step s + 1\<rparr>))" "preserves P (modify (l_outcome_update f))"
  "preserves P (modify (init_locals rc))" "preserves P (set_step n)"
  by (rule same_fs, auto intro!: keeps_modify simp: push_message_def add_usage_def init_locals_def set_step_def)+

lemmas held_intros = preserves_intros emit_held clock_held complete_held locals_held

lemma run_one_tool_held: "preserves P (run_one_tool env (tool_map tools) tu)"
proof -
  have "preserves P (run_tool env t args)" if "tool_map tools name = Some t" for t name args
    using that by (intro tool_keeps) (auto simp: tool_map_def dest!: map_of_SomeD)
  then show ?thesis
    unfolding run_one_tool_def by (auto intro!: held_intros split: option.splits sum.splits)
qed

lemma loop_body_held:
  assumes "rc_tools rc = tools"
  shows "preserves P (loop_body env rc)"
  unfolding loop_body_def call_llm_def end_step_def assms by (intro held_intros run_one_tool_held)

lemma run_held:
  assumes "rc_tools (run_config spec rt) = tools"
  shows "preserves P (run env spec rt)"
proof -
  have "preserves P (while_loop env (run_config spec rt))"
    by (rule while_preserves [OF loop_body_held [OF assms]]) (erule fs_only, simp)
  then show ?thesis unfolding run_def Let_def guarded_loop_def by (intro held_intros)
qed

end

section \<open>Staying in the workspace\<close>

text \<open>The workspace is a sandbox in which no path argument runs into a link loop, and the rest is as in \<open>fs0\<close>.\<close>

definition enclosed :: "'e tool_env_scheme \<Rightarrow> purepath \<Rightarrow> path \<Rightarrow> fsys \<Rightarrow> fsys \<Rightarrow> bool" where
  "enclosed env w ws fs0 fs \<longleftrightarrow>
     (let ctx = \<lparr>workspace = w, timeout_seconds = 0\<rparr>
      in sandboxed env ctx ws fs \<and> (\<forall>a. loop_free env ctx fs a) \<and>
         (\<forall>q. \<not> prefix ws q \<longrightarrow> fmlookup fs q = fmlookup fs0 q))"

lemma enclosed_ctx:
  "enclosed env (workspace ctx) ws fs0 fs \<longleftrightarrow>
     sandboxed env ctx ws fs \<and> (\<forall>a. loop_free env ctx fs a) \<and>
     (\<forall>q. \<not> prefix ws q \<longrightarrow> fmlookup fs q = fmlookup fs0 q)"
  by (simp add: enclosed_def sandboxed_def loop_free_def joined_def)

lemma enclosed_kept:
  assumes "workspace_tool env ctx impl" "enclosed env (workspace ctx) ws fs0 (tfs s)" "impl args s = (y, t)"
  shows "enclosed env (workspace ctx) ws fs0 (tfs t)"
proof -
  have s: "sandboxed env ctx ws (tfs s)" "\<And>a. loop_free env ctx (tfs s) a"
    using assms(2) by (simp_all add: enclosed_ctx)
  note k = workspace_tool.stays_sandboxed [OF assms(1) s(1) s(2) assms(3)]
  have "loop_free env ctx (tfs t) a" for a
    using s(2) [of a] k realpath_links [of "tfs t" "tfs s"] by (simp add: loop_free_def)
  moreover have "fmlookup (tfs t) q = fmlookup fs0 q" if "\<not> prefix ws q" for q
    using workspace_tool.confined [OF assms(1) s(1) s(2) assms(3) that] assms(2) that by (simp add: enclosed_ctx)
  ultimately show ?thesis using k by (simp add: enclosed_ctx)
qed

lemma class_run_enclosed:
  assumes "cls \<noteq> BashTool" "enclosed env (workspace ctx) ws fs0 (tfs s)" "class_run env cls ctx args s = (y, t)"
  shows "enclosed env (workspace ctx) ws fs0 (tfs t)"
proof (cases cls)
  case FileReadTool
  with assms(2,3) enclosed_kept [OF file_read_ws.workspace_tool_axioms] show ?thesis by simp
next
  case FileWriteTool
  with assms(2,3) enclosed_kept [OF file_write_ws.workspace_tool_axioms] show ?thesis by simp
next
  case FileEditTool
  with assms(2,3) enclosed_kept [OF file_edit_ws.workspace_tool_axioms] show ?thesis by simp
next
  case WebSearchTool
  with assms show ?thesis by (simp add: web_search_run_def ret_def)
qed (use assms(1) in simp)

lemma run_tool_enclosed:
  assumes "tool_cls t \<noteq> BashTool" "workspace (tool_context t) = w"
  shows "preserves (\<lambda>s. enclosed env w ws fs0 (tfs s)) (run_tool env t args)"
  unfolding run_tool_def tool_run_def
  by (intro preserves_bind preserves_stateless)
    (rule preservesI, use assms class_run_enclosed in blast)

lemma build_tools_no_bash:
  assumes "list_all (\<lambda>ts. ts_name ts \<noteq> lit ''bash'') specs" "t \<in> set (build_tools specs f)"
  shows "tool_cls t \<noteq> BashTool \<and> (\<exists>n. tool_context t = f n)"
  using assms
proof (induction specs)
  case (Cons spec specs)
  have "map_of registry (ts_name spec) \<noteq> Some BashTool"
    using Cons.prems(1) by (auto simp: registry_def dest!: map_of_SomeD simp del: lit_Cons)
  with Cons show ?case by (auto split: option.splits)
qed simp

text \<open>The tools of a run that work on its workspace, the bash tool apart.\<close>

definition file_tools :: "purepath \<Rightarrow> tool list \<Rightarrow> tool list" where
  "file_tools w tools = filter (\<lambda>t. tool_cls t \<noteq> BashTool \<and> workspace (tool_context t) = w) tools"

interpretation enclosure: fs_invariant env "file_tools w tools" "\<lambda>s :: 'z loop_st_scheme. enclosed env w ws fs0 (tfs s)"
  for env :: "'e llm_env_scheme" and w tools ws fs0
  by unfold_locales (auto simp: file_tools_def intro!: run_tool_enclosed)

lemma file_tools_all:
  assumes "list_all (\<lambda>ts. ts_name ts \<noteq> lit ''bash'') (spec_tools spec)"
  shows "rc_tools (run_config spec rt) = file_tools (rt_workspace rt) (rc_tools (run_config spec rt))"
proof -
  have "tool_cls t \<noteq> BashTool \<and> workspace (tool_context t) = rt_workspace rt"
    if "t \<in> set (rc_tools (run_config spec rt))" for t
    using build_tools_no_bash [OF assms, of t "ctx_factory rt"] that
    by (auto simp: run_config_def ctx_factory_def)
  then show ?thesis unfolding file_tools_def by (intro filter_True [symmetric] ballI)
qed

lemma run_stays:
  fixes s t :: "'z loop_st_scheme"
  assumes "list_all (\<lambda>ts. ts_name ts \<noteq> lit ''bash'') (spec_tools spec)"
    "sandboxed env (ctx_factory rt 0) ws (tfs s)" "\<And>a. loop_free env (ctx_factory rt 0) (tfs s) a"
    "run env spec rt s = (y, t)" "\<not> prefix ws q"
  shows "fmlookup (tfs t) q = fmlookup (tfs s) q"
proof -
  have "enclosed env (rt_workspace rt) ws (tfs s) (tfs s)"
    using enclosed_ctx [of env "ctx_factory rt 0" ws "tfs s" "tfs s"] assms(2,3) by (auto simp: ctx_factory_def)
  from preservesD [OF enclosure.run_held [OF file_tools_all [OF assms(1)]] this assms(4)] assms(5)
  show ?thesis by (simp add: enclosed_def Let_def)
qed

text \<open>
  C7: a run whose task does not list the bash tool stays in its workspace: whatever the model asks for,
  however long the run is and however it ends, nothing outside the resolved workspace is created,
  changed or removed.
\<close>

theorem run_confined:
  fixes s t :: "'z loop_st_scheme"
  assumes "list_all (\<lambda>ts. ts_name ts \<noteq> lit ''bash'') (spec_tools spec)"
    "sandboxed env (ctx_factory rt 0) ws (tfs s)" "\<And>a. loop_free env (ctx_factory rt 0) (tfs s) a"
    "run env spec rt s = (y, t)" "\<not> prefix ws q"
  shows "fmlookup (tfs t) q = fmlookup (tfs s) q"
  using assms by (rule run_stays)

section \<open>A file system without links\<close>

lemma realpath_no_links:
  assumes "\<And>q. link_at fs q = None" "realpath_loop fs path w seen = Inr (p, ok)"
  shows "ok"
  using assms(2)
proof (induction w arbitrary: path seen)
  case (Cons x w)
  show ?case
  proof (cases x)
    case (Part n)
    with Cons.prems have "realpath_loop fs path (Part n # w) seen = Inr (p, ok)" by simp
    then show ?thesis
      unfolding realpath_loop_Part assms(1) using Cons.IH by (auto split: if_splits option.splits)
  next
    case (LinkDone l)
    with Cons show ?thesis by auto
  qed
qed simp

lemma no_links_loop_free: "(\<And>q. link_at fs q = None) \<Longrightarrow> loop_free env ctx fs a"
  using realpath_no_links unfolding loop_free_def realpath_def by (fastforce split: sum.splits prod.splits bool.splits)

definition plain_tree :: "(path \<times> node) list" where
  "plain_tree = [([], DirN), ([lit ''w''], DirN), ([lit ''e''], DirN), ([lit ''e'', lit ''x''], FileN (lit ''old''))]"

lemma plain_links: "link_at (fmap_of_list plain_tree) q = None"
proof (cases "map_of plain_tree q")
  case (Some v)
  then have "(q, v) \<in> set plain_tree" by (rule map_of_SomeD)
  then have "v = DirN \<or> (\<exists>b. v = FileN b)" by (auto simp: plain_tree_def)
  with Some show ?thesis by (auto simp: link_at_def fmlookup_of_list)
qed (simp add: link_at_def fmlookup_of_list)

theorem run_confined_witness:
  "let s = (sample_loop_st EchoClient)\<lparr>tfs := fmap_of_list plain_tree\<rparr>;
       spec = (sample_task 3)\<lparr>spec_tools := [\<lparr>ts_name = lit ''file_write'', ts_timeout_seconds = None\<rparr>]\<rparr>
   in fmlookup (tfs (snd (run sample_llm_env spec sample_rt s))) [lit ''e'', lit ''x''] = Some (FileN (lit ''old''))"
proof -
  define s where "s = (sample_loop_st EchoClient)\<lparr>tfs := fmap_of_list plain_tree\<rparr>"
  define spec where "spec = (sample_task 3)\<lparr>spec_tools := [\<lparr>ts_name = lit ''file_write'', ts_timeout_seconds = None\<rparr>]\<rparr>"
  have fs: "tfs s = fmap_of_list plain_tree" by (simp add: s_def)
  have "list_all (\<lambda>ts. ts_name ts \<noteq> lit ''bash'') (spec_tools spec)" by (simp add: spec_def)
  moreover have "sandboxed sample_llm_env (ctx_factory sample_rt 0) [lit ''w''] (tfs s)"
  proof -
    have wf: "wf_fs (fmap_of_list plain_tree)" by (rule wf_tree_fs) code_simp
    have "realpath (fmap_of_list plain_tree) [] (pure_path (lit ''/w'')) = Inr ([lit ''w''], True)"
      "fmlookup (fmap_of_list plain_tree) [lit ''w''] = Some DirN" by code_simp+
    moreover have "cwd sample_llm_env = []" by (simp add: sample_llm_env_def sample_env_def tool_env.defs llm_env.defs)
    ultimately show ?thesis
      using wf by (simp add: sandboxed_def fs ctx_factory_def sample_rt_def canonical_root del: lit_Cons)
  qed
  moreover have "loop_free sample_llm_env (ctx_factory sample_rt 0) (tfs s) a" for a
    unfolding fs by (rule no_links_loop_free) (rule plain_links)
  moreover have "\<not> prefix [lit ''w''] [lit ''e'', lit ''x'']" by code_simp
  ultimately have "fmlookup (tfs (snd (run sample_llm_env spec sample_rt s))) [lit ''e'', lit ''x'']
      = fmlookup (tfs s) [lit ''e'', lit ''x'']"
    by (rule run_confined [OF _ _ _ prod.collapse [symmetric]])
  moreover have "fmlookup (fmap_of_list plain_tree) [lit ''e'', lit ''x''] = Some (FileN (lit ''old''))" by code_simp
  ultimately show ?thesis by (simp only: Let_def s_def [symmetric] spec_def [symmetric] fs)
qed

end
