(* ===== verification/TraceFile.thy ===== *)
theory TraceFile
  imports EntryProps Confinement
begin

text \<open>
  The trace file of a program run. What the writer puts into the file is its \<open>ew_file\<close>; what the tools do to the
  same path shows in their file system, where the file is empty when it has been opened. A task without the bash
  tool cannot reach a trace file outside its workspace, so that the file then holds what the writer has put there
  and nothing else.
\<close>

section \<open>The file system the run starts in\<close>

lemma opened_links:
  assumes "opened p fs fs'" "canonical fs p"
  shows "link_at fs' = link_at fs"
proof
  fix q
  show "link_at fs' q = link_at fs q"
  proof (cases "q = p")
    case True
    have "link_at fs p = None"
    proof (rule ccontr)
      assume "link_at fs p \<noteq> None"
      then obtain l where "fmlookup fs p = Some (LinkN l)" by (auto simp: link_at_Some)
      with assms(2) show False by (auto simp: canonical_def)
    qed
    with True assms(1) show ?thesis by (simp add: opened_def link_at_def)
  next
    case False
    with assms(1) have "fmlookup fs' q = fmlookup fs q \<or> fmlookup fs q = None \<and> fmlookup fs' q = Some DirN"
      by (simp add: opened_def)
    then show ?thesis by (auto simp: link_at_def)
  qed
qed

lemma opened_sandboxed:
  assumes "opened p fs fs'" "canonical fs p" "sandboxed env ctx ws fs" "\<not> prefix ws p"
  shows "sandboxed env ctx ws fs'"
proof -
  note l = opened_links [OF assms(1,2)]
  have "ws \<noteq> p" using assms(4) by auto
  then have "fmlookup fs' ws = Some DirN" using assms(1,3) by (auto simp: opened_def sandboxed_def)
  then show ?thesis
    using assms(1,3) canonical_links [OF _ l] realpath_links [OF l] by (simp add: sandboxed_def opened_def)
qed

lemma opened_loop_free:
  assumes "opened p fs fs'" "canonical fs p" "loop_free env ctx fs a"
  shows "loop_free env ctx fs' a"
  using assms(3) by (simp add: loop_free_def realpath_links [OF opened_links [OF assms(1,2)]])

lemma close_tfs:
  assumes "close env (s :: 'z tool_st_scheme) = (y, t)"
  shows "tfs t = tfs s"
proof -
  have "writer_st.more t = writer_st.more s" using assms by (rule close_frame(4))
  then show ?thesis by (cases s; cases t) simp
qed

section \<open>One run per trace file\<close>

text \<open>
  C23: a program that exited with 0 leaves one run in its trace file, whatever the file held before. If the task it
  loaded does not list the bash tool, the workspace is a sandbox without link loops, the trace file is no link and
  lies outside the workspace, and no failed write has left part of a line behind, then what was written through the
  open file are exactly the lines of the events of this run, no tool has changed the file beside that (in the tools' file system it
  is still the empty file that was opened), every event carries the task id, the events follow the protocol from
  task_start to agent_done, and the writer is closed.
\<close>

theorem main_leaves_one_run:
  fixes s t :: "'z loop_st_scheme"
  assumes "main env argv s = (Inr (Returned 0), t)" "parse_args (default_args (environ env)) argv = Inr args"
    "wf_fs (tfs s)" "canonical (tfs s) (events_path env args)"
    "fst (load_task env (safe_load env) (model_validate env) (at_path env (pure_path (ns_task args))) s) = Inr spec"
    "list_all (\<lambda>ts. ts_name ts \<noteq> lit ''bash'') (spec_tools spec)"
    "sandboxed env (ctx_factory (main_rt args) 0) ws (tfs s)" "\<And>a. loop_free env (ctx_factory (main_rt args) 0) (tfs s) a"
    "\<not> prefix ws (events_path env args)" "ew_torn t = None"
  shows "ew_file t = event_lines env (ew_log t) \<and> fmlookup (tfs t) (events_path env args) = Some (FileN []) \<and>
    list_all (\<lambda>e. e_task_id e = ns_task_id args) (ew_log t) \<and> trace_path Start (ew_log t) Done \<and> ew_closed t"
proof -
  let ?p = "events_path env args"
  obtain d and u v :: "'z loop_st_scheme" where u: "run env spec (main_rt args) u = (Inr d, v)" "fresh u"
    "ew_task_id u = ns_task_id args" "opened ?p (tfs s) (tfs u)" "close env v = (Inr (), t)"
    using main_ran [OF assms(1-4)] assms(5) by (metis sum.inject(2))
  have "fmlookup (tfs v) ?p = fmlookup (tfs u) ?p"
    by (rule run_stays [OF assms(6) opened_sandboxed [OF u(4) assms(4,7,9)]
          opened_loop_free [OF u(4) assms(4,8)] u(1) assms(9)])
  then have "fmlookup (tfs t) ?p = Some (FileN [])" using u(4) close_tfs [OF u(5)] by (simp add: opened_def)
  with main_one_run(1-3) [OF u(1,2,5)] main_one_run(4) [OF u(1,2,5) assms(10)] u(3) show ?thesis by simp
qed

section \<open>A program whose workspace and trace are apart\<close>

text \<open>The task file is \<^verbatim>\<open>/e/x\<close>, the workspace \<^verbatim>\<open>/w\<close>, the trace goes to \<^verbatim>\<open>/t\<close>; there are no links.\<close>

definition plain_argv :: "pystr list" where
  "plain_argv = map lit [''--task'', ''/e/x'', ''--workspace'', ''/w'', ''--trace-dir=/t'', ''--provider'', ''mock'']"

definition plain_args :: namespace where
  "plain_args = \<lparr>ns_task = lit ''/e/x'', ns_trace_dir = lit ''/t'', ns_workspace = lit ''/w'',
     ns_task_id = lit ''t'', ns_provider = Some (lit ''mock''), ns_echo_events = False\<rparr>"

definition plain_st :: loop_st where
  "plain_st = (sample_loop_st EchoClient)\<lparr>tfs := fmap_of_list plain_tree\<rparr>"

lemma plain_tfs: "tfs plain_st = fmap_of_list plain_tree"
  by (simp add: plain_st_def)

lemma plain_parse: "parse_args (default_args (environ sample_main_env)) plain_argv = Inr plain_args"
  unfolding sample_main_simps by code_simp

lemma plain_paths:
  "at_path sample_main_env (pure_path (ns_task plain_args)) = [lit ''e'', lit ''x'']"
  "at_path sample_main_env (pure_path (ns_workspace plain_args)) = [lit ''w'']"
  "events_path sample_main_env plain_args = [lit ''t'', lit ''events.jsonl'']"
proof -
  have "pure_path (lit ''/e/x'') = \<lparr>pp_root = 1, pp_parts = [lit ''e'', lit ''x'']\<rparr>"
    "pure_path (lit ''/w'') = \<lparr>pp_root = 1, pp_parts = [lit ''w'']\<rparr>"
    "pure_path (lit ''/t'') = \<lparr>pp_root = 1, pp_parts = [lit ''t'']\<rparr>" by code_simp+
  then show "at_path sample_main_env (pure_path (ns_task plain_args)) = [lit ''e'', lit ''x'']"
    "at_path sample_main_env (pure_path (ns_workspace plain_args)) = [lit ''w'']"
    "events_path sample_main_env plain_args = [lit ''t'', lit ''events.jsonl'']"
    by (simp_all add: at_path_def events_path_def plain_args_def sample_main_simps del: lit_Cons)
qed

lemma plain_layout: "layout_ok (tfs plain_st) [lit ''w''] [lit ''t'', lit ''events.jsonl'']"
proof -
  have wf: "wf_fs (fmap_of_list plain_tree)" by (rule wf_tree_fs) code_simp
  have l: "fmlookup (fmap_of_list plain_tree) [] = Some DirN" "fmlookup (fmap_of_list plain_tree) [lit ''w''] = Some DirN"
    "fmlookup (fmap_of_list plain_tree) [lit ''t''] = None"
    "fmlookup (fmap_of_list plain_tree) [lit ''t'', lit ''events.jsonl''] = None" by code_simp+
  have n: "list_all proper_name [lit ''w'', lit ''t'', lit ''events.jsonl'']" by code_simp
  have "\<not> prefix [lit ''t'', lit ''events.jsonl''] [lit ''w'']" by code_simp
  with wf l n show ?thesis
    unfolding plain_tfs by (auto simp: layout_ok_def canonical_def open_path_def prefix_Cons simp del: lit_Cons)
qed

lemma plain_loaded:
  "lookup_at (tfs plain_st) [lit ''e'', lit ''x''] = Some (FileN (lit ''old''))"
  "load_task sample_main_env (safe_load sample_main_env) (model_validate sample_main_env) [lit ''e'', lit ''x''] plain_st
     = (Inr (sample_task 3), plain_st)"
proof -
  have k: "kstat (fmap_of_list plain_tree) [lit ''e'', lit ''x''] = Found [lit ''e'', lit ''x'']"
    "fmlookup (fmap_of_list plain_tree) [lit ''e'', lit ''x''] = Some (FileN (lit ''old''))" by code_simp+
  then show l: "lookup_at (tfs plain_st) [lit ''e'', lit ''x''] = Some (FileN (lit ''old''))"
    by (simp add: plain_tfs lookup_at_def del: lit_Cons)
  have "utf8_decode (lit ''old'') = Inr (lit ''old'')" by code_simp
  with k show "load_task sample_main_env (safe_load sample_main_env) (model_validate sample_main_env) [lit ''e'', lit ''x'']
      plain_st = (Inr (sample_task 3), plain_st)"
    by (simp add: plain_tfs load_task_def read_text_def read_bytes_def kernel_ok_kcall [OF sample_main_ok(1)] bindE_def of_sum_def
        ret_def parse_task_def sample_main_simps dget_def del: lit_Cons split: option.splits)
qed

lemma plain_client:
  "make_client sample_main_env (task_provider plain_args (sample_task 3)) m k = Inr EchoClient"
  by (simp add: make_client_def task_provider_def plain_args_def str_or_def)

lemma plain_completes: "\<exists>t. main sample_main_env plain_argv plain_st = (Inr (Returned 0), t) \<and> ew_torn t = None"
proof -
  note l = plain_layout [folded plain_paths]
  obtain t where t: "run_task sample_main_env plain_args (sample_task 3) plain_st = (Inr (Returned 0), t)"
    using run_task_completes [OF sample_main_ok l sample_started(2) plain_client] by blast
  have "ew_torn t = None"
    using run_task_leaves [OF t _ _ sample_main_ok(2)] l by (auto simp: layout_ok_def)
  moreover have "main sample_main_env plain_argv plain_st = (Inr (Returned 0), t)"
    using main_reaches [OF sample_main_ok(1) sample_started(1) plain_parse plain_loaded [folded plain_paths]] t by simp
  ultimately show ?thesis by blast
qed

theorem main_leaves_one_run_witness:
  "\<exists>t. main sample_main_env plain_argv plain_st = (Inr (Returned 0), t) \<and>
     ew_file t = event_lines sample_main_env (ew_log t) \<and>
     fmlookup (tfs t) [lit ''t'', lit ''events.jsonl''] = Some (FileN []) \<and> trace_path Start (ew_log t) Done"
proof -
  obtain t where t: "main sample_main_env plain_argv plain_st = (Inr (Returned 0), t)" "ew_torn t = None"
    using plain_completes by blast
  have wf: "wf_fs (tfs plain_st)" "canonical (tfs plain_st) (events_path sample_main_env plain_args)"
    using plain_layout by (simp_all add: layout_ok_def plain_paths)
  have "realpath (fmap_of_list plain_tree) [] (pure_path (lit ''/w'')) = Inr ([lit ''w''], True)"
    "fmlookup (fmap_of_list plain_tree) [lit ''w''] = Some DirN" by code_simp+
  then have s: "sandboxed sample_main_env (ctx_factory (main_rt plain_args) 0) [lit ''w''] (tfs plain_st)"
    using wf(1) by (simp add: sandboxed_def plain_tfs ctx_factory_def main_rt_def plain_args_def canonical_root
        sample_main_simps del: lit_Cons)
  have p: "\<not> prefix [lit ''w''] (events_path sample_main_env plain_args)"
    unfolding plain_paths by code_simp
  have f: "loop_free sample_main_env (ctx_factory (main_rt plain_args) 0) (tfs plain_st) a" for a
    unfolding plain_tfs by (rule no_links_loop_free) (rule plain_links)
  have "list_all (\<lambda>ts. ts_name ts \<noteq> lit ''bash'') (spec_tools (sample_task 3))" by code_simp
  from main_leaves_one_run [OF t(1) plain_parse wf _ this s f p t(2)] plain_loaded(2) t(1)
  show ?thesis unfolding plain_paths by auto
qed

end
