(* ===== verification/Spec2Isabelle.thy ===== *)
theory Spec2Isabelle
  imports ControllerSamples Deployment Dialogue EventSchema Replay Rng TraceFile
begin

text \<open>
  A verification library for Agent-Anvil: the Python SDK (\<^verbatim>\<open>src/sdk/python/src/agent_anvil\<close>), the program
  that runs an LLM agent inside a pod (it reads a task, talks to a model, executes the tools the model
  asks for inside a workspace, and records everything in an append-only JSONL trace), and the Kubernetes
  operator that starts these pods (\<^verbatim>\<open>src/internal/controller\<close>).

  \<^bold>\<open>Parts of the program and how they interact.\<close> \<^verbatim>\<open>__main__.py\<close> parses the command line, loads the task
  (\<^verbatim>\<open>config.py\<close>), builds an LLM client (\<^verbatim>\<open>client/\<close>) and a trace writer (\<^verbatim>\<open>events.py\<close>, on a clock of
  \<^verbatim>\<open>deterministic.py\<close>) and calls \<^verbatim>\<open>loop.run\<close>. The loop asks the client for a reply, prices it
  (\<^verbatim>\<open>pricing.py\<close>), runs the tools of the reply (\<^verbatim>\<open>tools/\<close>) and emits an event for every step; file tools
  emit file_mutation events of their own. \<^verbatim>\<open>trace.py\<close> loads a trace back. The operator watches AgentTask objects:
  for each it makes a ConfigMap with the task file, a network policy and a pod, and follows the pod's phase
  in the status of the task; the pod runs \<^verbatim>\<open>__main__.py\<close> with the task file mounted.

  \<^bold>\<open>Effects.\<close> A Python function that may raise and that changes state is a function
  \<open>'s \<Rightarrow> (pyexc + 'a) \<times> 's\<close> (theory Prelude), so that the state at the time of an exception is kept, as the
  except branches of the loop need. Records extend each other along the call structure: \<open>clock_st\<close>,
  \<open>writer_st\<close>, \<open>tool_st\<close>, \<open>client_st\<close>, \<open>loop_st\<close>. A local variable of \<^verbatim>\<open>run\<close> that an exception handler
  reads is a field of \<open>loop_st\<close>. \<open>hoare\<close>, \<open>preserves\<close> and \<open>keeps\<close> are the triples and frame conditions the
  proofs compose. The Go code uses the same effects, with its error type in place of \<open>pyexc\<close>.

  \<^bold>\<open>Theories, from the bottom.\<close>
  \<^item> Prelude: strings and bytes as lists of code points and octets, exceptions, effects and their rules.
  \<^item> PyText, Utf8, PyFloat, PyJson, Sha256: what the code uses of the Python library: \<^verbatim>\<open>splitlines\<close>, \<^verbatim>\<open>split\<close>,
    \<^verbatim>\<open>strip\<close>, universal newlines; the UTF-8 codec with \<^verbatim>\<open>errors="replace"\<close>; doubles as rationals with
    rounding; \<^verbatim>\<open>json.dumps\<close> with sorted keys; SHA-256 on 32-bit words.
  \<^item> Clock and Rng (\<^verbatim>\<open>deterministic.py\<close>): clocks and time stamps; the random sources, with the Mersenne Twister,
    seeding and rejection sampling of \<^verbatim>\<open>random.Random\<close> (a draw that never ends is \<open>None\<close>).
  \<^item> Events and TraceInvariants (\<^verbatim>\<open>events.py\<close>): the writer, \<open>emit\<close>,
    \<open>read_events\<close>. A write may fail after part of it has reached the file (\<open>ew_file\<close>), and the stream may keep the rest
    in its buffer (\<open>ew_buf\<close>); \<open>ew_torn\<close> tells when that first happened, and \<open>whole\<close> are the events written before. The locale \<open>event_sink\<close> is the contract of emit, \<open>trace_invariant\<close> that of a property
    of the trace; the interpretations there give the round trip, the order of events and replay.
  \<^item> FileSys, FileSysLemmas: a tree of files, directories and links, the kernel's path walk,
    \<^verbatim>\<open>Path.resolve\<close>, \<^verbatim>\<open>mkdir(parents=True)\<close>, reading, writing (which truncates first and may then be cut short,
    \<open>write_fault\<close>), unlinking. \<^verbatim>\<open>resolve\<close> terminates because
    every link is entered once; the kernel walk follows at most 40 links, as Linux does.
  \<^item> ToolBase, Workspace, FileRead, FileWrite, FileEdit, ShellTools, Registry (\<^verbatim>\<open>tools/\<close>): the tools. The locale
    \<open>tool_impl\<close> says what a tool may do to the trace, \<open>workspace_tool\<close> what a file tool may do to the
    files; each is interpreted on every tool it fits. What an edit should do is stated in FileEdit over lists of lines
    (\<open>has_range\<close>, \<open>has_lines\<close>, \<open>text_of\<close>, \<open>shown_lines\<close>), apart from the code's own slicing.
  \<^item> Config, TaskSchema (\<^verbatim>\<open>config.py\<close>): the task as records, its pydantic classes as declarations, and the locale
    \<open>pydantic\<close> with what the library documents, interpreted on an executable validator. OperatorTask: the Go
    structs of \<^verbatim>\<open>api/v1/agenttask_types.go\<close> and the JSON value of their tags.
  \<^item> Pricing (\<^verbatim>\<open>pricing.py\<close>), Client (\<^verbatim>\<open>client/\<close>, with the locale \<open>llm_protocol\<close>).
  \<^item> Loop (\<^verbatim>\<open>loop.py\<close>): \<open>call_llm\<close>, \<open>run_one_tool\<close>, \<open>loop_body\<close>, \<open>while_loop\<close> (terminating, since each
    iteration that continues increments the step), \<open>guarded_loop\<close> (the try statement) and \<open>run\<close>.
  \<^item> LoopTrace, Protocol, EventSchema, RunProps, Dialogue, Confinement: what a run guarantees. \<open>loop_invariant\<close> lifts every
    trace invariant to runs, \<open>fs_invariant\<close> every invariant of the file system; Protocol states the event
    protocol of INTERFACES.md as a step relation \<open>trace_step\<close> and proves that runs follow it;
    EventSchema has the data fields of every event type.
  \<^item> Lockstep and Replay: two executions side by side (\<open>sim\<close>, with a rule per combinator), and that a run on the
    clock that replays a trace goes through the same events as the run that was recorded.
  \<^item> Trace (\<^verbatim>\<open>trace.py\<close>), CommandLine and EntryPoint (\<^verbatim>\<open>__main__.py\<close>), EntryProps (the program completes), TraceFile
    (what it leaves in its trace file).
  \<^item> PodBuilder (\<^verbatim>\<open>pod_builder.go\<close>, \<^verbatim>\<open>network_policy.go\<close>, the status types): the objects of the operator. Controller
    (\<^verbatim>\<open>agenttask_controller.go\<close>): \<open>reconcile\<close> and its helpers; the state is the history of API requests with
    their answers, and the server is an arbitrary function of it. ControllerProps: the requests of one
    reconciliation as the relations \<open>session\<close> and \<open>status_step\<close>, which \<open>reconcile\<close> refines, and the locale \<open>provision\<close>,
    the contract of the two helpers that make ConfigMap and policy; ControllerRuns: reachable histories;
    ControllerObjects: what the policies and ConfigMaps are that a pod is created behind; ControllerLife: what happens to a task that has finished; ControllerSamples: a concrete API server. Deployment: operator and SDK together.
  \<^item> Samples, LoopSamples: a concrete environment, file system and run on which witnesses are evaluated.

  \<^bold>\<open>What is proved.\<close> A run returns whatever the model, the tools and the file system do, as
  long as the trace can be written; its trace is a complete path of the protocol, every event has the data
  fields of its type, its totals are the sums over the trace, reading it back gives the logged events (those before
  the first write that was cut short, if one was), its events are ordered in time, and a replay carries the recorded stamps. The step limit holds; tool failures
  reach the model as result blocks, never the loop; the conversation answers every tool use. The file tools read
  back what they wrote, edit exactly the lines they name, and stay in the workspace unless a link loop is met; a
  run without bash stays there as a whole. The task file the operator writes loads to the same task, and it is
  known when it is refused. Recorded random draws and time stamps replay. The program exits with 0 whenever the
  run returned; the writer has then put the lines of exactly this run into a fresh file, and a task without bash whose
  workspace does not hold the file cannot have changed it. A run on the clock that replays a trace reproduces
  the run that wrote it, apart from what is measured. The operator creates a pod only behind its network policy
  and ConfigMap, writes only well-formed statuses, reconciles idempotently, gives a new task its pod within two
  reconciliations, and never a second one when reads are current and updates accepted; it leaves the status of a
  finished task alone when finished and missing pods stay so and none is Unknown; the SDK in the pod it builds
  runs the task of the AgentTask, field by field, and the exit status of the container is known from the spec. Some
  theorems state where the code departs from
  what it says: an escape from the workspace through a link loop, line numbers that differ between file_read and
  file_edit, a blank line that is lost, the step count of an empty run, an exhausted replay clock, a second pod
  after a refused status update, a finished task that runs again when its pod was in phase Unknown or not yet in the
  cache.

  \<^bold>\<open>Parameters.\<close> Code outside the repository is an argument of the definitions: the
  operating system's clock readings, faults of the kernel and of the trace file, what a shell command does, the
  Anthropic API, pydantic's validation and JSON text of an event,
  \<^verbatim>\<open>datetime.fromisoformat\<close> on strings the SDK does not write, the YAML parser,
  \<^verbatim>\<open>repr\<close> of floats and other values, \<^verbatim>\<open>int(str)\<close> and
  \<^verbatim>\<open>float(str)\<close>. Theorems that need a law of one of them name it as a hypothesis
  (\<open>json_lines\<close>: an event's line is one line and loads back to the event; \<open>writer_ok\<close>,
  \<open>sink_ok\<close>, \<open>kernel_ok\<close>: nothing is refused; \<open>owner_only\<close>, \<open>names_pods\<close>, \<open>owns_status\<close>,
  \<open>own_objects\<close>, \<open>reads_current\<close>, \<open>accepts_status\<close>, \<open>starts_new\<close>, \<open>pods_final\<close>, \<open>pods_known\<close>: the API server; \<open>projects\<close>: a mounted ConfigMap;
  \<open>yaml_agrees\<close>: the two YAML libraries). For the operator, the API server, \<^verbatim>\<open>SetControllerReference\<close>, the YAML
  marshaller, the process environment and the clock are parameters.

  \<^bold>\<open>Not modelled.\<close> Logging output; overflow of doubles to infinity; concurrent changes to
  the file system during a call; the open trace file as the writer and the tools share it: what the writer puts
  into it is \<open>ew_file\<close>, what tools do to that path shows in their file system only, and TraceFile says when
  that is nothing (a shell command may read or change the file); the wiring of the Go
  manager (\<^verbatim>\<open>cmd/main.go\<close>, \<^verbatim>\<open>SetupWithManager\<close>), which only calls controller-runtime, and the generated deep
  copies; the CRDs and deployment files, and the tests.
\<close>

end
